(* ===== verification/Prelude.thy ===== *)
theory Prelude
  imports Main "HOL-Library.AList" "HOL-Library.Char_ord" "HOL-Library.List_Lexorder"
    "HOL-Library.Sublist" "HOL-Library.Multiset"
begin

text \<open>
  The part of Go and of its standard library that the operator's sources use, shared by every
  component: fixed-width integers, times and durations, decimal formatting and parsing,
  the \<^verbatim>\<open>strings\<close> helpers, string-keyed maps, sorting and error values.

  \<^item> \<^verbatim>\<open>int32\<close>, \<^verbatim>\<open>int64\<close> and (on the 64-bit targets the operator is built for) \<^verbatim>\<open>int\<close>
    are integers kept in range by \<open>wrap32\<close> and \<open>wrap64\<close>, which every arithmetic
    operation of the source that can overflow carries in the model.
  \<^item> \<^verbatim>\<open>time.Time\<close> is a number of nanoseconds since Go's zero time, so \<^verbatim>\<open>IsZero\<close> is
    equality with 0, and \<^verbatim>\<open>Time.Sub\<close> saturates at the ends of \<^verbatim>\<open>time.Duration\<close>.
  \<^item> A Go string is a list of bytes; \<^verbatim>\<open>strings.TrimSpace\<close> drops the encodings of Unicode white space.
\<close>

named_theorems go_int \<open>fixed-width integer facts\<close>
named_theorems go_time \<open>facts on times and durations\<close>

section \<open>Fixed-width integers\<close>

type_synonym i32 = int
type_synonym i64 = int
type_synonym goint = int

definition wrap32 :: "int \<Rightarrow> i32" where
  "wrap32 x = (x + 2147483648) mod 4294967296 - 2147483648"

definition wrap64 :: "int \<Rightarrow> i64" where
  "wrap64 x = (x + 9223372036854775808) mod 18446744073709551616 - 9223372036854775808"

definition in_i32 :: "int \<Rightarrow> bool" where
  "in_i32 x \<longleftrightarrow> - 2147483648 \<le> x \<and> x < 2147483648"

definition in_i64 :: "int \<Rightarrow> bool" where
  "in_i64 x \<longleftrightarrow> - 9223372036854775808 \<le> x \<and> x < 9223372036854775808"

text \<open>Go's integer division truncates towards zero.\<close>

definition quot :: "int \<Rightarrow> int \<Rightarrow> int" where
  "quot a b = sgn a * sgn b * (\<bar>a\<bar> div \<bar>b\<bar>)"

section \<open>Times and durations\<close>

type_synonym gotime = int
type_synonym duration = i64

definition Second :: duration where "Second = 1000000000"
definition Minute :: duration where "Minute = 60 * Second"

definition IsZero :: "gotime option \<Rightarrow> bool" where
  \<comment> \<open>\<^verbatim>\<open>(*metav1.Time).IsZero\<close>: a nil pointer is zero\<close>
  "IsZero t = (case t of None \<Rightarrow> True | Some x \<Rightarrow> x = 0)"

definition sub_time :: "gotime \<Rightarrow> gotime \<Rightarrow> duration" where
  "sub_time t u = max (- 9223372036854775808) (min 9223372036854775807 (t - u))"

section \<open>Strings\<close>

fun join :: "string \<Rightarrow> string list \<Rightarrow> string" where
  "join sep [] = []"
| "join sep [x] = x"
| "join sep (x # y # ys) = x @ sep @ join sep (y # ys)"

fun split_on :: "char \<Rightarrow> string \<Rightarrow> string list" where
  "split_on c [] = [[]]"
| "split_on c (x # xs) =
     (if x = c then [] # split_on c xs
      else (case split_on c xs of [] \<Rightarrow> [[x]] | y # ys \<Rightarrow> (x # y) # ys))"

definition space_runes :: "string list" where
  \<comment> \<open>the runes of \<^verbatim>\<open>unicode.IsSpace\<close> in UTF-8\<close>
  "space_runes = [[CHR 0x09], [CHR 0x0A], [CHR 0x0B], [CHR 0x0C], [CHR 0x0D], [CHR '' ''], [CHR 0xC2, CHR 0x85], [CHR 0xC2, CHR 0xA0],
     [CHR 0xE1, CHR 0x9A, CHR 0x80], [CHR 0xE2, CHR 0x80, CHR 0x80], [CHR 0xE2, CHR 0x80, CHR 0x81], [CHR 0xE2, CHR 0x80, CHR 0x82],
     [CHR 0xE2, CHR 0x80, CHR 0x83], [CHR 0xE2, CHR 0x80, CHR 0x84], [CHR 0xE2, CHR 0x80, CHR 0x85], [CHR 0xE2, CHR 0x80, CHR 0x86],
     [CHR 0xE2, CHR 0x80, CHR 0x87], [CHR 0xE2, CHR 0x80, CHR 0x88], [CHR 0xE2, CHR 0x80, CHR 0x89], [CHR 0xE2, CHR 0x80, CHR 0x8A],
     [CHR 0xE2, CHR 0x80, CHR 0xA8], [CHR 0xE2, CHR 0x80, CHR 0xA9], [CHR 0xE2, CHR 0x80, CHR 0xAF], [CHR 0xE2, CHR 0x81, CHR 0x9F],
     [CHR 0xE3, CHR 0x80, CHR 0x80]]"

lemma rune_shorter:
  assumes "r \<noteq> []" and "take (length r) s = r"
  shows "length s - length r < length s"
proof -
  have "s \<noteq> []" using assms by auto
  with assms(1) show ?thesis by (simp add: diff_less)
qed

function strip :: "string list \<Rightarrow> string \<Rightarrow> string" where
  \<comment> \<open>drops the given runes from the front as long as one is there\<close>
  "strip runes s =
     (case find (\<lambda>r. r \<noteq> [] \<and> take (length r) s = r) runes of
        None \<Rightarrow> s
      | Some r \<Rightarrow> strip runes (drop (length r) s))"
  by pat_completeness auto
termination by (relation "measure (\<lambda>(_, s). length s)") (auto simp: find_Some_iff intro: rune_shorter)

declare strip.simps [simp del]

definition TrimSpace :: "string \<Rightarrow> string" where
  \<comment> \<open>the runes at the end are found on the reversed bytes\<close>
  "TrimSpace s = rev (strip (map rev space_runes) (rev (strip space_runes s)))"

definition HasPrefix :: "string \<Rightarrow> string \<Rightarrow> bool" where
  "HasPrefix s p \<longleftrightarrow> prefix p s"

definition strings_Contains :: "string \<Rightarrow> string \<Rightarrow> bool" where
  "strings_Contains s p \<longleftrightarrow> sublist p s"

definition em_dash :: string where
  \<comment> \<open>the UTF-8 bytes of the dash the messages use\<close>
  "em_dash = [CHR 0xE2, CHR 0x80, CHR 0x94]"

subsection \<open>Decimal notation\<close>

definition digit :: "nat \<Rightarrow> char" where
  "digit d = char_of (48 + d)"

definition is_digit :: "char \<Rightarrow> bool" where
  "is_digit c \<longleftrightarrow> 48 \<le> (of_char c :: nat) \<and> (of_char c :: nat) \<le> 57"

fun digits :: "nat \<Rightarrow> string" where
  "digits n = (if n < 10 then [digit n] else digits (n div 10) @ [digit (n mod 10)])"

declare digits.simps [simp del]

definition FormatInt :: "int \<Rightarrow> string" where
  \<comment> \<open>\<^verbatim>\<open>strconv.FormatInt(i, 10)\<close>, \<^verbatim>\<open>strconv.Itoa\<close> and the verb \<^verbatim>\<open>%d\<close>\<close>
  "FormatInt i = (if i < 0 then CHR ''-'' # digits (nat (- i)) else digits (nat i))"

definition digits_val :: "string \<Rightarrow> nat" where
  "digits_val s = foldl (\<lambda>v c. 10 * v + (of_char c - 48)) 0 s"

definition ParseUint :: "string \<Rightarrow> nat option" where
  "ParseUint s = (if s \<noteq> [] \<and> list_all is_digit s then Some (digits_val s) else None)"

datatype num_error = ErrSyntax | ErrRange

definition ParseInt :: "nat \<Rightarrow> string \<Rightarrow> num_error + int" where
  \<comment> \<open>\<^verbatim>\<open>strconv.ParseInt(s, 10, bits)\<close>: an optional sign, decimal digits, a range check\<close>
  "ParseInt bits s =
     (let body = (case s of c # cs \<Rightarrow> if c = CHR ''+'' \<or> c = CHR ''-'' then cs else s | [] \<Rightarrow> []);
          neg = (case s of c # cs \<Rightarrow> c = CHR ''-'' | [] \<Rightarrow> False)
      in case ParseUint body of
           None \<Rightarrow> Inl ErrSyntax
         | Some n \<Rightarrow>
             (let v = (if neg then - int n else int n)
              in if - (2 ^ (bits - 1)) \<le> v \<and> v < 2 ^ (bits - 1) then Inr v else Inl ErrRange))"

subsection \<open>Quoting\<close>

text \<open>
  The verb \<^verbatim>\<open>%q\<close> on ASCII; a byte of a multi-byte character is copied, which is what Go does for
  printable ones.
\<close>

definition hex_digit :: "nat \<Rightarrow> char" where
  "hex_digit d = (if d < 10 then digit d else char_of (87 + d))"

definition quote_char :: "char \<Rightarrow> string" where
  "quote_char c =
     (let n = (of_char c :: nat) in
      if n = 34 \<or> n = 92 then [CHR 0x5C, c]
      else if n = 7 then [CHR 0x5C, CHR ''a'']
      else if n = 8 then [CHR 0x5C, CHR ''b'']
      else if n = 9 then [CHR 0x5C, CHR ''t'']
      else if n = 10 then [CHR 0x5C, CHR ''n'']
      else if n = 11 then [CHR 0x5C, CHR ''v'']
      else if n = 12 then [CHR 0x5C, CHR ''f'']
      else if n = 13 then [CHR 0x5C, CHR ''r'']
      else if n < 32 \<or> n = 127
        then [CHR 0x5C, CHR ''x'', hex_digit (n div 16), hex_digit (n mod 16)]
      else [c])"

definition go_quote :: "string \<Rightarrow> string" where
  "go_quote s = [CHR 0x22] @ concat (map quote_char s) @ [CHR 0x22]"

definition num_error_text :: "string \<Rightarrow> num_error \<Rightarrow> string" where
  "num_error_text s e =
     ''strconv.ParseInt: parsing '' @ go_quote s @ '': '' @
     (case e of ErrSyntax \<Rightarrow> ''invalid syntax'' | ErrRange \<Rightarrow> ''value out of range'')"

subsection \<open>\<^verbatim>\<open>time.Duration.String\<close>\<close>

definition trim_zeros :: "string \<Rightarrow> string" where
  "trim_zeros s = rev (dropWhile (\<lambda>c. c = CHR ''0'') (rev s))"

definition pad_left :: "nat \<Rightarrow> string \<Rightarrow> string" where
  "pad_left w s = replicate (w - length s) (CHR ''0'') @ s"

definition fmt_frac :: "nat \<Rightarrow> nat \<Rightarrow> string" where
  \<comment> \<open>the last \<open>prec\<close> decimal digits of \<open>v\<close> as a fraction, trailing zeros and an idle point omitted\<close>
  "fmt_frac v prec =
     (let f = trim_zeros (pad_left prec (digits (v mod 10 ^ prec)))
      in if v mod 10 ^ prec = 0 then [] else CHR ''.'' # f)"

definition duration_string :: "duration \<Rightarrow> string" where
  "duration_string d =
     (let u = nat \<bar>d\<bar>;
          body =
            (if u = 0 then ''0s''
             else if u < 1000 then digits u @ ''ns''
             else if u < 1000000
               then digits (u div 1000) @ fmt_frac u 3 @ [CHR 0xC2, CHR 0xB5] @ ''s''
             else if u < 1000000000
               then digits (u div 1000000) @ fmt_frac u 6 @ ''ms''
             else
               (let s = u div 1000000000; m = s div 60; h = m div 60;
                    secs = digits (s mod 60) @ fmt_frac u 9 @ ''s''
                in if m = 0 then secs
                   else if h = 0 then digits (m mod 60) @ ''m'' @ secs
                   else digits h @ ''h'' @ digits (m mod 60) @ ''m'' @ secs))
      in if d < 0 then CHR ''-'' # body else body)"

section \<open>String-keyed maps\<close>

text \<open>
  A Go map that the code iterates is an association list with one entry per key: \<open>map_of\<close>
  reads it, \<open>AList.update\<close> writes it, and its order stands for the order of an iteration.
\<close>

type_synonym smap = "(string \<times> string) list"

definition smap_get :: "smap \<Rightarrow> string \<Rightarrow> string" where
  \<comment> \<open>\<^verbatim>\<open>m[k]\<close>: the zero value for an absent key\<close>
  "smap_get m k = (case map_of m k of None \<Rightarrow> [] | Some v \<Rightarrow> v)"

section \<open>Errors\<close>

datatype api_error =
    ErrNotFound | ErrNoMatch | ErrUnauthorized | ErrForbidden | ErrTimeout | ErrServerTimeout
  | ErrServiceUnavailable | ErrConflict | ErrAlreadyExists | ErrNet | ErrDNS | ErrOther

datatype go_error = ApiErr api_error string | Errorf string | Wrapped string go_error

type_synonym 'a result = "go_error + 'a"

fun error_text :: "go_error \<Rightarrow> string" where
  "error_text (ApiErr k s) = s"
| "error_text (Errorf s) = s"
| "error_text (Wrapped s e) = s @ '': '' @ error_text e"

text \<open>\<^verbatim>\<open>errors.As\<close> on an API status error looks through every \<^verbatim>\<open>%w\<close>.\<close>

fun api_cause :: "go_error \<Rightarrow> api_error option" where
  "api_cause (ApiErr k s) = Some k"
| "api_cause (Errorf s) = None"
| "api_cause (Wrapped s e) = api_cause e"

definition IsNotFound :: "go_error \<Rightarrow> bool" where
  "IsNotFound e \<longleftrightarrow> api_cause e = Some ErrNotFound"

definition IsNoMatchError :: "go_error \<Rightarrow> bool" where
  "IsNoMatchError e \<longleftrightarrow> api_cause e = Some ErrNoMatch"

text \<open>A loop that stops at the first error, keeping the state it has built.\<close>

fun fold_result :: "('a \<Rightarrow> 's \<Rightarrow> 's result) \<Rightarrow> 'a list \<Rightarrow> 's \<Rightarrow> 's result" where
  "fold_result f [] s = Inr s"
| "fold_result f (x # xs) s = (case f x s of Inl e \<Rightarrow> Inl e | Inr s' \<Rightarrow> fold_result f xs s')"

section \<open>Facts on integers and times\<close>

lemma wrap32_id [go_int]: "in_i32 x \<Longrightarrow> wrap32 x = x"
  by (simp add: wrap32_def in_i32_def)

lemma wrap64_id [go_int]: "in_i64 x \<Longrightarrow> wrap64 x = x"
  by (simp add: wrap64_def in_i64_def)

lemma wrap32_range [go_int]: "in_i32 (wrap32 x)"
  by (simp add: wrap32_def in_i32_def)

lemma wrap64_range [go_int]: "in_i64 (wrap64 x)"
  by (simp add: wrap64_def in_i64_def)

lemma wrap32_minus_count:
  assumes "in_i32 d" and "0 \<le> l" and "l < 2147483648" and "0 \<le> d \<or> l \<le> d"
  shows "wrap32 (d - l) = d - l"
  using assms by (intro wrap32_id) (auto simp: in_i32_def)

lemma wrap64_wrap64 [simp]: "wrap64 (wrap64 a + b) = wrap64 (a + b)" "wrap64 (a + wrap64 b) = wrap64 (a + b)"
  by (simp_all add: wrap64_def mod_simps algebra_simps)

lemma wrap32_wrap32: "wrap32 (wrap32 a + b) = wrap32 (a + b)"
  by (simp add: wrap32_def mod_simps algebra_simps)

lemma sub_time_pos [go_time]: "0 < sub_time t u \<longleftrightarrow> u < t"
  by (auto simp: sub_time_def)

lemma sub_time_le:
  "- 9223372036854775808 \<le> d \<Longrightarrow> d < 9223372036854775807 \<Longrightarrow> sub_time t u \<le> d \<longleftrightarrow> t - u \<le> d"
  by (auto simp: sub_time_def)

lemma sub_time_less:
  "- 9223372036854775808 < d \<Longrightarrow> d \<le> 9223372036854775807 \<Longrightarrow> sub_time t u < d \<longleftrightarrow> t - u < d"
  by (auto simp: sub_time_def)

lemma IsZero_simps [simp]: "IsZero None" "IsZero (Some t) \<longleftrightarrow> t = 0"
  by (simp_all add: IsZero_def)

section \<open>Facts on decimal notation\<close>

lemma of_char_digit [simp]: "d < 10 \<Longrightarrow> (of_char (digit d) :: nat) = 48 + d"
  by (simp add: digit_def)

lemma is_digit_digit [simp]: "d < 10 \<Longrightarrow> is_digit (digit d)"
  by (simp add: is_digit_def)

lemma digits_nonempty [simp]: "digits n \<noteq> []"
  by (subst digits.simps) simp

lemma digits_are_digits: "list_all is_digit (digits n)"
proof (induction n rule: digits.induct)
  case (1 n)
  then show ?case by (cases "n < 10") (simp_all add: digits.simps [of n])
qed

lemma digits_val_snoc: "digits_val (s @ [c]) = 10 * digits_val s + (of_char c - 48)"
  by (simp add: digits_val_def)

lemma digits_val_digits [simp]: "digits_val (digits n) = n"
proof (induction n rule: digits.induct)
  case (1 n)
  show ?case
  proof (cases "n < 10")
    case True
    then show ?thesis by (simp add: digits.simps [of n] digits_val_def)
  next
    case False
    with 1 show ?thesis by (simp add: digits.simps [of n] digits_val_snoc)
  qed
qed

lemma digits_inj: "digits m = digits n \<Longrightarrow> m = n"
  by (metis digits_val_digits)

lemma ParseUint_digits [simp]: "ParseUint (digits n) = Some n"
  by (simp add: ParseUint_def digits_are_digits)

lemma digits_hd: "digits n = c # cs \<Longrightarrow> is_digit c"
  using digits_are_digits [of n] by simp

lemma sign_not_digit [simp]: "\<not> is_digit (CHR ''-'')" "\<not> is_digit (CHR ''+'')"
  by (simp_all add: is_digit_def)

lemma ParseInt_digits:
  "int n < 2 ^ (bits - 1) \<Longrightarrow> ParseInt bits (digits n) = Inr (int n)"
proof -
  assume n: "int n < 2 ^ (bits - 1)"
  obtain c cs where d: "digits n = c # cs"
    by (cases "digits n") auto
  then have c: "c \<noteq> CHR ''+''" "c \<noteq> CHR ''-''"
    using digits_hd by fastforce+
  have "- (2 ^ (bits - 1)) \<le> int n"
    by (rule order_trans [of _ 0]) simp_all
  with n c d show ?thesis
    using ParseUint_digits [of n] by (simp add: ParseInt_def)
qed

theorem ParseInt_FormatInt:
  assumes "- (2 ^ (bits - 1)) \<le> i" and "i < 2 ^ (bits - 1)"
  shows "ParseInt bits (FormatInt i) = Inr i"
proof (cases "i < 0")
  case True
  with assms show ?thesis by (simp add: FormatInt_def ParseInt_def)
next
  case False
  with assms(2) show ?thesis
    using ParseInt_digits [of "nat i" bits] by (simp add: FormatInt_def)
qed

lemma FormatInt_inj: "FormatInt i = FormatInt j \<Longrightarrow> i = j"
proof -
  assume eq: "FormatInt i = FormatInt j"
  have neq: "CHR ''-'' # x \<noteq> digits n" for x n
    using digits_hd [of n "CHR ''-''" x] by auto
  from eq show "i = j"
    by (auto simp: FormatInt_def neq neq [symmetric] dest!: digits_inj split: if_splits)
qed

section \<open>Facts on strings\<close>

lemma split_on_nonempty [simp]: "split_on c s \<noteq> []"
  by (induction s) (auto split: list.split)

lemma split_on_append_sep:
  "c \<notin> set x \<Longrightarrow> split_on c (x @ c # s) = x # split_on c s"
  by (induction x) auto

lemma split_on_none: "c \<notin> set x \<Longrightarrow> split_on c x = [x]"
  by (induction x) auto

lemma join_Cons: "join sep (x # xs) = (if xs = [] then x else x @ sep @ join sep xs)"
  by (cases xs) auto

theorem split_on_join:
  "xs \<noteq> [] \<Longrightarrow> \<forall>x \<in> set xs. c \<notin> set x \<Longrightarrow> split_on c (join [c] xs) = xs"
  by (induction xs) (auto simp: join_Cons split_on_append_sep split_on_none)

lemma strip_Nil [simp]: "strip runes [] = []"
  by (subst strip.simps) (auto simp: find_Some_iff split: option.split)

lemma strip_cases: "strip runes s = s \<and> (\<forall>r \<in> set runes. r \<noteq> [] \<longrightarrow> take (length r) s \<noteq> r) \<or>
    length (strip runes s) < length s \<and> (\<exists>r \<in> set runes. r \<noteq> [] \<and> take (length r) s = r)"
proof (cases "find (\<lambda>r. r \<noteq> [] \<and> take (length r) s = r) runes")
  case None
  then have "strip runes s = s" by (subst strip.simps) simp
  with None show ?thesis by (auto simp: find_None_iff)
next
  case (Some r)
  have shorter: "length (strip runes t) \<le> length t" for t
    by (induction runes t rule: strip.induct) (subst strip.simps, auto split: option.split)
  from Some have r: "r \<in> set runes" "r \<noteq> []" "take (length r) s = r" by (auto simp: find_Some_iff)
  have "length (strip runes s) < length s"
    using shorter [of "drop (length r) s"] rune_shorter [OF r(2,3)] by (subst strip.simps) (auto simp: Some)
  with r show ?thesis by blast
qed

lemma strip_append:
  assumes "strip runes x = x" and "\<forall>r \<in> set runes. c \<notin> set r"
  shows "strip runes (x @ c # y) = x @ c # y"
proof -
  have "take (length r) (x @ c # y) \<noteq> r" if r: "r \<in> set runes" "r \<noteq> []" for r
  proof (cases "length r \<le> length x")
    case True
    then show ?thesis using assms(1) r strip_cases [of runes x] by force
  next
    case False
    then have "c \<in> set (take (length r) (x @ c # y))" by (simp add: take_Cons')
    with assms(2) r(1) show ?thesis by metis
  qed
  then show ?thesis using strip_cases [of runes "x @ c # y"] by blast
qed

lemma strip_set: "set (strip runes s) \<subseteq> set s"
proof (induction runes s rule: strip.induct)
  case (1 runes s)
  then show ?case by (subst strip.simps) (auto split: option.split dest: in_set_dropD)
qed

lemma TrimSpace_Nil [simp]: "TrimSpace [] = []"
  by (simp add: TrimSpace_def)

lemma TrimSpace_fixed: "TrimSpace s = s \<Longrightarrow> strip space_runes s = s"
  using strip_cases [of space_runes s] strip_cases [of "map rev space_runes" "rev (strip space_runes s)"]
  by (auto simp: TrimSpace_def) (metis length_rev not_less_iff_gr_or_eq order_less_trans)

text \<open>A byte of no white-space rune, and a text that starts and ends with such bytes, up to a trimmed start.\<close>

definition hard :: "char \<Rightarrow> bool" where
  "hard c \<longleftrightarrow> (\<forall>r \<in> set space_runes. c \<notin> set r)"

definition firm :: "string \<Rightarrow> bool" where
  "firm s \<longleftrightarrow> (\<exists>x c y. s = x @ c # y \<and> strip space_runes x = x \<and> hard c) \<and> (\<exists>z d. s = z @ [d] \<and> hard d)"

lemma TrimSpace_firm: "firm s \<Longrightarrow> TrimSpace s = s"
proof -
  assume "firm s"
  then obtain x c y z d where s: "s = x @ c # y" "strip space_runes x = x" "hard c" and e: "s = z @ [d]" "hard d"
    unfolding firm_def by blast
  have "strip space_runes s = s" unfolding s(1) by (rule strip_append) (use s(2,3) in \<open>auto simp: hard_def\<close>)
  moreover have "strip (map rev space_runes) ([] @ d # rev z) = [] @ d # rev z"
    by (rule strip_append) (use e(2) in \<open>auto simp: hard_def\<close>)
  ultimately show ?thesis by (simp add: TrimSpace_def e(1))
qed

lemma firm_append: "firm s \<Longrightarrow> firm t \<Longrightarrow> firm (s @ t)"
  unfolding firm_def by (metis append.assoc append_Cons)

lemma firm_start: "strip space_runes x = x \<Longrightarrow> hard c \<Longrightarrow> firm y \<Longrightarrow> firm (x @ c # y)"
  unfolding firm_def by (metis append.assoc append_Cons)

lemma firm_hard: "s \<noteq> [] \<Longrightarrow> list_all hard s \<Longrightarrow> firm s"
proof -
  assume s: "s \<noteq> []" "list_all hard s"
  have "s = [] @ hd s # tl s" "hard (hd s)" "s = butlast s @ [last s]" "hard (last s)"
    using s by (simp_all add: list_all_iff)
  moreover have "strip space_runes [] = []" by simp
  ultimately show ?thesis unfolding firm_def by metis
qed

lemma digit_hard: "is_digit c \<Longrightarrow> hard c"
  by (auto simp: is_digit_def hard_def space_runes_def)

lemma sep_hard [simp]: "hard (CHR '','')" "hard (CHR '':'')" "hard (CHR '';'')" "hard (CHR ''-'')"
  by (simp_all add: hard_def space_runes_def)

lemma FormatInt_hard: "list_all hard (FormatInt i)" "FormatInt i \<noteq> []"
  using digits_are_digits [of "nat \<bar>i\<bar>"] digits_nonempty [of "nat \<bar>i\<bar>"]
  by (auto simp: FormatInt_def list_all_iff digit_hard)

lemma TrimSpace_set: "set (TrimSpace s) \<subseteq> set s"
  using strip_set [of "map rev space_runes"] strip_set [of space_runes] by (fastforce simp: TrimSpace_def)

lemma HasPrefix_append [simp]: "HasPrefix (p @ s) p"
  by (simp add: HasPrefix_def)

lemma smap_get_update:
  "smap_get (AList.update k v m) k' = (if k' = k then v else smap_get m k')"
  by (simp add: smap_get_def update_conv)

section \<open>Facts on loops\<close>

lemma map_sum_id_Inr_iff [simp]: "map_sum id f r = Inr y \<longleftrightarrow> (\<exists>x. r = Inr x \<and> y = f x)"
  by (cases r) auto

lemma fold_result_append:
  "fold_result f (xs @ ys) s =
     (case fold_result f xs s of Inl e \<Rightarrow> Inl e | Inr t \<Rightarrow> fold_result f ys t)"
  by (induction xs arbitrary: s) (auto split: sum.splits)

lemma fold_result_total:
  assumes "\<And>x s. (\<exists>s'. f x s = Inr s') \<longleftrightarrow> P x"
  shows "(\<exists>s'. fold_result f xs s = Inr s') \<longleftrightarrow> (\<forall>x \<in> set xs. P x)"
proof (induction xs arbitrary: s)
  case (Cons x xs)
  then show ?case using assms [of x s] by (cases "f x s") auto
qed simp

lemma fold_result_invariant:
  assumes "fold_result f xs s = Inr t" and "P s"
    and "\<And>x u v. x \<in> set xs \<Longrightarrow> P u \<Longrightarrow> f x u = Inr v \<Longrightarrow> P v"
  shows "P t"
  using assms
proof (induction xs arbitrary: s)
  case (Cons x xs)
  then obtain u where u: "f x s = Inr u" "fold_result f xs u = Inr t"
    by (auto split: sum.splits)
  with Cons.prems have "P u" by auto
  with u(2) Cons.prems(3) show ?case by (auto intro: Cons.IH)
qed simp

section \<open>First occurrences\<close>

text \<open>The distinct elements of a list, each where it first stands.\<close>

fun firsts :: "'a list \<Rightarrow> 'a list" where
  "firsts [] = []"
| "firsts (x # xs) = x # filter (\<lambda>y. y \<noteq> x) (firsts xs)"

lemma set_firsts [simp]: "set (firsts xs) = set xs"
  by (induction xs) auto

lemma distinct_firsts [simp]: "distinct (firsts xs)"
  by (induction xs) auto

lemma firsts_filter: "firsts (filter P xs) = filter P (firsts xs)"
proof (induction xs)
  case (Cons x xs)
  have "filter (\<lambda>y. P y \<and> y \<noteq> x) ys = filter P ys" if "\<not> P x" for ys
    using that by (intro filter_cong) auto
  with Cons show ?case by (auto simp: conj_commute)
qed simp

lemma firsts_id: "distinct xs \<Longrightarrow> firsts xs = xs"
proof (induction xs)
  case (Cons x xs)
  then have "filter (\<lambda>y. y \<noteq> x) xs = xs" by (intro filter_True) auto
  with Cons show ?case by simp
qed simp

lemma firsts_append_prefix: "\<exists>zs. firsts (xs @ ys) = firsts xs @ zs"
  by (induction xs) auto

lemma sort_map_key: "sort (map f xs) = map f (sort_key f xs)"
  by (rule properties_for_sort) simp_all

end
