(* ===== verification/Api.thy ===== *)
theory Api
  imports Prelude
begin

text \<open>
  The API types of \<^verbatim>\<open>api/v1alpha1\<close>: the GPUCellPool spec and status as records (a Go pointer is
  an \<open>option\<close>), the phases of a cell as a datatype, and the condition types, reasons, labels,
  annotations and finalizers of \<^verbatim>\<open>conditions.go\<close> as constants. Record fields carry a prefix for
  their struct, since HOL record fields share one name space. Kubernetes' own types
  (\<^verbatim>\<open>metav1.Condition\<close>, \<^verbatim>\<open>corev1.Taint\<close>, object metadata) keep the fields the operator reads or writes.
\<close>

section \<open>Condition types, reasons, labels and finalizers\<close>
abbreviation ConditionReady :: string where "ConditionReady \<equiv> ''Ready''"
abbreviation ConditionProgressing :: string where "ConditionProgressing \<equiv> ''Progressing''"
abbreviation ConditionWorkloadClusterReachable :: string where "ConditionWorkloadClusterReachable \<equiv> ''WorkloadClusterReachable''"
abbreviation ConditionCapacityProviderReady :: string where "ConditionCapacityProviderReady \<equiv> ''CapacityProviderReady''"
abbreviation ConditionCapacityAvailable :: string where "ConditionCapacityAvailable \<equiv> ''CapacityAvailable''"
abbreviation ConditionPhysicalGPUsAvailable :: string where "ConditionPhysicalGPUsAvailable \<equiv> ''PhysicalGPUsAvailable''"
abbreviation ConditionScalingActive :: string where "ConditionScalingActive \<equiv> ''ScalingActive''"
abbreviation ConditionCellDrainRequested :: string where "ConditionCellDrainRequested \<equiv> ''CellDrainRequested''"
abbreviation ConditionUpdated :: string where "ConditionUpdated \<equiv> ''Updated''"
abbreviation ReasonIdle :: string where "ReasonIdle \<equiv> ''Idle''"
abbreviation ReasonStalled :: string where "ReasonStalled \<equiv> ''Stalled''"
abbreviation ReasonCellsNotReady :: string where "ReasonCellsNotReady \<equiv> ''CellsNotReady''"
abbreviation ReasonAllCellsReady :: string where "ReasonAllCellsReady \<equiv> ''AllCellsReady''"
abbreviation ReasonCellCreating :: string where "ReasonCellCreating \<equiv> ''CellCreating''"
abbreviation ReasonCellDraining :: string where "ReasonCellDraining \<equiv> ''CellDraining''"
abbreviation ReasonTemplateChanged :: string where "ReasonTemplateChanged \<equiv> ''TemplateChanged''"
abbreviation ReasonAllCellsCurrent :: string where "ReasonAllCellsCurrent \<equiv> ''AllCellsCurrent''"
abbreviation ReasonRollingUpdate :: string where "ReasonRollingUpdate \<equiv> ''RollingUpdate''"
abbreviation ReasonUpdateBlocked :: string where "ReasonUpdateBlocked \<equiv> ''UpdateBlocked''"
abbreviation ReasonConnected :: string where "ReasonConnected \<equiv> ''Connected''"
abbreviation ReasonUnreachable :: string where "ReasonUnreachable \<equiv> ''Unreachable''"
abbreviation ReasonCredentialInvalid :: string where "ReasonCredentialInvalid \<equiv> ''CredentialInvalid''"
abbreviation ReasonForbidden :: string where "ReasonForbidden \<equiv> ''Forbidden''"
abbreviation ReasonHAMiDetected :: string where "ReasonHAMiDetected \<equiv> ''HAMiDetected''"
abbreviation ReasonHAMiNotDetected :: string where "ReasonHAMiNotDetected \<equiv> ''HAMiNotDetected''"
abbreviation ReasonRegistrationUnparseable :: string where "ReasonRegistrationUnparseable \<equiv> ''RegistrationUnparseable''"
abbreviation ReasonDRAFeatureGateMissing :: string where "ReasonDRAFeatureGateMissing \<equiv> ''DRAFeatureGateMissing''"
abbreviation ReasonDRADeviceClassMissing :: string where "ReasonDRADeviceClassMissing \<equiv> ''DRADeviceClassMissing''"
abbreviation ReasonCapacityFree :: string where "ReasonCapacityFree \<equiv> ''CapacityFree''"
abbreviation ReasonSaturated :: string where "ReasonSaturated \<equiv> ''Saturated''"
abbreviation ReasonCapacityUnknown :: string where "ReasonCapacityUnknown \<equiv> ''Unknown''"
abbreviation ReasonHeterogeneous :: string where "ReasonHeterogeneous \<equiv> ''Heterogeneous''"
abbreviation ReasonModelMismatch :: string where "ReasonModelMismatch \<equiv> ''ModelMismatch''"
abbreviation ReasonFreeDevices :: string where "ReasonFreeDevices \<equiv> ''FreeDevices''"
abbreviation ReasonInsufficientGPUs :: string where "ReasonInsufficientGPUs \<equiv> ''InsufficientPhysicalGPU''"
abbreviation ReasonCellUnschedulable :: string where "ReasonCellUnschedulable \<equiv> ''CellUnschedulable''"
abbreviation ReasonCellProvisionTimeout :: string where "ReasonCellProvisionTimeout \<equiv> ''CellProvisionTimeout''"
abbreviation ReasonJoinTimeout :: string where "ReasonJoinTimeout \<equiv> ''JoinTimeout''"
abbreviation ReasonNodeNeverRegistered :: string where "ReasonNodeNeverRegistered \<equiv> ''NodeNeverRegistered''"
abbreviation ReasonGPUNotAdvertised :: string where "ReasonGPUNotAdvertised \<equiv> ''GPUNotAdvertised''"
abbreviation ReasonNodeNameCollision :: string where "ReasonNodeNameCollision \<equiv> ''NodeNameCollision''"
abbreviation ReasonBootstrapCredentialSuspect :: string where "ReasonBootstrapCredentialSuspect \<equiv> ''BootstrapCredentialSuspect''"
abbreviation ReasonCellReplacementExhausted :: string where "ReasonCellReplacementExhausted \<equiv> ''CellReplacementExhausted''"
abbreviation ReasonFaultNotInTheCell :: string where "ReasonFaultNotInTheCell \<equiv> ''FaultNotInTheCell''"
abbreviation ReasonWaitingForAllocations :: string where "ReasonWaitingForAllocations \<equiv> ''WaitingForAllocations''"
abbreviation ReasonDrainTimedOut :: string where "ReasonDrainTimedOut \<equiv> ''DrainTimedOut''"
abbreviation ReasonScaledUp :: string where "ReasonScaledUp \<equiv> ''ScaledUp''"
abbreviation ReasonStabilizing :: string where "ReasonStabilizing \<equiv> ''Stabilizing''"
abbreviation ReasonAtMaxReplicas :: string where "ReasonAtMaxReplicas \<equiv> ''AtMaxReplicas''"
abbreviation ReasonDemandUnsatisfiable :: string where "ReasonDemandUnsatisfiable \<equiv> ''DemandUnsatisfiable''"
abbreviation ReasonScaledDown :: string where "ReasonScaledDown \<equiv> ''ScaledDown''"
abbreviation ReasonAtMinReplicas :: string where "ReasonAtMinReplicas \<equiv> ''AtMinReplicas''"
abbreviation ReasonNoIdleCell :: string where "ReasonNoIdleCell \<equiv> ''NoIdleCell''"
abbreviation ReasonUnknownProvisioner :: string where "ReasonUnknownProvisioner \<equiv> ''UnknownProvisioner''"
abbreviation ReasonScaledToZero :: string where "ReasonScaledToZero \<equiv> ''ScaledToZero''"
abbreviation ReasonCellShapeUnknown :: string where "ReasonCellShapeUnknown \<equiv> ''CellShapeUnknown''"
abbreviation LabelPool :: string where "LabelPool \<equiv> ''cells.kubeswift.io/pool''"
abbreviation LabelCell :: string where "LabelCell \<equiv> ''cells.kubeswift.io/cell''"
abbreviation LabelCellIndex :: string where "LabelCellIndex \<equiv> ''cells.kubeswift.io/cell-index''"
abbreviation LabelInstance :: string where "LabelInstance \<equiv> ''cells.kubeswift.io/instance''"
abbreviation AnnotationTemplateHash :: string where "AnnotationTemplateHash \<equiv> ''cells.kubeswift.io/template-hash''"
abbreviation AnnotationGPUPreflight :: string where "AnnotationGPUPreflight \<equiv> ''cells.kubeswift.io/gpu-preflight''"
abbreviation AnnotationReleaseGuard :: string where "AnnotationReleaseGuard \<equiv> ''cells.kubeswift.io/release-guard''"
abbreviation FinalizerPool :: string where "FinalizerPool \<equiv> ''cells.kubeswift.io/pool''"
abbreviation FinalizerCellDrain :: string where "FinalizerCellDrain \<equiv> ''cells.kubeswift.io/cell-drain''"

section \<open>Enumerated string values of the spec\<close>

abbreviation UpdateManual :: string where "UpdateManual \<equiv> ''Manual''"
abbreviation UpdateRolling :: string where "UpdateRolling \<equiv> ''RollingUpdate''"
abbreviation ScaleDownManual :: string where "ScaleDownManual \<equiv> ''Manual''"
abbreviation ScaleDownAuto :: string where "ScaleDownAuto \<equiv> ''Auto''"
abbreviation GPUBackendDRA :: string where "GPUBackendDRA \<equiv> ''DRA''"
abbreviation GPUBackendNative :: string where "GPUBackendNative \<equiv> ''Native''"
abbreviation BootstrapProviderOpaque :: string where "BootstrapProviderOpaque \<equiv> ''Opaque''"
abbreviation CapacityProviderHAMi :: string where "CapacityProviderHAMi \<equiv> ''HAMi''"
abbreviation HAMiModeDevicePlugin :: string where "HAMiModeDevicePlugin \<equiv> ''DevicePlugin''"
abbreviation HAMiModeDRA :: string where "HAMiModeDRA \<equiv> ''DRA''"
abbreviation DeletionPolicyDrain :: string where "DeletionPolicyDrain \<equiv> ''Drain''"
abbreviation DeletionPolicyForce :: string where "DeletionPolicyForce \<equiv> ''Force''"
abbreviation ProvisionerSwiftGuest :: string where "ProvisionerSwiftGuest \<equiv> ''SwiftGuest''"
abbreviation ProvisionerClusterAPI :: string where "ProvisionerClusterAPI \<equiv> ''ClusterAPI''"

section \<open>The pool spec\<close>

record Taint =
  tn_Key :: string
  tn_Value :: string
  tn_Effect :: string

record UpdatePolicySpec =
  up_Type :: string

record AutoscalingSpec =
  as_Enabled :: bool
  as_MinReplicas :: "i32 option"
  as_MaxReplicas :: "i32 option"
  as_StabilizationWindow :: "duration option"
  as_ScaleDown :: string
  as_ScaleDownStabilizationWindow :: "duration option"

record ClusterAPIObjectRef =
  car_APIGroup :: string
  car_Kind :: string
  car_Name :: string

record CellClusterAPISpec =
  ca_ClusterName :: string
  ca_Version :: string
  ca_BootstrapConfigTemplateRef :: "ClusterAPIObjectRef option"

record CellGPUDRASpec =
  gd_ResourceClaimTemplateName :: string
  gd_ResourceClaimName :: string
  gd_RequestName :: string
  gd_Tier :: string
  gd_Hugepages :: string

record CellGPUNativeSpec =
  gn_GPUProfileRef :: string

record CellGPUSpec =
  gs_Count :: i32
  gs_Backend :: string
  gs_DRA :: "CellGPUDRASpec option"
  gs_Native :: "CellGPUNativeSpec option"

record CellSpec =
  ce_Provisioner :: string
  ce_GuestTemplate :: string
  ce_GPU :: CellGPUSpec
  ce_SpreadPolicy :: string
  ce_NodeIPFrom :: string
  ce_ClusterAPI :: "CellClusterAPISpec option"

record BootstrapSpec =
  bs_Provider :: string
  bs_JoinSecretRef :: "string option"
  bs_JoinSecretKey :: string
  bs_Hostname :: string
  bs_ReadyTimeout :: "duration option"

record WorkloadNodeSpec =
  wn_Labels :: smap
  wn_Annotations :: smap
  wn_Taints :: "Taint list"

record WorkloadClusterSpec =
  wc_KubeconfigSecretRef :: string
  wc_Key :: string
  wc_Node :: "WorkloadNodeSpec option"

record HAMiSpec =
  hs_Mode :: string
  hs_ExpectedDevicesPerCell :: "i32 option"
  hs_DeviceClassName :: string

record CapacitySpec =
  cp_Provider :: string
  cp_HAMi :: "HAMiSpec option"
  cp_ReadyTimeout :: "duration option"

record DeletionSpec =
  dl_Policy :: string
  dl_DrainTimeout :: "duration option"

record GPUCellPoolSpec =
  sp_Replicas :: i32
  sp_Cell :: CellSpec
  sp_Bootstrap :: BootstrapSpec
  sp_WorkloadCluster :: WorkloadClusterSpec
  sp_Capacity :: CapacitySpec
  sp_Autoscaling :: "AutoscalingSpec option"
  sp_Deletion :: "DeletionSpec option"
  sp_UpdatePolicy :: "UpdatePolicySpec option"

section \<open>The pool status\<close>

text \<open>
  \<^verbatim>\<open>CellPhase\<close> is a string type whose values the CRD enumerates; \<open>PhaseUnset\<close> is its zero value,
  which a row that has never been written carries.
\<close>

datatype CellPhase =
    PhaseUnset | CellPhasePending | CellPhaseAllocatingGPU | CellPhaseGuestProvisioning
  | CellPhaseBooting | CellPhaseJoining | CellPhaseAwaitingGPUCapacity | CellPhaseReady
  | CellPhaseDraining | CellPhaseDeleting | CellPhaseFailed

record CellStatus =
  cs_Name :: string
  cs_Index :: i32
  cs_Phase :: CellPhase
  cs_GuestUID :: string
  cs_HostNode :: string
  cs_Devices :: "string list"
  cs_NodeName :: string
  cs_NodeReady :: bool
  cs_CapacityDevices :: i32
  cs_Message :: string
  cs_Reason :: string
  cs_FailureCount :: i32
  cs_ReadyOnce :: bool
  cs_TemplateHash :: string
  cs_LastTransitionTime :: "gotime option"

record PhysicalCapacityStatus =
  pc_GPUs :: i32
  pc_FreeGPUsInCluster :: "i32 option"
  pc_Model :: string

text \<open>A \<^verbatim>\<open>resource.Quantity\<close> made by \<^verbatim>\<open>NewQuantity\<close> is the integer it holds.\<close>

record MemoryCapacity =
  mc_Total :: i64
  mc_Allocated :: i64
  mc_Available :: i64

record ComputeCapacity =
  cc_Total :: i32
  cc_Allocated :: i32
  cc_Available :: i32

record ModelCapacityStatus =
  ms_Model :: string
  ms_Devices :: i32
  ms_Memory :: MemoryCapacity
  ms_Compute :: ComputeCapacity

record WorkloadCapacityStatus =
  wk_Provider :: string
  wk_Mode :: string
  wk_GPUDevices :: i32
  wk_Homogeneous :: bool
  wk_GPUMemory :: MemoryCapacity
  wk_GPUCompute :: "ComputeCapacity option"
  wk_ByModel :: "ModelCapacityStatus list"
  wk_LastObserved :: "gotime option"

record CellDeviceShape =
  sh_Model :: string
  sh_MemoryMiB :: i64
  sh_CorePercent :: i64
  sh_LastObserved :: "gotime option"

record DemandStatus =
  ds_PendingRequests :: i32
  ds_SatisfiableByOneCell :: i32
  ds_LastObserved :: "gotime option"

record Condition =
  cn_Type :: string
  cn_Status :: string
  cn_Reason :: string
  cn_Message :: string
  cn_ObservedGeneration :: i64
  cn_LastTransitionTime :: "gotime option"

record GPUCellPoolStatus =
  st_ObservedGeneration :: i64
  st_Replicas :: i32
  st_ReadyCells :: i32
  st_CreatingCells :: i32
  st_DrainingCells :: i32
  st_FailedCells :: i32
  st_DesiredReplicas :: i32
  st_Demand :: "DemandStatus option"
  st_CellDeviceShape :: "CellDeviceShape option"
  st_LastScaleUpTime :: "gotime option"
  st_LastScaleDownTime :: "gotime option"
  st_DemandFreeSince :: "gotime option"
  st_PhysicalCapacity :: "PhysicalCapacityStatus option"
  st_WorkloadCapacity :: "WorkloadCapacityStatus option"
  st_Cells :: "CellStatus list"
  st_Conditions :: "Condition list"

record GPUCellPool =
  po_Name :: string
  po_Namespace :: string
  po_UID :: string
  po_Generation :: i64
  po_DeletionTimestamp :: "gotime option"
  po_Finalizers :: "string list"
  po_Spec :: GPUCellPoolSpec
  po_Status :: GPUCellPoolStatus

section \<open>Ownership\<close>

record OwnerReference =
  or_APIVersion :: string
  or_Kind :: string
  or_Name :: string
  or_UID :: string
  or_Controller :: "bool option"
  or_BlockOwnerDeletion :: "bool option"

definition NewControllerRef :: "GPUCellPool \<Rightarrow> OwnerReference" where
  \<comment> \<open>\<^verbatim>\<open>metav1.NewControllerRef\<close> with the kind GPUCellPool\<close>
  "NewControllerRef pool = \<lparr>or_APIVersion = ''cells.kubeswift.io/v1alpha1'', or_Kind = ''GPUCellPool'',
     or_Name = po_Name pool, or_UID = po_UID pool, or_Controller = Some True, or_BlockOwnerDeletion = Some True\<rparr>"

section \<open>The order of the cell lifecycle\<close>

text \<open>
  The phases in the order \<^verbatim>\<open>gpucellpool_types.go\<close> declares them; the order is what "an earlier
  phase" means when a cell regresses.
\<close>

fun phase_rank :: "CellPhase \<Rightarrow> nat" where
  "phase_rank PhaseUnset = 0"
| "phase_rank CellPhasePending = 1"
| "phase_rank CellPhaseAllocatingGPU = 2"
| "phase_rank CellPhaseGuestProvisioning = 3"
| "phase_rank CellPhaseBooting = 4"
| "phase_rank CellPhaseJoining = 5"
| "phase_rank CellPhaseAwaitingGPUCapacity = 6"
| "phase_rank CellPhaseReady = 7"
| "phase_rank CellPhaseDraining = 8"
| "phase_rank CellPhaseDeleting = 9"
| "phase_rank CellPhaseFailed = 10"

lemma phase_rank_inj: "phase_rank p = phase_rank q \<Longrightarrow> p = q"
  by (cases p; cases q) simp_all

instantiation CellPhase :: linorder
begin

definition less_eq_CellPhase :: "CellPhase \<Rightarrow> CellPhase \<Rightarrow> bool" where
  "less_eq_CellPhase p q \<longleftrightarrow> phase_rank p \<le> phase_rank q"

definition less_CellPhase :: "CellPhase \<Rightarrow> CellPhase \<Rightarrow> bool" where
  "less_CellPhase p q \<longleftrightarrow> phase_rank p < phase_rank q"

instance
  by standard (auto simp: less_eq_CellPhase_def less_CellPhase_def dest: phase_rank_inj)

end

text \<open>A cell on its way out: teardown owns it.\<close>

fun phase_leaving :: "CellPhase \<Rightarrow> bool" where
  "phase_leaving CellPhaseDraining = True"
| "phase_leaving CellPhaseDeleting = True"
| "phase_leaving _ = False"

lemma phase_leaving_iff: "phase_leaving p \<longleftrightarrow> p = CellPhaseDraining \<or> p = CellPhaseDeleting"
  by (cases p) simp_all

end
