(* ===== verification/Json.thy ===== *)
theory Json
  imports Api
begin

text \<open>
  What the operator uses of Go's \<^verbatim>\<open>encoding/json\<close>: the syntax of a JSON text, the checks that the
  decoder makes on the way into a Go value, and the values \<^verbatim>\<open>map[string]any\<close> and
  \<^verbatim>\<open>map[string]json.RawMessage\<close>. Text is a list of bytes. A number keeps its literal; in a Go
  \<^verbatim>\<open>any\<close> it is a \<^verbatim>\<open>float64\<close>, which the operator never reads, and a literal beyond the range
  of \<^verbatim>\<open>float64\<close> is an error as in Go. Objects are association lists in the order of the text.
\<close>

datatype json =
    JNull | JBool bool | JNum string | JStr string | JArr "json list" | JObj "(string \<times> json) list"

section \<open>Letter case\<close>

definition lower :: "char \<Rightarrow> char" where
  "lower c = (let n = (of_char c :: nat) in if 65 \<le> n \<and> n \<le> 90 then char_of (n + 32) else c)"

text \<open>
  Unicode's simple folding as far as an ASCII text can meet it: the long s and the Kelvin sign
  fold to ASCII letters, and every other letter outside ASCII folds to something outside ASCII.
\<close>

fun fold_case :: "string \<Rightarrow> string" where
  "fold_case [] = []"
| "fold_case (a # s) =
     (case s of
        [] \<Rightarrow> [lower a]
      | b # t \<Rightarrow>
          if a = CHR 0xC5 \<and> b = CHR 0xBF then CHR ''s'' # fold_case t
          else if a = CHR 0xE2 \<and> take 2 s = [CHR 0x84, CHR 0xAA] then CHR ''k'' # fold_case (drop 2 s)
          else lower a # fold_case s)"

definition EqualFold :: "string \<Rightarrow> string \<Rightarrow> bool" where
  \<comment> \<open>\<^verbatim>\<open>strings.EqualFold\<close>, where one of the two is ASCII\<close>
  "EqualFold s t \<longleftrightarrow> fold_case s = fold_case t"

section \<open>The text\<close>

definition json_space :: "char \<Rightarrow> bool" where
  "json_space c \<longleftrightarrow> c \<in> {CHR '' '', CHR 0x09, CHR 0x0A, CHR 0x0D}"

definition skip :: "string \<Rightarrow> string" where
  "skip s = dropWhile json_space s"

definition syntax_error :: go_error where
  "syntax_error = Errorf ''invalid JSON syntax''"

definition type_error :: go_error where
  "type_error = Errorf ''json: cannot unmarshal value''"

subsection \<open>Strings\<close>

definition code :: "char \<Rightarrow> nat" where
  "code c = of_char c"

definition hex_val :: "char \<Rightarrow> nat option" where
  "hex_val c =
     (let n = code c in
      if 48 \<le> n \<and> n \<le> 57 then Some (n - 48)
      else if 65 \<le> n \<and> n \<le> 70 then Some (n - 55)
      else if 97 \<le> n \<and> n \<le> 102 then Some (n - 87) else None)"

fun hex4 :: "string \<Rightarrow> (nat \<times> string) option" where
  "hex4 (a # b # c # d # s) =
     (case (hex_val a, hex_val b, hex_val c, hex_val d) of
        (Some w, Some x, Some y, Some z) \<Rightarrow> Some (4096 * w + 256 * x + 16 * y + z, s)
      | _ \<Rightarrow> None)"
| "hex4 _ = None"

definition utf8 :: "nat \<Rightarrow> string" where
  "utf8 r =
     (if r < 128 then [char_of r]
      else if r < 2048 then [char_of (192 + r div 64), char_of (128 + r mod 64)]
      else if r < 65536 then [char_of (224 + r div 4096), char_of (128 + r div 64 mod 64), char_of (128 + r mod 64)]
      else [char_of (240 + r div 262144), char_of (128 + r div 4096 mod 64), char_of (128 + r div 64 mod 64),
            char_of (128 + r mod 64)])"

abbreviation replacement :: string where "replacement \<equiv> utf8 65533"

definition continuation :: "char \<Rightarrow> bool" where
  "continuation c \<longleftrightarrow> 128 \<le> code c \<and> code c < 192"

definition rune_len :: "string \<Rightarrow> nat" where
  \<comment> \<open>the width of the UTF-8 character a text starts with, 0 if it starts with none\<close>
  "rune_len s =
     (case s of
        a # b # t \<Rightarrow>
          (let x = code a; y = code b in
           if 194 \<le> x \<and> x < 224 \<and> continuation b then 2
           else case t of
             c # u \<Rightarrow>
               if 224 \<le> x \<and> x < 240 \<and> continuation b \<and> continuation c \<and> (x = 224 \<longrightarrow> 160 \<le> y) \<and> (x = 237 \<longrightarrow> y < 160)
               then 3
               else (case u of
                 d # _ \<Rightarrow>
                   if 240 \<le> x \<and> x < 245 \<and> continuation b \<and> continuation c \<and> continuation d \<and>
                      (x = 240 \<longrightarrow> 144 \<le> y) \<and> (x = 244 \<longrightarrow> y < 144)
                   then 4 else 0
               | [] \<Rightarrow> 0)
           | [] \<Rightarrow> 0)
      | _ \<Rightarrow> 0)"

definition simple_escape :: "char \<Rightarrow> char option" where
  "simple_escape c =
     map_of [(CHR 0x22, CHR 0x22), (CHR 0x5C, CHR 0x5C), (CHR ''/'', CHR ''/''), (CHR ''b'', CHR 0x08),
             (CHR ''f'', CHR 0x0C), (CHR ''n'', CHR 0x0A), (CHR ''r'', CHR 0x0D), (CHR ''t'', CHR 0x09)] c"

text \<open>
  The rest of a string after its opening quote. A lone surrogate and a byte that is not UTF-8 read
  as the replacement character; a raw control character is an error.
\<close>

definition unicode_escape :: "nat \<Rightarrow> string \<Rightarrow> string \<times> string" where
  \<comment> \<open>the character of an escape with code \<open>r\<close>, and the text after it\<close>
  "unicode_escape r s =
     (if 55296 \<le> r \<and> r < 57344
      then (case (if take 2 s = [CHR 0x5C, CHR ''u''] then hex4 (drop 2 s) else None) of
              Some (r2, t) \<Rightarrow>
                if r < 56320 \<and> 56320 \<le> r2 \<and> r2 < 57344
                then (utf8 (65536 + 1024 * (r - 55296) + (r2 - 56320)), t) else (replacement, s)
            | None \<Rightarrow> (replacement, s))
      else (utf8 r, s))"

lemma hex4_shorter: "hex4 s = Some (n, t) \<Longrightarrow> length t < length s"
  by (induction s rule: hex4.induct) (auto split: option.splits)

lemma unicode_escape_shorter: "unicode_escape r s = (u, t) \<Longrightarrow> length t \<le> length s"
  by (auto simp: unicode_escape_def split: if_splits option.splits dest!: hex4_shorter)

fun string_rest :: "string \<Rightarrow> (string \<times> string) option" where
  "string_rest [] = None"
| "string_rest (c # s) =
     (if c = CHR 0x22 then Some ([], s)
      else if code c < 32 then None
      else if c = CHR 0x5C then
        (case s of
           [] \<Rightarrow> None
         | e # t \<Rightarrow>
             if e = CHR ''u'' then
               (case hex4 t of
                  None \<Rightarrow> None
                | Some (r, t1) \<Rightarrow>
                    (let ut = unicode_escape r t1
                     in if length (snd ut) < length (c # s)
                        then map_option (\<lambda>(x, y). (fst ut @ x, y)) (string_rest (snd ut)) else None))
             else (case simple_escape e of
                     None \<Rightarrow> None
                   | Some d \<Rightarrow> map_option (\<lambda>(x, y). (d # x, y)) (string_rest t)))
      else if code c < 128 then map_option (\<lambda>(x, y). (c # x, y)) (string_rest s)
      else let n = rune_len (c # s)
           in if n = 0 then map_option (\<lambda>(x, y). (replacement @ x, y)) (string_rest s)
              else map_option (\<lambda>(x, y). (c # take (n - 1) s @ x, y)) (string_rest (drop (n - 1) s)))"

subsection \<open>Numbers\<close>

definition span_digits :: "string \<Rightarrow> string \<times> string" where
  "span_digits s = (takeWhile is_digit s, dropWhile is_digit s)"

definition int_part :: "string \<Rightarrow> (string \<times> string) option" where
  "int_part s =
     (case s of
        [] \<Rightarrow> None
      | c # t \<Rightarrow> if c = CHR ''0'' then Some ([c], t)
                 else if is_digit c then Some (span_digits s) else None)"

definition frac_part :: "string \<Rightarrow> (string \<times> string) option" where
  "frac_part s =
     (case s of
        c # t \<Rightarrow> if c = CHR ''.'' then let (ds, u) = span_digits t in if ds = [] then None else Some (c # ds, u)
                 else Some ([], s)
      | [] \<Rightarrow> Some ([], s))"

definition exp_part :: "string \<Rightarrow> (string \<times> string) option" where
  "exp_part s =
     (case s of
        c # t \<Rightarrow>
          if c = CHR ''e'' \<or> c = CHR ''E'' then
            (let (sign, u) = (case t of d # v \<Rightarrow> if d = CHR ''+'' \<or> d = CHR ''-'' then ([d], v) else ([], t) | [] \<Rightarrow> ([], t));
                 (ds, w) = span_digits u
             in if ds = [] then None else Some (c # sign @ ds, w))
          else Some ([], s)
      | [] \<Rightarrow> Some ([], s))"

definition number :: "string \<Rightarrow> (string \<times> string) option" where
  "number s =
     (let (sign, s1) = (case s of c # t \<Rightarrow> if c = CHR ''-'' then ([c], t) else ([], s) | [] \<Rightarrow> ([], s)) in
      case int_part s1 of None \<Rightarrow> None | Some (i, s2) \<Rightarrow>
      case frac_part s2 of None \<Rightarrow> None | Some (f, s3) \<Rightarrow>
      case exp_part s3 of None \<Rightarrow> None | Some (e, s4) \<Rightarrow> Some (sign @ i @ f @ e, s4))"

text \<open>
  A literal too large for \<^verbatim>\<open>float64\<close>: its magnitude reaches the midpoint between the largest
  finite value and the next power of two, from where rounding overflows.
\<close>

definition float_overflows :: "string \<Rightarrow> bool" where
  "float_overflows lit =
     (let s = (case lit of c # t \<Rightarrow> if c = CHR ''-'' then t else lit | [] \<Rightarrow> []);
          (i, r1) = span_digits s;
          (f, r2) = (case r1 of c # t \<Rightarrow> if c = CHR ''.'' then span_digits t else ([], r1) | [] \<Rightarrow> ([], []));
          (neg, ds) = (case r2 of
              c # t \<Rightarrow> (case t of d # u \<Rightarrow> if d = CHR ''-'' then (True, u) else if d = CHR ''+'' then (False, u) else (False, t)
                        | [] \<Rightarrow> (False, []))
            | [] \<Rightarrow> (False, []));
          e = (if neg then - int (digits_val ds) else int (digits_val ds)) - int (length f);
          m = int (digits_val (i @ f)); bound = 2 ^ 1024 - 2 ^ 970
      in m \<noteq> 0 \<and> (if 0 \<le> e then bound \<le> m * 10 ^ nat e else bound * 10 ^ nat (- e) \<le> m))"

subsection \<open>Values\<close>

text \<open>
  A value, the elements of an array after its opening bracket, and the members of an object after
  its opening brace, each with the text that follows. \<open>d\<close> is the nesting depth, which Go limits to
  10000. Every recursive call is on a shorter text; the tests that say so are there for the
  termination order only.
\<close>

abbreviation maxNestingDepth :: nat where "maxNestingDepth \<equiv> 10000"

function (sequential) parse_value :: "nat \<Rightarrow> string \<Rightarrow> (json \<times> string) option"
  and elements :: "nat \<Rightarrow> string \<Rightarrow> (json list \<times> string) option"
  and members :: "nat \<Rightarrow> string \<Rightarrow> ((string \<times> json) list \<times> string) option" where
  "parse_value d s0 =
     (case skip s0 of
        [] \<Rightarrow> None
      | c # s \<Rightarrow>
          if \<not> length s < length s0 then None
          else if c = CHR ''{'' then
            (if maxNestingDepth \<le> d then None
             else case skip s of
               [] \<Rightarrow> None
             | e # t \<Rightarrow> if e = CHR ''}'' then Some (JObj [], t)
                        else map_option (\<lambda>(kvs, r). (JObj kvs, r)) (members (Suc d) s))
          else if c = CHR ''['' then
            (if maxNestingDepth \<le> d then None
             else case skip s of
               [] \<Rightarrow> None
             | e # t \<Rightarrow> if e = CHR '']'' then Some (JArr [], t)
                        else map_option (\<lambda>(vs, r). (JArr vs, r)) (elements (Suc d) s))
          else if c = CHR 0x22 then map_option (\<lambda>(x, r). (JStr x, r)) (string_rest s)
          else if c = CHR ''t'' then (if take 3 s = ''rue'' then Some (JBool True, drop 3 s) else None)
          else if c = CHR ''f'' then (if take 4 s = ''alse'' then Some (JBool False, drop 4 s) else None)
          else if c = CHR ''n'' then (if take 3 s = ''ull'' then Some (JNull, drop 3 s) else None)
          else map_option (\<lambda>(lit, r). (JNum lit, r)) (number (c # s)))"
| "elements d s0 =
     (case parse_value d s0 of
        None \<Rightarrow> None
      | Some (v, r) \<Rightarrow>
          (case skip r of
             [] \<Rightarrow> None
           | c # t \<Rightarrow>
               if c = CHR '']'' then Some ([v], t)
               else if c = CHR '','' \<and> length t < length s0
                 then map_option (\<lambda>(vs, u). (v # vs, u)) (elements d t) else None))"
| "members d s0 =
     (case skip s0 of
        [] \<Rightarrow> None
      | q # s \<Rightarrow>
          if q \<noteq> CHR 0x22 then None
          else case string_rest s of
            None \<Rightarrow> None
          | Some (k, r) \<Rightarrow>
              (case skip r of
                 [] \<Rightarrow> None
               | c # t \<Rightarrow>
                   if c \<noteq> CHR '':'' \<or> \<not> length t < length s0 then None
                   else case parse_value d t of
                     None \<Rightarrow> None
                   | Some (v, u) \<Rightarrow>
                       (case skip u of
                          [] \<Rightarrow> None
                        | e # w \<Rightarrow>
                            if e = CHR ''}'' then Some ([(k, v)], w)
                            else if e = CHR '','' \<and> length w < length s0
                              then map_option (\<lambda>(kvs, z). ((k, v) # kvs, z)) (members d w) else None)))"
  by pat_completeness auto

termination
  by (relation "measure (\<lambda>x. case x of Inl (d, s) \<Rightarrow> 2 * length s
        | Inr (Inl (d, s)) \<Rightarrow> 2 * length s + 1 | Inr (Inr (d, s)) \<Rightarrow> 2 * length s + 1)") auto

declare parse_value.simps [simp del] elements.simps [simp del] members.simps [simp del]

definition parse_json :: "string \<Rightarrow> json result" where
  "parse_json s =
     (case parse_value 0 s of
        None \<Rightarrow> Inl syntax_error
      | Some (v, r) \<Rightarrow> if skip r = [] then Inr v else Inl syntax_error)"

section \<open>Values of Go types\<close>

fun decode_string :: "json \<Rightarrow> string option result" where
  "decode_string JNull = Inr None"
| "decode_string (JStr s) = Inr (Some s)"
| "decode_string _ = Inl type_error"

fun decode_bool :: "json \<Rightarrow> bool option result" where
  "decode_bool JNull = Inr None"
| "decode_bool (JBool b) = Inr (Some b)"
| "decode_bool _ = Inl type_error"

fun decode_int64 :: "json \<Rightarrow> i64 option result" where
  "decode_int64 JNull = Inr None"
| "decode_int64 (JNum lit) =
     (case ParseInt 64 lit of Inl e \<Rightarrow> Inl type_error | Inr n \<Rightarrow> Inr (Some n))"
| "decode_int64 _ = Inl type_error"

text \<open>A \<^verbatim>\<open>map[string]any\<close>: one entry per key, the last one of the text.\<close>

type_synonym any_map = "(string \<times> json) list"

definition last_wins :: "(string \<times> 'a) list \<Rightarrow> (string \<times> 'a) list" where
  "last_wins kvs = foldl (\<lambda>m kv. AList.update (fst kv) (snd kv) m) [] kvs"

primrec any_of :: "json \<Rightarrow> json" where
  "any_of JNull = JNull"
| "any_of (JBool b) = JBool b"
| "any_of (JNum lit) = JNum lit"
| "any_of (JStr s) = JStr s"
| "any_of (JArr vs) = JArr (map any_of vs)"
| "any_of (JObj kvs) = JObj (last_wins (map (map_prod id any_of) kvs))"

primrec numbers_fit :: "json \<Rightarrow> bool" where
  "numbers_fit JNull = True"
| "numbers_fit (JBool b) = True"
| "numbers_fit (JNum lit) = (\<not> float_overflows lit)"
| "numbers_fit (JStr s) = True"
| "numbers_fit (JArr vs) = list_all id (map numbers_fit vs)"
| "numbers_fit (JObj kvs) = list_all snd (map (map_prod id numbers_fit) kvs)"

fun decode_any_map :: "json \<Rightarrow> any_map result" where
  "decode_any_map JNull = Inr []"
| "decode_any_map (JObj kvs) =
     (if numbers_fit (JObj kvs) then Inr (last_wins (map (map_prod id any_of) kvs)) else Inl type_error)"
| "decode_any_map _ = Inl type_error"

fun decode_raw_map :: "json \<Rightarrow> any_map result" where
  \<comment> \<open>\<^verbatim>\<open>map[string]json.RawMessage\<close>: the values are not looked at\<close>
  "decode_raw_map JNull = Inr []"
| "decode_raw_map (JObj kvs) = Inr (last_wins kvs)"
| "decode_raw_map _ = Inl type_error"

definition Unmarshal :: "(json \<Rightarrow> 'a result) \<Rightarrow> string \<Rightarrow> 'a result" where
  "Unmarshal decode raw = (case parse_json raw of Inl e \<Rightarrow> Inl e | Inr v \<Rightarrow> decode v)"

lemma map_of_last_wins: "map_of (last_wins kvs) k = map_of (rev kvs) k"
proof -
  have "map_of (foldl (\<lambda>m kv. AList.update (fst kv) (snd kv) m) m kvs) k = (map_of m ++ map_of (rev kvs)) k" for m
    by (induction kvs arbitrary: m) (auto simp: update_conv' map_add_def split: option.splits)
  from this [of "[]"] show ?thesis by (simp add: last_wins_def)
qed

lemma last_wins_keys: "fst ` set (last_wins kvs) = fst ` set kvs"
  using map_of_last_wins [of kvs] by (metis dom_map_of_conv_image_fst fun_upd_apply set_rev ext)

lemma distinct_last_wins: "distinct (map fst (last_wins kvs))"
proof -
  have "distinct (map fst (foldl (\<lambda>m kv. AList.update (fst kv) (snd kv) m) m kvs))"
    if "distinct (map fst m)" for m
    using that by (induction kvs arbitrary: m) (simp_all add: distinct_update)
  from this [of "[]"] show ?thesis by (simp add: last_wins_def)
qed

end
