(* ===== verification/Objects.thy ===== *)
theory Objects
  imports Json
begin

text \<open>
  Objects of the infrastructure cluster as the provisioners see them, \<^verbatim>\<open>unstructured.Unstructured\<close>:
  metadata, and the rest of the object as a \<^verbatim>\<open>map[string]any\<close>. The readers along a path are
  apimachinery's, as it documents them; every caller drops their error, so a value that is absent
  and one of another type read the same.
\<close>

record GroupVersionKind =
  gk_Group :: string
  gk_Version :: string
  gk_Kind :: string

record Unstructured =
  un_GVK :: GroupVersionKind
  un_Namespace :: string
  un_Name :: string
  un_UID :: string
  un_Labels :: smap
  un_Annotations :: smap
  un_OwnerReferences :: "OwnerReference list"
  un_Finalizers :: "string list"
  un_CreationTimestamp :: "gotime option"
  un_DeletionTimestamp :: "gotime option"
  un_Object :: any_map

definition newUnstructured :: "GroupVersionKind \<Rightarrow> Unstructured" where
  "newUnstructured gvk = \<lparr>un_GVK = gvk, un_Namespace = [], un_Name = [], un_UID = [], un_Labels = [],
     un_Annotations = [], un_OwnerReferences = [], un_Finalizers = [], un_CreationTimestamp = None,
     un_DeletionTimestamp = None, un_Object = []\<rparr>"

fun nested :: "any_map \<Rightarrow> string list \<Rightarrow> json option" where
  "nested m [] = Some (JObj m)"
| "nested m [k] = map_of m k"
| "nested m (k # l # ks) = (case map_of m k of Some (JObj m') \<Rightarrow> nested m' (l # ks) | _ \<Rightarrow> None)"

fun as_string :: "json option \<Rightarrow> string" where
  \<comment> \<open>the assertion \<^verbatim>\<open>v.(string)\<close> with its \<^verbatim>\<open>ok\<close> dropped\<close>
  "as_string (Some (JStr s)) = s"
| "as_string _ = []"

definition NestedString :: "any_map \<Rightarrow> string list \<Rightarrow> string" where
  "NestedString m path = as_string (nested m path)"

definition NestedSlice :: "any_map \<Rightarrow> string list \<Rightarrow> json list option" where
  "NestedSlice m path = (case nested m path of Some (JArr vs) \<Rightarrow> Some vs | _ \<Rightarrow> None)"

fun strings_of :: "json list \<Rightarrow> string list option" where
  "strings_of [] = Some []"
| "strings_of (JStr s # vs) = map_option ((#) s) (strings_of vs)"
| "strings_of (_ # vs) = None"

definition NestedStringSlice :: "any_map \<Rightarrow> string list \<Rightarrow> string list option" where
  "NestedStringSlice m path = (case NestedSlice m path of Some vs \<Rightarrow> strings_of vs | None \<Rightarrow> None)"

definition NestedMap :: "any_map \<Rightarrow> string list \<Rightarrow> any_map option" where
  "NestedMap m path = (case nested m path of Some (JObj m') \<Rightarrow> Some m' | _ \<Rightarrow> None)"

end
