(* ===== verification/Provisioner.thy ===== *)
theory Provisioner
  imports Api
begin

text \<open>
  The data that crosses the provisioner seam (\<^verbatim>\<open>internal/provisioner/provisioner.go\<close>): what a
  provisioner is asked for and what it reports of a cell's outer objects.
\<close>

record GPUBinding =
  gb_Backend :: string
  gb_ResourceClaimTemplateName :: string
  gb_ResourceClaimName :: string
  gb_RequestName :: string
  gb_Tier :: string
  gb_Hugepages :: string
  gb_GPUProfileName :: string

record CellRequest =
  cr_Pool :: string
  cr_Namespace :: string
  cr_Index :: i32
  cr_CellName :: string
  cr_GuestTemplate :: string
  cr_GPU :: GPUBinding
  cr_BootstrapSecretName :: string
  cr_BootstrapSecretKey :: string
  cr_Hostname :: string
  cr_NodeIPFrom :: string
  cr_SpreadPolicy :: string
  cr_ClusterAPI :: "CellClusterAPISpec option"
  cr_TemplateHash :: string
  cr_OwnerRefs :: "OwnerReference list"

record OuterState =
  os_Exists :: bool
  os_Phase :: string
  os_Provisioned :: bool
  os_Failed :: bool
  os_Reason :: string
  os_Message :: string
  os_GPUDevices :: "string list"
  os_HostNode :: string
  os_Address :: string
  os_RoutableAddress :: string
  os_CreatedAt :: "gotime option"
  os_UID :: string
  os_TemplateHash :: string

definition zero_OuterState :: OuterState where
  "zero_OuterState = \<lparr>os_Exists = False, os_Phase = [], os_Provisioned = False, os_Failed = False,
     os_Reason = [], os_Message = [], os_GPUDevices = [], os_HostNode = [], os_Address = [],
     os_RoutableAddress = [], os_CreatedAt = None, os_UID = [], os_TemplateHash = []\<rparr>"

end
