(* ===== verification/CellId.thy ===== *)
theory CellId
  imports Api
begin

text \<open>
  Package \<^verbatim>\<open>internal/cellid\<close>: cell names, index allocation and cross-cluster identity. The
  contracts its clients rely on are the locales \<open>index_allocator\<close> (what the membership planner
  needs of \<open>LowestFreeIndex\<close>) and \<open>victim_order\<close> (what scale-down needs of \<open>HighestIndexes\<close>),
  each interpreted on the model of the code. \<^verbatim>\<open>validation.IsDNS1123Subdomain\<close> and
  the SHA-256 of the standard library are parameters.
\<close>

section \<open>Names\<close>

abbreviation maxIndexDigits :: nat where "maxIndexDigits \<equiv> 5"
abbreviation hostnameMaxLen :: nat where "hostnameMaxLen \<equiv> 63"

definition Name :: "string \<Rightarrow> i32 \<Rightarrow> string" where
  "Name pool index = pool @ ''-'' @ FormatInt index"

definition SeedName :: "string \<Rightarrow> string" where
  "SeedName cell = cell @ ''-seed''"

definition BootstrapSecretName :: "string \<Rightarrow> string" where
  "BootstrapSecretName cell = cell @ ''-bootstrap''"

datatype pool_name_error = NotDNSSubdomain string "string list" | PoolNameTooLong string nat

definition ValidatePool :: "(string \<Rightarrow> string list) \<Rightarrow> string \<Rightarrow> pool_name_error option" where
  "ValidatePool isDNS1123Subdomain pool =
     (let errs = isDNS1123Subdomain pool; got = length pool + 1 + maxIndexDigits
      in if errs \<noteq> [] then Some (NotDNSSubdomain pool errs)
         else if got > hostnameMaxLen then Some (PoolNameTooLong pool got)
         else None)"

fun pool_name_text :: "pool_name_error \<Rightarrow> string" where
  "pool_name_text (NotDNSSubdomain pool errs) =
     ''pool name '' @ go_quote pool @ '' is not a valid DNS subdomain: '' @ join ''; '' errs"
| "pool_name_text (PoolNameTooLong pool got) =
     ''pool name '' @ go_quote pool @ '' is too long: a cell name may be up to '' @ FormatInt (int got) @
     '' characters (pool + '' @ go_quote ''-'' @ '' + index) but the hostname limit is '' @
     FormatInt (int hostnameMaxLen) @ '' '' @ em_dash @ '' shorten the pool name to at most '' @
     FormatInt (int (hostnameMaxLen - 1 - maxIndexDigits)) @ '' characters''"

datatype index_error = ForeignCell | NoNumericSuffix | IndexOutOfRange

definition ParseIndex :: "string \<Rightarrow> string \<Rightarrow> index_error + i32" where
  "ParseIndex pool cell =
     (let pre = pool @ ''-'' in
      if \<not> HasPrefix cell pre then Inl ForeignCell
      else
        (let suffix = drop (length pre) cell in
         if suffix = [] \<or> list_ex (\<lambda>r. \<not> is_digit r) suffix then Inl NoNumericSuffix
         else (case ParseInt 32 suffix of Inl e \<Rightarrow> Inl IndexOutOfRange | Inr n \<Rightarrow> Inr n)))"

section \<open>Index allocation\<close>

text \<open>
  \<^verbatim>\<open>LowestFreeIndex\<close> counts up from 0 until it meets an index that is not in use. Fuel
  \<open>length used\<close> is enough: that many increments pass that many distinct indexes in use, so the
  next one is free (\<open>LowestFreeIndex_fresh\<close>).
\<close>

fun lowest_loop :: "nat \<Rightarrow> i32 list \<Rightarrow> i32 \<Rightarrow> i32" where
  "lowest_loop 0 used i = i"
| "lowest_loop (Suc n) used i =
     (if i \<in> set used then lowest_loop n used (wrap32 (i + 1)) else i)"

definition LowestFreeIndex :: "i32 list \<Rightarrow> i32" where
  "LowestFreeIndex used = lowest_loop (length used) used 0"

definition HighestIndexes :: "i32 list \<Rightarrow> goint \<Rightarrow> i32 list" where
  "HighestIndexes used n =
     (let desc = rev (sort used);
          c1 = (if n > int (length desc) then int (length desc) else n);
          c2 = (if c1 < 0 then 0 else c1)
      in take (nat c2) desc)"

section \<open>Identity labels\<close>

definition GuestLabels :: "string \<Rightarrow> i32 \<Rightarrow> smap" where
  "GuestLabels pool index =
     [(LabelPool, pool), (LabelCell, Name pool index), (LabelCellIndex, FormatInt index)]"

definition PoolSelector :: "string \<Rightarrow> smap \<Rightarrow> bool" where
  "PoolSelector pool labels \<longleftrightarrow> map_of labels LabelPool = Some pool"

definition NodeLabels :: "string \<Rightarrow> i32 \<Rightarrow> string \<Rightarrow> smap \<Rightarrow> smap" where
  "NodeLabels pool index inst extra =
     (let out1 = AList.update LabelPool pool extra;
          out2 = AList.update LabelCell (Name pool index) out1;
          out3 = AList.update LabelCellIndex (FormatInt index) out2
      in if inst \<noteq> [] then AList.update LabelInstance inst out3 else out3)"

definition IsStaleNode :: "smap \<Rightarrow> string \<Rightarrow> bool" where
  "IsStaleNode nodeLabels wantInstance =
     (case map_of nodeLabels LabelInstance of
        None \<Rightarrow> False
      | Some got \<Rightarrow> if got = [] \<or> wantInstance = [] then False else got \<noteq> wantInstance)"

text \<open>The bytes \<^verbatim>\<open>TemplateHash\<close> feeds to SHA-256: every part under its length.\<close>

definition hash_stream :: "string list \<Rightarrow> string" where
  "hash_stream parts = concat (map (\<lambda>p. FormatInt (int (length p)) @ '':'' @ p) parts)"

definition TemplateHash :: "(string \<Rightarrow> string) \<Rightarrow> string list \<Rightarrow> string" where
  \<comment> \<open>\<open>sha256hex\<close> is the hexadecimal digest\<close>
  "TemplateHash sha256hex parts = take 10 (sha256hex (hash_stream parts))"

section \<open>Interfaces\<close>

text \<open>
  What the membership planner relies on: a fresh index, never negative, with every lower one in
  use. Index sets of \<open>2 ^ 31\<close> cells or more are out of contract.
\<close>

locale index_allocator =
  fixes lowest :: "i32 list \<Rightarrow> i32"
  assumes lowest_fresh: "length used < 2147483648 \<Longrightarrow> lowest used \<notin> set used"
    and lowest_nonneg: "length used < 2147483648 \<Longrightarrow> 0 \<le> lowest used"
    and lowest_bound: "length used < 2147483648 \<Longrightarrow> lowest used \<le> int (length used)"
    and lowest_least:
      "length used < 2147483648 \<Longrightarrow> 0 \<le> i \<Longrightarrow> i < lowest used \<Longrightarrow> i \<in> set used"

text \<open>What scale-down relies on: all candidates, each once, highest first.\<close>

locale victim_order =
  fixes highest :: "i32 list \<Rightarrow> goint \<Rightarrow> i32 list"
  assumes highest_all: "mset (highest used (int (length used))) = mset used"
    and highest_sorted: "sorted_wrt (\<ge>) (highest used n)"
    and highest_length: "0 \<le> n \<Longrightarrow> length (highest used n) = min (nat n) (length used)"
begin

lemma set_highest: "set (highest used (int (length used))) = set used"
  using highest_all by (metis set_mset_mset)

lemma highest_sort: "highest used (int (length used)) = rev (sort used)"
proof -
  have "sorted (rev (highest used (int (length used))))"
    using highest_sorted by (simp add: sorted_wrt_rev)
  then have "sort used = rev (highest used (int (length used)))"
    using highest_all [of used] by (intro properties_for_sort) simp_all
  then show ?thesis by simp
qed

end

section \<open>Facts on names\<close>

lemma Name_inj_index: "Name pool i = Name pool j \<Longrightarrow> i = j"
  by (auto simp: Name_def dest: FormatInt_inj)

lemma ParseIndex_Name_nonneg:
  assumes "0 \<le> i" and "i < 2147483648"
  shows "ParseIndex pool (Name pool i) = Inr i"
proof -
  have ds: "FormatInt i = digits (nat i)"
    using assms by (simp add: FormatInt_def)
  have "\<not> list_ex (\<lambda>r. \<not> is_digit r) (digits (nat i))"
    using digits_are_digits [of "nat i"] by (induction "digits (nat i)") (auto simp: list_ex_iff list_all_iff)
  moreover have "ParseInt 32 (digits (nat i)) = Inr i"
    using assms ParseInt_digits [of "nat i" 32] by simp
  ultimately show ?thesis
    by (simp add: ParseIndex_def Name_def HasPrefix_def Let_def ds)
qed

section \<open>Facts on index allocation\<close>

lemma lowest_loop_spec:
  assumes "{0..<i} \<subseteq> set used" and "0 \<le> i" and "i + int n < 2147483648"
  shows "i \<le> lowest_loop n used i \<and> lowest_loop n used i \<le> i + int n \<and>
         {0..<lowest_loop n used i} \<subseteq> set used \<and>
         (lowest_loop n used i \<notin> set used \<or> lowest_loop n used i = i + int n)"
  using assms
proof (induction n arbitrary: i)
  case (Suc n)
  show ?case
  proof (cases "i \<in> set used")
    case True
    have w: "wrap32 (i + 1) = i + 1"
      using Suc.prems by (simp add: wrap32_id in_i32_def)
    have "{0..<i + 1} \<subseteq> set used"
    proof
      fix x assume "x \<in> {0..<i + 1}"
      then have "x = i \<or> x \<in> {0..<i}" by auto
      with True Suc.prems(1) show "x \<in> set used" by auto
    qed
    with Suc.IH [of "i + 1"] Suc.prems True w show ?thesis by auto
  next
    case False
    with Suc.prems show ?thesis by simp
  qed
qed simp

lemma LowestFreeIndex_spec:
  assumes "length used < 2147483648"
  shows "LowestFreeIndex used \<notin> set used \<and> 0 \<le> LowestFreeIndex used \<and>
         LowestFreeIndex used \<le> int (length used) \<and>
         {0..<LowestFreeIndex used} \<subseteq> set used"
proof -
  let ?r = "LowestFreeIndex used"
  have r: "0 \<le> ?r" "?r \<le> int (length used)" "{0..<?r} \<subseteq> set used"
    and cases: "?r \<notin> set used \<or> ?r = int (length used)"
    using lowest_loop_spec [of 0 used "length used"] assms by (auto simp: LowestFreeIndex_def)
  have "?r \<notin> set used"
  proof
    assume used: "?r \<in> set used"
    with cases have full: "?r = int (length used)" by blast
    have "{0..?r} \<subseteq> set used"
    proof
      fix x assume "x \<in> {0..?r}"
      then have "x = ?r \<or> x \<in> {0..<?r}" by auto
      with used r(3) show "x \<in> set used" by auto
    qed
    then have "card {0..?r} \<le> card (set used)" by (rule card_mono [OF finite_set])
    also have "\<dots> \<le> length used" by (rule card_length)
    finally show False using full by simp
  qed
  with r show ?thesis by blast
qed

interpretation lfi: index_allocator LowestFreeIndex
proof
  fix used :: "i32 list" and i :: i32
  assume "length used < 2147483648"
  note spec = LowestFreeIndex_spec [OF this]
  show "LowestFreeIndex used \<notin> set used" "0 \<le> LowestFreeIndex used"
    "LowestFreeIndex used \<le> int (length used)"
    using spec by auto
  show "i \<in> set used" if "0 \<le> i" "i < LowestFreeIndex used"
    using spec that by auto
qed

interpretation hi: victim_order HighestIndexes
proof
  fix used :: "i32 list" and n :: int
  show "mset (HighestIndexes used (int (length used))) = mset used"
    by (simp add: HighestIndexes_def Let_def)
  have "sorted_wrt (\<ge>) (rev (sort used))"
    by (simp add: sorted_wrt_rev)
  then show "sorted_wrt (\<ge>) (HighestIndexes used n)"
    by (simp add: HighestIndexes_def Let_def sorted_wrt_take)
  show "0 \<le> n \<Longrightarrow> length (HighestIndexes used n) = min (nat n) (length used)"
    by (auto simp: HighestIndexes_def Let_def)
qed

section \<open>Facts on labels and hashes\<close>

lemma map_of_NodeLabels:
  "map_of (NodeLabels pool index inst extra) k =
     (if k = LabelInstance \<and> inst \<noteq> [] then Some inst
      else if k = LabelCellIndex then Some (FormatInt index)
      else if k = LabelCell then Some (Name pool index)
      else if k = LabelPool then Some pool
      else map_of extra k)"
  by (simp add: NodeLabels_def Let_def update_conv)

lemma digits_colon_split:
  assumes "digits m @ CHR '':'' # x = digits n @ CHR '':'' # y"
  shows "m = n \<and> x = y"
proof -
  have nc: "CHR '':'' \<notin> set (digits k)" for k
    using digits_are_digits [of k] by (auto simp: list_all_iff is_digit_def)
  have "split_on (CHR '':'') (digits m @ CHR '':'' # x) = digits m # split_on (CHR '':'') x"
    "split_on (CHR '':'') (digits n @ CHR '':'' # y) = digits n # split_on (CHR '':'') y"
    using nc by (simp_all add: split_on_append_sep)
  with assms have "digits m = digits n" by (metis list.inject)
  with assms digits_inj show ?thesis by auto
qed

lemma hash_stream_Cons:
  "hash_stream (p # ps) = digits (length p) @ CHR '':'' # p @ hash_stream ps"
  by (simp add: hash_stream_def FormatInt_def)

section \<open>Properties\<close>

text \<open>
  A cell name determines its index: parsing the name of the cell with index \<open>i\<close> of a pool
  returns exactly \<open>i\<close>, for every non-negative \<^verbatim>\<open>int32\<close>.
\<close>

theorem ParseIndex_Name:
  assumes "0 \<le> i" and "in_i32 i"
  shows "ParseIndex pool (Name pool i) = Inr i"
  using assms by (intro ParseIndex_Name_nonneg) (simp_all add: in_i32_def)

theorem ParseIndex_Name_witness:
  "ParseIndex ''inference'' (Name ''inference'' 42) = Inr 42"
  by (rule ParseIndex_Name) (simp_all add: in_i32_def)

text \<open>
  Only names of the form pool, dash, decimal digits are taken for cells of the pool, and the
  index read off is a non-negative \<^verbatim>\<open>int32\<close>.
\<close>

theorem ParseIndex_sound:
  assumes "ParseIndex pool cell = Inr i"
  shows "\<exists>ds. cell = pool @ ''-'' @ ds \<and> ds \<noteq> [] \<and> list_all is_digit ds \<and>
              i = int (digits_val ds) \<and> in_i32 i"
proof -
  let ?ds = "drop (length pool + 1) cell"
  have pre: "prefix (pool @ ''-'') cell" and ne: "?ds \<noteq> []" and ds: "list_all is_digit ?ds"
    and p: "ParseInt 32 ?ds = Inr i"
    using assms
    by (auto simp: ParseIndex_def Let_def HasPrefix_def list_ex_iff list_all_iff
        split: if_splits sum.splits)
  have cell: "cell = pool @ ''-'' @ ?ds"
    using pre by (auto simp: prefix_def)
  obtain c cs where c: "?ds = c # cs" using ne by (cases ?ds) auto
  with ds have "is_digit c" by simp
  then have "c \<noteq> CHR ''+''" "c \<noteq> CHR ''-''" by auto
  with p c ds have "i = int (digits_val ?ds)" "in_i32 i"
    by (auto simp: ParseInt_def ParseUint_def in_i32_def Let_def split: if_splits)
  with cell ne ds show ?thesis by blast
qed

theorem ParseIndex_sound_witness:
  "\<exists>ds. ''inference-7'' = ''inference'' @ ''-'' @ ds \<and> ds \<noteq> [] \<and> list_all is_digit ds \<and>
        7 = int (digits_val ds) \<and> in_i32 7"
  by (rule ParseIndex_sound) (code_simp)

text \<open>
  C40. \<^verbatim>\<open>LowestFreeIndex\<close> returns (it never runs out of candidates), and returns the least
  non-negative index that is not in use.
\<close>

theorem LowestFreeIndex_fresh:
  assumes "length used < 2147483648"
  shows "LowestFreeIndex used \<notin> set used \<and> 0 \<le> LowestFreeIndex used \<and>
         (\<forall>i. 0 \<le> i \<and> i < LowestFreeIndex used \<longrightarrow> i \<in> set used)"
  using assms lfi.lowest_fresh lfi.lowest_nonneg lfi.lowest_least by blast

theorem LowestFreeIndex_fresh_witness:
  "LowestFreeIndex [0, 1, 3] \<notin> set [0, 1, 3] \<and> 0 \<le> LowestFreeIndex [0, 1, 3] \<and>
   LowestFreeIndex [0, 1, 3] = 2"
  using LowestFreeIndex_fresh [of "[0, 1, 3]"] by (simp add: LowestFreeIndex_def wrap32_def)

text \<open>
  Identity is not negotiable: whatever labels the user declares, the Node labels carry the
  pool, the cell name and the index of the cell, and the instance whenever one is given.
\<close>

theorem NodeLabels_identity:
  "map_of (NodeLabels pool index inst extra) LabelPool = Some pool \<and>
   map_of (NodeLabels pool index inst extra) LabelCell = Some (Name pool index) \<and>
   map_of (NodeLabels pool index inst extra) LabelCellIndex = Some (FormatInt index) \<and>
   map_of (NodeLabels pool index inst extra) LabelInstance =
     (if inst = [] then map_of extra LabelInstance else Some inst) \<and>
   PoolSelector pool (NodeLabels pool index inst extra)"
  by (simp add: map_of_NodeLabels PoolSelector_def)

text \<open>
  The byte stream hashed for a template is uniquely readable: two lists of parts with the
  same stream are the same list, so a template change can only be missed by a collision of the
  (truncated) SHA-256 digest itself.
\<close>

theorem hash_stream_inj:
  assumes "hash_stream ps = hash_stream qs"
  shows "ps = qs"
  using assms
proof (induction ps arbitrary: qs)
  case Nil
  then show ?case by (cases qs) (simp_all add: hash_stream_Cons hash_stream_def)
next
  case (Cons p ps)
  show ?case
  proof (cases qs)
    case Nil
    with Cons.prems show ?thesis by (simp add: hash_stream_Cons) (simp add: hash_stream_def)
  next
    case (Cons q qs')
    with Cons.prems have "digits (length p) @ CHR '':'' # p @ hash_stream ps =
        digits (length q) @ CHR '':'' # q @ hash_stream qs'"
      by (simp add: hash_stream_Cons)
    then have "length p = length q" "p @ hash_stream ps = q @ hash_stream qs'"
      using digits_colon_split by blast+
    then have "p = q" "hash_stream ps = hash_stream qs'" by auto
    with Cons.IH Cons show ?thesis by simp
  qed
qed

theorem hash_stream_inj_witness:
  "hash_stream [''ab'', ''c''] = hash_stream ([''a'' @ ''b''] @ [''c'']) \<and>
   [''ab'', ''c''] = [''a'' @ ''b''] @ [''c''] \<and>
   hash_stream [''ab'', ''c''] \<noteq> hash_stream [''a'', ''bc'']"
  using hash_stream_inj [of "[''ab'', ''c'']" "[''a'' @ ''b''] @ [''c'']"]
    hash_stream_inj [of "[''ab'', ''c'']" "[''a'', ''bc'']"] by auto

end
