(* ===== verification/Template.thy ===== *)
theory Template
  imports Objects Provisioner CellId
begin

text \<open>
  The guest template contract, \<^verbatim>\<open>internal/provisioner/template.go\<close>: which fields of the user's
  SwiftGuestSpec are refused, the overlay the operator renders on top of it, and the seed profile.
\<close>

section \<open>The field contract\<close>

definition ownedFields :: "string list" where
  "ownedFields = [''seedProfileRef'', ''gpuProfileRef'', ''gpuResourceClaim'', ''nodeName'', ''migration'', ''runPolicy'']"

definition deniedFields :: smap where
  "deniedFields =
     [(''kernelRef'', ''a GPU cell is a disk boot; KubeSwift makes kernelRef and GPU passthrough mutually exclusive''),
      (''cloneFromSnapshot'', ''VFIO state cannot be restored from a snapshot''),
      (''vhostUserDevices'', ''KubeSwift rejects vhost-user devices on the GPU path''),
      (''filesystems'', ''KubeSwift rejects virtio-fs shares on the GPU path'')]"

definition requiredFields :: "string list" where
  "requiredFields = [''guestClassRef'', ''imageRef'']"

definition template_problems :: "any_map \<Rightarrow> string list" where
  \<comment> \<open>the list \<^verbatim>\<open>problems\<close>; Go ranges over \<open>deniedFields\<close> in any order, and sorts the list afterwards\<close>
  "template_problems tmpl =
     map (\<lambda>f. ''cell.guestTemplate.'' @ f @ '' is set by the operator and must not be set here'')
       (filter (\<lambda>f. map_of tmpl f \<noteq> None) ownedFields) @
     map (\<lambda>(f, why). ''cell.guestTemplate.'' @ f @ '' is not supported: '' @ why)
       (filter (\<lambda>(f, why). map_of tmpl f \<noteq> None) deniedFields) @
     (case map_of tmpl ''osType'' of
        Some (JStr os) \<Rightarrow>
          if EqualFold os ''windows'' then [''cell.guestTemplate.osType: windows is not supported for GPU cells''] else []
      | _ \<Rightarrow> []) @
     map (\<lambda>f. ''cell.guestTemplate.'' @ f @ '' is required'')
       (filter (\<lambda>f. map_of tmpl f = None \<or> map_of tmpl f = Some JNull) requiredFields)"

definition ValidateTemplate :: "string \<Rightarrow> unit result" where
  "ValidateTemplate raw =
     (if raw = [] then Inl (Errorf ''cell.guestTemplate is empty: guestClassRef and imageRef are required'')
      else case Unmarshal decode_any_map raw of
        Inl e \<Rightarrow> Inl (Wrapped ''cell.guestTemplate is not a valid SwiftGuestSpec object'' e)
      | Inr tmpl \<Rightarrow>
          (let problems = template_problems tmpl
           in if 0 < length problems then Inl (Errorf (join ''; '' (sort problems))) else Inr ()))"

definition ValidateGPU :: "GPUBinding \<Rightarrow> unit result" where
  "ValidateGPU g =
     (if gb_Backend g = GPUBackendDRA then
        (let hasTemplate = gb_ResourceClaimTemplateName g \<noteq> []; hasClaim = gb_ResourceClaimName g \<noteq> [] in
         if hasTemplate = hasClaim
         then Inl (Errorf ''cell.gpu.dra: set exactly one of resourceClaimTemplateName or resourceClaimName'')
         else if gb_Tier g \<noteq> [] \<and> gb_Tier g \<noteq> ''pcie''
         then Inl (Errorf ''cell.gpu.dra.tier: only pcie is supported (hgx tiers need QEMU and a host Fabric Manager)'')
         else Inr ())
      else if gb_Backend g = GPUBackendNative then
        (if gb_GPUProfileName g = []
         then Inl (Errorf ''cell.gpu.native.gpuProfileRef is required for the Native backend'') else Inr ())
      else Inl (Errorf (''cell.gpu.backend '' @ go_quote (gb_Backend g) @ '': want '' @ go_quote GPUBackendDRA @
             '' or '' @ go_quote GPUBackendNative)))"

section \<open>Rendering\<close>

abbreviation put :: "string \<Rightarrow> json \<Rightarrow> any_map \<Rightarrow> any_map" where
  "put k v m \<equiv> AList.update k v m"

definition put_nonempty :: "string \<Rightarrow> string \<Rightarrow> any_map \<Rightarrow> any_map" where
  "put_nonempty k s m = (if s \<noteq> [] then put k (JStr s) m else m)"

definition gpu_claim :: "GPUBinding \<Rightarrow> any_map" where
  "gpu_claim g =
     put_nonempty ''hugepages'' (gb_Hugepages g) (put_nonempty ''tier'' (gb_Tier g)
       (put_nonempty ''requestName'' (gb_RequestName g)
         (if gb_ResourceClaimTemplateName g \<noteq> []
          then [(''resourceClaimTemplateName'', JStr (gb_ResourceClaimTemplateName g))]
          else [(''resourceClaimName'', JStr (gb_ResourceClaimName g))])))"

definition spread_constraint :: "string \<Rightarrow> json" where
  "spread_constraint pool = JArr [JObj [(''maxSkew'', JNum ''1''), (''topologyKey'', JStr ''kubernetes.io/hostname''),
     (''whenUnsatisfiable'', JStr ''ScheduleAnyway''),
     (''labelSelector'', JObj [(''matchLabels'', JObj [(LabelPool, JStr pool)])])]]"

definition renderGuestSpec :: "CellRequest \<Rightarrow> any_map result" where
  "renderGuestSpec req =
     (case ValidateTemplate (cr_GuestTemplate req) of
        Inl e \<Rightarrow> Inl e
      | Inr _ \<Rightarrow>
          (case ValidateGPU (cr_GPU req) of
             Inl e \<Rightarrow> Inl e
           | Inr _ \<Rightarrow>
               (case Unmarshal decode_any_map (cr_GuestTemplate req) of
                  Inl e \<Rightarrow> Inl (Wrapped ''cell.guestTemplate'' e)
                | Inr tmpl \<Rightarrow>
                    (let spec = put ''seedProfileRef'' (JObj [(''name'', JStr (SeedName (cr_CellName req)))]) tmpl;
                         spec = put ''runPolicy'' (JStr ''Always'') spec;
                         spec = put ''migration'' (JObj [(''enabled'', JBool False)]) spec;
                         spec = (if gb_Backend (cr_GPU req) = GPUBackendDRA
                                 then put ''gpuResourceClaim'' (JObj (gpu_claim (cr_GPU req))) spec
                                 else if gb_Backend (cr_GPU req) = GPUBackendNative
                                 then put ''gpuProfileRef'' (JObj [(''name'', JStr (gb_GPUProfileName (cr_GPU req)))]) spec
                                 else spec)
                     in Inr (if cr_SpreadPolicy req = ''Spread'' \<and> map_of spec ''topologySpreadConstraints'' = None
                             then put ''topologySpreadConstraints'' (spread_constraint (cr_Pool req)) spec else spec)))))"

definition renderSeedSpec :: "CellRequest \<Rightarrow> any_map" where
  "renderSeedSpec req =
     (let key = (if cr_BootstrapSecretKey req = [] then ''user-data'' else cr_BootstrapSecretKey req);
          spec = [(''datasource'', JStr ''NoCloud''), (''userData'', JStr []),
                  (''userDataFrom'', JObj [(''secretKeyRef'',
                     JObj [(''name'', JStr (cr_BootstrapSecretName req)), (''key'', JStr key)])])]
      in if cr_Hostname req \<noteq> []
         then put ''metaData'' (JStr (''instance-id: '' @ cr_CellName req @ [CHR 0x0A] @ ''local-hostname: '' @
                cr_Hostname req @ [CHR 0x0A])) spec
         else spec)"

section \<open>Properties\<close>

text \<open>What a template that passes the contract has and has not.\<close>

definition template_ok :: "any_map \<Rightarrow> bool" where
  "template_ok tmpl \<longleftrightarrow>
     (\<forall>f \<in> set ownedFields \<union> fst ` set deniedFields. map_of tmpl f = None) \<and>
     (\<forall>f \<in> set requiredFields. \<exists>v. map_of tmpl f = Some v \<and> v \<noteq> JNull) \<and>
     (\<forall>os. map_of tmpl ''osType'' = Some (JStr os) \<longrightarrow> \<not> EqualFold os ''windows'')"

lemma template_problems_Nil: "template_problems tmpl = [] \<longleftrightarrow> template_ok tmpl"
proof -
  have os: "(case map_of tmpl ''osType'' of Some (JStr os) \<Rightarrow> if EqualFold os w then [m] else [] | _ \<Rightarrow> []) = [] \<longleftrightarrow>
      (\<forall>os. map_of tmpl ''osType'' = Some (JStr os) \<longrightarrow> \<not> EqualFold os w)" for w and m :: string
    by (auto split: option.split json.split)
  have req: "filter (\<lambda>f. map_of tmpl f = None \<or> map_of tmpl f = Some JNull) fs = [] \<longleftrightarrow>
      (\<forall>f \<in> set fs. \<exists>v. map_of tmpl f = Some v \<and> v \<noteq> JNull)" for fs
    by (auto simp: filter_empty_conv)
  show ?thesis
    unfolding template_problems_def template_ok_def append_is_Nil_conv map_is_Nil_conv os req
    by (auto simp: filter_empty_conv) (metis Un_iff fst_conv image_eqI option.distinct(1))
qed

lemma ValidateTemplate_iff:
  "ValidateTemplate raw = Inr () \<longleftrightarrow> (\<exists>tmpl. Unmarshal decode_any_map raw = Inr tmpl \<and> template_ok tmpl)"
proof (cases "raw = []")
  case True
  then show ?thesis by (simp add: ValidateTemplate_def Unmarshal_def parse_json_def parse_value.simps skip_def)
next
  case False
  then show ?thesis
    by (auto simp: ValidateTemplate_def Let_def template_problems_Nil split: sum.splits)
qed

definition gpu_ok :: "GPUBinding \<Rightarrow> bool" where
  "gpu_ok g \<longleftrightarrow>
     (gb_Backend g = GPUBackendDRA \<and> (gb_ResourceClaimTemplateName g \<noteq> []) \<noteq> (gb_ResourceClaimName g \<noteq> []) \<and>
        gb_Tier g \<in> {[], ''pcie''}) \<or>
     (gb_Backend g = GPUBackendNative \<and> gb_GPUProfileName g \<noteq> [])"

lemma ValidateGPU_iff: "ValidateGPU g = Inr () \<longleftrightarrow> gpu_ok g"
  by (auto simp: ValidateGPU_def gpu_ok_def Let_def)

lemma renderGuestSpec_succeeds:
  "(\<exists>spec. renderGuestSpec req = Inr spec) \<longleftrightarrow>
   ValidateTemplate (cr_GuestTemplate req) = Inr () \<and> ValidateGPU (cr_GPU req) = Inr ()"
  using ValidateTemplate_iff [of "cr_GuestTemplate req"]
  by (cases "ValidateTemplate (cr_GuestTemplate req)"; cases "ValidateGPU (cr_GPU req)")
    (auto simp: renderGuestSpec_def Let_def)

text \<open>
  C17. The overlay never touches what the user wrote: in a rendered guest spec every field that the
  operator does not own is the template's own (the spread constraint is added only where the template
  has none and the policy asks for it), the template had none of the owned or denied fields, and
  each owned field has the operator's value: the cell's own seed profile, restart always, no
  migration, no pinned node, and exactly the GPU reference of the chosen backend.
\<close>

theorem renderGuestSpec_overlay:
  assumes "renderGuestSpec req = Inr spec"
  shows "\<exists>tmpl. Unmarshal decode_any_map (cr_GuestTemplate req) = Inr tmpl \<and> template_ok tmpl \<and>
    (\<forall>f. f \<notin> set ownedFields \<longrightarrow> map_of spec f =
       (if f = ''topologySpreadConstraints'' \<and> cr_SpreadPolicy req = ''Spread'' \<and> map_of tmpl f = None
        then Some (spread_constraint (cr_Pool req)) else map_of tmpl f)) \<and>
    map_of spec ''seedProfileRef'' = Some (JObj [(''name'', JStr (SeedName (cr_CellName req)))]) \<and>
    map_of spec ''runPolicy'' = Some (JStr ''Always'') \<and>
    map_of spec ''migration'' = Some (JObj [(''enabled'', JBool False)]) \<and>
    map_of spec ''nodeName'' = None \<and>
    map_of spec ''gpuResourceClaim'' =
      (if gb_Backend (cr_GPU req) = GPUBackendDRA then Some (JObj (gpu_claim (cr_GPU req))) else None) \<and>
    map_of spec ''gpuProfileRef'' =
      (if gb_Backend (cr_GPU req) = GPUBackendNative
       then Some (JObj [(''name'', JStr (gb_GPUProfileName (cr_GPU req)))]) else None)"
proof -
  obtain tmpl where tmpl: "Unmarshal decode_any_map (cr_GuestTemplate req) = Inr tmpl" "template_ok tmpl"
    and gpu: "gpu_ok (cr_GPU req)"
    using assms renderGuestSpec_succeeds ValidateTemplate_iff ValidateGPU_iff by blast
  then have valid: "ValidateTemplate (cr_GuestTemplate req) = Inr ()" "ValidateGPU (cr_GPU req) = Inr ()"
    using ValidateTemplate_iff ValidateGPU_iff by blast+
  have none: "map_of tmpl f = None" if "f \<in> set ownedFields" for f
    using tmpl(2) that by (simp add: template_ok_def)
  note absent = none [of "''nodeName''"] none [of "''gpuResourceClaim''"] none [of "''gpuProfileRef''"]
  have "gb_Backend (cr_GPU req) = GPUBackendDRA \<or> gb_Backend (cr_GPU req) = GPUBackendNative"
    using gpu by (auto simp: gpu_ok_def)
  with assms tmpl(1) valid absent show ?thesis
    by (intro exI [of _ tmpl]) (auto simp: renderGuestSpec_def Let_def tmpl(2) update_conv' ownedFields_def split: if_splits)
qed

definition sample_request :: CellRequest where
  "sample_request = \<lparr>cr_Pool = ''p'', cr_Namespace = ''ns'', cr_Index = 0, cr_CellName = ''p-0'',
     cr_GuestTemplate = map (\<lambda>c. if c = CHR ''~'' then CHR 0x22 else c)
       ''{~imageRef~: {~name~: ~img~}, ~guestClassRef~: {~name~: ~gpu~}}'',
     cr_GPU = \<lparr>gb_Backend = GPUBackendDRA, gb_ResourceClaimTemplateName = ''gpu'', gb_ResourceClaimName = [],
       gb_RequestName = [], gb_Tier = ''pcie'', gb_Hugepages = [], gb_GPUProfileName = []\<rparr>,
     cr_BootstrapSecretName = ''p-0-bootstrap'', cr_BootstrapSecretKey = ''user-data'', cr_Hostname = ''p-0'',
     cr_NodeIPFrom = [], cr_SpreadPolicy = ''Spread'', cr_ClusterAPI = None, cr_TemplateHash = ''h'', cr_OwnerRefs = []\<rparr>"

lemma sample_request_renders: "\<exists>spec. renderGuestSpec sample_request = Inr spec"
proof -
  have "ValidateTemplate (cr_GuestTemplate sample_request) = Inr ()" by code_simp
  moreover have "ValidateGPU (cr_GPU sample_request) = Inr ()" by code_simp
  ultimately show ?thesis by (simp add: renderGuestSpec_succeeds)
qed

theorem renderGuestSpec_overlay_witness:
  "\<exists>spec. renderGuestSpec sample_request = Inr spec \<and> map_of spec ''runPolicy'' = Some (JStr ''Always'') \<and>
     map_of spec ''topologySpreadConstraints'' = Some (spread_constraint ''p'')"
proof -
  obtain spec where spec: "renderGuestSpec sample_request = Inr spec" using sample_request_renders by blast
  have tmpl: "Unmarshal decode_any_map (cr_GuestTemplate sample_request) =
      Inr [(''imageRef'', JObj [(''name'', JStr ''img'')]), (''guestClassRef'', JObj [(''name'', JStr ''gpu'')])]"
    by code_simp
  show ?thesis
    using renderGuestSpec_overlay [OF spec] spec tmpl by (auto simp: ownedFields_def sample_request_def)
qed

end
