(* ===== verification/Capacity.thy ===== *)
theory Capacity
  imports Json
begin

text \<open>
  Package \<^verbatim>\<open>internal/capacity\<close>, its data and its parsers: the readings of \<^verbatim>\<open>provider.go\<close> and the
  two annotation formats of \<^verbatim>\<open>hami.go\<close>, the JSON of a device registration and the separated
  text of an allocation.
\<close>

section \<open>Readings (\<^verbatim>\<open>provider.go\<close>)\<close>

record Health =
  he_Ready :: bool
  he_Reason :: string
  he_Message :: string

record ModelCapacity =
  mo_Model :: string
  mo_Devices :: goint
  mo_MemoryTotalMiB :: i64
  mo_MemoryAllocatedMiB :: i64
  mo_ComputeTotal :: i64
  mo_ComputeAllocated :: i64

record Capacity =
  cy_Devices :: goint
  cy_Homogeneous :: bool
  cy_ByModel :: "ModelCapacity list"
  cy_MemoryTotalMiB :: i64
  cy_MemoryAllocatedMiB :: i64
  cy_ComputeTotal :: i64
  cy_ComputeAllocated :: i64

definition zero_Capacity :: Capacity where
  "zero_Capacity = \<lparr>cy_Devices = 0, cy_Homogeneous = False, cy_ByModel = [],
     cy_MemoryTotalMiB = 0, cy_MemoryAllocatedMiB = 0, cy_ComputeTotal = 0, cy_ComputeAllocated = 0\<rparr>"

record Allocations =
  al_Consumers :: goint
  al_MemoryMiB :: i64
  al_CorePercent :: i64
  al_InFlight :: bool

definition zero_Allocations :: Allocations where
  "zero_Allocations = \<lparr>al_Consumers = 0, al_MemoryMiB = 0, al_CorePercent = 0, al_InFlight = False\<rparr>"

definition Empty :: "Allocations \<Rightarrow> bool" where
  "Empty a \<longleftrightarrow> al_Consumers a = 0 \<and> \<not> al_InFlight a"

record Demand =
  dm_PendingRequests :: goint
  dm_SatisfiableByOneCell :: goint

definition zero_Demand :: Demand where
  "zero_Demand = \<lparr>dm_PendingRequests = 0, dm_SatisfiableByOneCell = 0\<rparr>"

section \<open>Devices and allocations (\<^verbatim>\<open>hami.go\<close>)\<close>

abbreviation AnnotationNodeRegistration :: string where
  "AnnotationNodeRegistration \<equiv> ''hami.io/node-nvidia-register''"
abbreviation AnnotationDevicesAllocated :: string where
  "AnnotationDevicesAllocated \<equiv> ''hami.io/vgpu-devices-allocated''"
abbreviation AnnotationDevicesToAllocate :: string where
  "AnnotationDevicesToAllocate \<equiv> ''hami.io/vgpu-devices-to-allocate''"
abbreviation NodeLabelGate :: string where "NodeLabelGate \<equiv> ''gpu''"

record Device =
  dv_UUID :: string
  dv_LogicalSlots :: goint
  dv_MemoryMiB :: i64
  dv_CorePercent :: i64
  dv_Model :: string
  dv_Mode :: string
  dv_Healthy :: bool

record rawDevice =
  rd_ID :: "string option"
  rd_Count :: "goint option"
  rd_DevMem :: "i64 option"
  rd_DevCore :: "i64 option"
  rd_Type :: string
  rd_Mode :: string
  rd_Health :: "bool option"

definition zero_rawDevice :: rawDevice where
  "zero_rawDevice = \<lparr>rd_ID = None, rd_Count = None, rd_DevMem = None, rd_DevCore = None,
     rd_Type = [], rd_Mode = [], rd_Health = None\<rparr>"

subsection \<open>Decoding JSON into \<^verbatim>\<open>[]rawDevice\<close>\<close>

text \<open>
  \<^verbatim>\<open>encoding/json\<close> matches keys without regard to case, ignores unknown ones, sets a pointer field
  to nil on null and leaves a plain string field alone on null. A later key overwrites an earlier one.
\<close>

definition decode_field :: "string \<times> json \<Rightarrow> rawDevice \<Rightarrow> rawDevice result" where
  "decode_field kv rd =
     (let k = fold_case (fst kv); v = snd kv in
      if k = ''id'' then map_sum id (\<lambda>x. rd\<lparr>rd_ID := x\<rparr>) (decode_string v)
      else if k = ''count'' then map_sum id (\<lambda>x. rd\<lparr>rd_Count := x\<rparr>) (decode_int64 v)
      else if k = ''devmem'' then map_sum id (\<lambda>x. rd\<lparr>rd_DevMem := x\<rparr>) (decode_int64 v)
      else if k = ''devcore'' then map_sum id (\<lambda>x. rd\<lparr>rd_DevCore := x\<rparr>) (decode_int64 v)
      else if k = ''type'' then
        map_sum id (\<lambda>x. case x of None \<Rightarrow> rd | Some s \<Rightarrow> rd\<lparr>rd_Type := s\<rparr>) (decode_string v)
      else if k = ''mode'' then
        map_sum id (\<lambda>x. case x of None \<Rightarrow> rd | Some s \<Rightarrow> rd\<lparr>rd_Mode := s\<rparr>) (decode_string v)
      else if k = ''health'' then map_sum id (\<lambda>x. rd\<lparr>rd_Health := x\<rparr>) (decode_bool v)
      else Inr rd)"

fun decode_rawDevice :: "json \<Rightarrow> rawDevice result" where
  "decode_rawDevice JNull = Inr zero_rawDevice"
| "decode_rawDevice (JObj kvs) = fold_result decode_field kvs zero_rawDevice"
| "decode_rawDevice _ = Inl type_error"

definition decode_into :: "json \<Rightarrow> rawDevice list \<Rightarrow> rawDevice list result" where
  "decode_into v out = map_sum id (\<lambda>rd. out @ [rd]) (decode_rawDevice v)"

fun decode_rawDevices :: "json \<Rightarrow> rawDevice list result" where
  "decode_rawDevices JNull = Inr []"
| "decode_rawDevices (JArr vs) = fold_result decode_into vs []"
| "decode_rawDevices _ = Inl type_error"

subsection \<open>\<^verbatim>\<open>ParseNodeRegistration\<close>\<close>

text \<open>
  The three results \<^verbatim>\<open>(nil, false, nil)\<close>, \<^verbatim>\<open>(nil, true, err)\<close> and \<^verbatim>\<open>(devices, true, nil)\<close> of
  the Go function.
\<close>

datatype registration = NotRegistered | BadRegistration go_error | Registered "Device list"

definition reg_error :: "string \<Rightarrow> go_error" where
  "reg_error s = Errorf (''parsing '' @ AnnotationNodeRegistration @ '': device '' @ s)"

definition to_Device :: "nat \<Rightarrow> rawDevice \<Rightarrow> Device result" where
  "to_Device i rd =
     (case rd_ID rd of
        None \<Rightarrow> Inl (reg_error (FormatInt (int i) @ '' has no id''))
      | Some uuid \<Rightarrow>
          if uuid = [] then Inl (reg_error (FormatInt (int i) @ '' has no id''))
          else (case rd_DevMem rd of
            None \<Rightarrow> Inl (reg_error (uuid @ '' has no devmem''))
          | Some mem \<Rightarrow>
              (case rd_DevCore rd of
                 None \<Rightarrow> Inl (reg_error (uuid @ '' has no devcore''))
               | Some core \<Rightarrow>
                   (case rd_Health rd of
                      None \<Rightarrow> Inl (reg_error (uuid @ '' has no health''))
                    | Some health \<Rightarrow>
                        Inr \<lparr>dv_UUID = uuid,
                             dv_LogicalSlots = (case rd_Count rd of None \<Rightarrow> 0 | Some c \<Rightarrow> c),
                             dv_MemoryMiB = mem, dv_CorePercent = core,
                             dv_Model = rd_Type rd, dv_Mode = rd_Mode rd, dv_Healthy = health\<rparr>))))"

fun to_Devices :: "nat \<Rightarrow> rawDevice list \<Rightarrow> Device list result" where
  "to_Devices i [] = Inr []"
| "to_Devices i (rd # rds) =
     (case to_Device i rd of
        Inl e \<Rightarrow> Inl e
      | Inr d \<Rightarrow> map_sum id ((#) d) (to_Devices (Suc i) rds))"

definition ParseNodeRegistration :: "smap \<Rightarrow> registration" where
  "ParseNodeRegistration annotations =
     (case map_of annotations AnnotationNodeRegistration of
        None \<Rightarrow> NotRegistered
      | Some raw \<Rightarrow>
          if TrimSpace raw = [] then NotRegistered
          else (case parse_json raw of
                  Inl e \<Rightarrow> BadRegistration (Wrapped (''parsing '' @ AnnotationNodeRegistration) e)
                | Inr v \<Rightarrow>
                    (case decode_rawDevices v of
                       Inl e \<Rightarrow> BadRegistration (Wrapped (''parsing '' @ AnnotationNodeRegistration) e)
                     | Inr rds \<Rightarrow>
                         (case to_Devices 0 rds of
                            Inl e \<Rightarrow> BadRegistration e
                          | Inr ds \<Rightarrow> Registered ds))))"

definition HealthyDevices :: "Device list \<Rightarrow> Device list" where
  "HealthyDevices devices = filter dv_Healthy devices"

subsection \<open>\<^verbatim>\<open>ParseAllocations\<close>\<close>

record Allocation =
  an_UUID :: string
  an_Vendor :: string
  an_MemoryMiB :: i64
  an_CorePercent :: i64

definition alloc_record_error :: "string \<Rightarrow> string \<Rightarrow> go_error" where
  "alloc_record_error rec what =
     Errorf (''parsing '' @ AnnotationDevicesAllocated @ '': record '' @ go_quote rec @ what)"

definition parse_record :: "string \<Rightarrow> Allocation list \<Rightarrow> Allocation list result" where
  "parse_record raw out =
     (let rec = TrimSpace raw in
      if rec = [] then Inr out
      else
        (let fs = split_on (CHR '','') rec in
         if length fs < 4 then
           Inl (alloc_record_error rec ('' has '' @ FormatInt (int (length fs)) @
                  '' fields, want at least 4 (uuid,vendor,memory,cores)''))
         else (case ParseInt 64 (TrimSpace (fs ! 2)) of
             Inl e \<Rightarrow> Inl (alloc_record_error rec
                       ('' memory: '' @ num_error_text (TrimSpace (fs ! 2)) e))
           | Inr mem \<Rightarrow>
               (case ParseInt 64 (TrimSpace (fs ! 3)) of
                  Inl e \<Rightarrow> Inl (alloc_record_error rec
                            ('' cores: '' @ num_error_text (TrimSpace (fs ! 3)) e))
                | Inr cores \<Rightarrow>
                    Inr (out @ [\<lparr>an_UUID = TrimSpace (fs ! 0), an_Vendor = TrimSpace (fs ! 1),
                                 an_MemoryMiB = mem, an_CorePercent = cores\<rparr>])))))"

definition parse_group :: "string \<Rightarrow> Allocation list \<Rightarrow> Allocation list result" where
  "parse_group grp out =
     (if TrimSpace grp = [] then Inr out
      else fold_result parse_record (split_on (CHR '':'') grp) out)"

definition ParseAllocations :: "string \<Rightarrow> Allocation list result" where
  "ParseAllocations value =
     (let v = TrimSpace value in
      if v = [] then Inr [] else fold_result parse_group (split_on (CHR '';'') v) [])"

definition SumAllocations :: "Allocation list \<Rightarrow> i64 \<times> i64" where
  "SumAllocations allocs =
     foldl (\<lambda>(m, c) a. (wrap64 (m + an_MemoryMiB a), wrap64 (c + an_CorePercent a))) (0, 0) allocs"

section \<open>The documented annotation format\<close>

text \<open>
  HAMi writes one record \<^verbatim>\<open>uuid,vendor,memMiB,cores\<close> per device share, each ended by a colon,
  and ends every container's group with a semicolon. These functions write that format; they
  are the specification \<^verbatim>\<open>ParseAllocations\<close> is checked against.
\<close>

definition show_record :: "Allocation \<Rightarrow> string" where
  "show_record a = join '','' [an_UUID a, an_Vendor a, FormatInt (an_MemoryMiB a), FormatInt (an_CorePercent a)]"

definition show_group :: "Allocation list \<Rightarrow> string" where
  "show_group as = concat (map (\<lambda>a. show_record a @ '':'') as)"

definition show_allocations :: "Allocation list list \<Rightarrow> string" where
  "show_allocations gs = concat (map (\<lambda>g. show_group g @ '';'') gs)"

definition plain_char :: "char \<Rightarrow> bool" where
  "plain_char c \<longleftrightarrow> c \<noteq> CHR '','' \<and> c \<noteq> CHR '':'' \<and> c \<noteq> CHR '';''"

definition wf_Allocation :: "Allocation \<Rightarrow> bool" where
  \<comment> \<open>names without separators and without white space around them\<close>
  "wf_Allocation a \<longleftrightarrow> list_all plain_char (an_UUID a) \<and> list_all plain_char (an_Vendor a) \<and>
     TrimSpace (an_UUID a) = an_UUID a \<and> TrimSpace (an_Vendor a) = an_Vendor a \<and>
     in_i64 (an_MemoryMiB a) \<and> in_i64 (an_CorePercent a)"

text \<open>What makes an annotation readable, field by field.\<close>

definition readable_record :: "string \<Rightarrow> bool" where
  "readable_record raw \<longleftrightarrow> TrimSpace raw = [] \<or>
     (\<exists>uuid vendor mem cores rest m k. split_on (CHR '','') (TrimSpace raw) = uuid # vendor # mem # cores # rest \<and>
        ParseInt 64 (TrimSpace mem) = Inr m \<and> ParseInt 64 (TrimSpace cores) = Inr k)"

definition readable_shares :: "string \<Rightarrow> bool" where
  "readable_shares value \<longleftrightarrow> (\<forall>grp \<in> set (split_on (CHR '';'') (TrimSpace value)). TrimSpace grp \<noteq> [] \<longrightarrow>
     (\<forall>rec \<in> set (split_on (CHR '':'') grp). readable_record rec))"

definition readable_registration :: "string \<Rightarrow> bool" where
  \<comment> \<open>a JSON array each of whose objects names an id, a memory, a compute and a health\<close>
  "readable_registration raw \<longleftrightarrow> (\<exists>v rds. parse_json raw = Inr v \<and> decode_rawDevices v = Inr rds \<and>
     (\<forall>rd \<in> set rds. rd_ID rd \<notin> {None, Some []} \<and> rd_DevMem rd \<noteq> None \<and> rd_DevCore rd \<noteq> None \<and> rd_Health rd \<noteq> None))"

section \<open>Facts on parsing\<close>

lemma FormatInt_plain: "list_all plain_char (FormatInt i)"
proof -
  have "is_digit c \<Longrightarrow> plain_char c" for c by (auto simp: is_digit_def plain_char_def)
  then have "list_all plain_char (digits n)" for n
    using digits_are_digits [of n] by (auto simp: list_all_iff)
  moreover have "plain_char (CHR ''-'')" by (simp add: plain_char_def)
  ultimately show ?thesis by (simp add: FormatInt_def)
qed

lemma plain_not_sep:
  assumes "list_all plain_char s"
  shows "CHR '','' \<notin> set s" "CHR '':'' \<notin> set s" "CHR '';'' \<notin> set s"
  using assms by (auto simp: list_all_iff plain_char_def)

lemma show_record_chars:
  assumes "wf_Allocation a"
  shows "CHR '':'' \<notin> set (show_record a)" "CHR '';'' \<notin> set (show_record a)" "show_record a \<noteq> []"
  using assms plain_not_sep(2,3) [of "an_UUID a"] plain_not_sep(2,3) [of "an_Vendor a"]
    plain_not_sep(2,3) [OF FormatInt_plain]
  by (auto simp: show_record_def wf_Allocation_def)

lemma firm_number [intro]: "firm (FormatInt i)"
  by (intro firm_hard FormatInt_hard)

lemma firm_record: "wf_Allocation a \<Longrightarrow> firm (show_record a)"
  unfolding show_record_def wf_Allocation_def
  by (simp, intro firm_start firm_number TrimSpace_fixed) (simp_all add: TrimSpace_firm firm_number)

lemma firm_group: "list_all wf_Allocation as \<Longrightarrow> as \<noteq> [] \<Longrightarrow> firm (show_group as)"
proof (induction as)
  case (Cons a as)
  have "firm '':''" by (simp add: firm_hard)
  with Cons show ?case
    by (cases "as = []") (auto simp: show_group_def intro!: firm_append firm_record firm_start [of "[]", simplified])
qed simp

lemma firm_allocations: "list_all (list_all wf_Allocation) gs \<Longrightarrow> gs \<noteq> [] \<Longrightarrow> firm (show_allocations gs)"
proof (induction gs)
  case (Cons g gs)
  have "firm '';''" by (simp add: firm_hard)
  then have "firm (show_group g @ '';'')"
    using Cons.prems firm_group [of g] by (cases "g = []") (auto simp: show_group_def intro: firm_append)
  with Cons show ?case
    by (cases "gs = []") (auto simp: show_allocations_def intro: firm_append [of "show_group g @ '';''", simplified])
qed simp

lemma parse_record_show:
  assumes "wf_Allocation a"
  shows "parse_record (show_record a) out = Inr (out @ [a])"
proof -
  let ?fs = "[an_UUID a, an_Vendor a, FormatInt (an_MemoryMiB a), FormatInt (an_CorePercent a)]"
  have t: "TrimSpace (show_record a) = show_record a" by (rule TrimSpace_firm [OF firm_record [OF assms]])
  have "\<forall>x \<in> set ?fs. CHR '','' \<notin> set x"
    using assms by (auto simp: wf_Allocation_def dest: plain_not_sep(1)
        intro: plain_not_sep(1) [OF FormatInt_plain, THEN notE])
  then have s: "split_on (CHR '','') (show_record a) = ?fs"
    unfolding show_record_def by (intro split_on_join) auto
  have p: "ParseInt 64 (FormatInt i) = Inr i" if "in_i64 i" for i
    using that by (intro ParseInt_FormatInt) (simp_all add: in_i64_def)
  have tr: "TrimSpace (an_UUID a) = an_UUID a" "TrimSpace (an_Vendor a) = an_Vendor a"
    "TrimSpace (FormatInt i) = FormatInt i" for i
    using assms by (simp_all add: wf_Allocation_def TrimSpace_firm firm_number)
  show ?thesis
    using assms show_record_chars(3) [OF assms]
    by (simp add: parse_record_def Let_def t s tr p wf_Allocation_def)
qed

lemma split_on_show_group:
  assumes "list_all wf_Allocation as"
  shows "split_on (CHR '':'') (show_group as) = map show_record as @ [[]]"
  using assms
  by (induction as) (auto simp: show_group_def split_on_append_sep show_record_chars)

lemma parse_records_show:
  assumes "list_all wf_Allocation as"
  shows "fold_result parse_record (map show_record as @ [[]]) out = Inr (out @ as)"
  using assms
proof (induction as arbitrary: out)
  case Nil
  then show ?case by (simp add: parse_record_def)
next
  case (Cons a as)
  then show ?case by (simp add: parse_record_show)
qed

lemma parse_group_show:
  assumes "list_all wf_Allocation as"
  shows "parse_group (show_group as) out = Inr (out @ as)"
proof (cases "as = []")
  case True
  then show ?thesis by (simp add: parse_group_def show_group_def)
next
  case False
  then have "TrimSpace (show_group as) \<noteq> []"
    using TrimSpace_firm [OF firm_group [OF assms]] by (cases as) (simp_all add: show_group_def)
  with assms show ?thesis
    by (simp add: parse_group_def split_on_show_group parse_records_show)
qed

lemma split_on_show_allocations:
  assumes "list_all (list_all wf_Allocation) gs"
  shows "split_on (CHR '';'') (show_allocations gs) = map show_group gs @ [[]]"
proof -
  have "CHR '';'' \<notin> set (show_group g)" if "list_all wf_Allocation g" for g
    using that by (induction g) (auto simp: show_group_def show_record_chars)
  with assms show ?thesis
    by (induction gs) (auto simp: show_allocations_def split_on_append_sep)
qed

lemma parse_groups_show:
  assumes "list_all (list_all wf_Allocation) gs"
  shows "fold_result parse_group (map show_group gs @ [[]]) out = Inr (out @ concat gs)"
  using assms
proof (induction gs arbitrary: out)
  case Nil
  then show ?case by (simp add: parse_group_def)
next
  case (Cons g gs)
  then show ?case by (simp add: parse_group_show)
qed

lemma parse_record_readable: "(\<exists>as. parse_record raw out = Inr as) \<longleftrightarrow> readable_record raw"
proof (cases "TrimSpace raw = []")
  case False
  let ?fs = "split_on (CHR '','') (TrimSpace raw)"
  show ?thesis
  proof (cases "length ?fs < 4")
    case True
    then show ?thesis using False by (auto simp: parse_record_def readable_record_def Let_def)
  next
    case 4: False
    then obtain u v m k rest where fs: "?fs = u # v # m # k # rest"
      by (auto simp: not_less numeral_eq_Suc Suc_le_length_iff)
    show ?thesis
      using False by (auto simp: parse_record_def readable_record_def fs Let_def split: sum.splits)
  qed
qed (simp add: parse_record_def readable_record_def)

lemma parse_group_readable:
  "(\<exists>as. parse_group grp out = Inr as) \<longleftrightarrow> TrimSpace grp = [] \<or> (\<forall>rec \<in> set (split_on (CHR '':'') grp). readable_record rec)"
  by (simp add: parse_group_def fold_result_total [OF parse_record_readable])

lemma ParseAllocations_readable: "(\<exists>as. ParseAllocations value = Inr as) \<longleftrightarrow> readable_shares value"
  by (auto simp: ParseAllocations_def readable_shares_def Let_def fold_result_total [OF parse_group_readable])

lemma to_Devices_total:
  "(\<exists>ds. to_Devices i rds = Inr ds) \<longleftrightarrow> (\<forall>rd \<in> set rds. rd_ID rd \<notin> {None, Some []} \<and> rd_DevMem rd \<noteq> None \<and>
     rd_DevCore rd \<noteq> None \<and> rd_Health rd \<noteq> None)"
proof (induction rds arbitrary: i)
  case (Cons rd rds)
  have "(\<exists>d. to_Device i rd = Inr d) \<longleftrightarrow> rd_ID rd \<notin> {None, Some []} \<and> rd_DevMem rd \<noteq> None \<and> rd_DevCore rd \<noteq> None \<and> rd_Health rd \<noteq> None"
    by (auto simp: to_Device_def split: option.split)
  with Cons.IH [of "Suc i"] show ?case by (cases "to_Device i rd"; cases "to_Devices (Suc i) rds") auto
qed simp

lemma ParseNodeRegistration_readable:
  "(\<exists>e. ParseNodeRegistration ann = BadRegistration e) \<longleftrightarrow>
     (\<exists>raw. map_of ann AnnotationNodeRegistration = Some raw \<and> TrimSpace raw \<noteq> [] \<and> \<not> readable_registration raw)"
  "ParseNodeRegistration ann = NotRegistered \<longleftrightarrow>
     (\<forall>raw. map_of ann AnnotationNodeRegistration = Some raw \<longrightarrow> TrimSpace raw = [])"
proof -
  have "(\<exists>e. ParseNodeRegistration ann = BadRegistration e) \<longleftrightarrow> \<not> readable_registration raw"
    if "map_of ann AnnotationNodeRegistration = Some raw" "TrimSpace raw \<noteq> []" for raw
  proof (cases "parse_json raw")
    case (Inr v)
    show ?thesis
    proof (cases "decode_rawDevices v")
      case rds: (Inr rds)
      show ?thesis using that to_Devices_total [of 0 rds]
        by (cases "to_Devices 0 rds") (simp_all add: ParseNodeRegistration_def readable_registration_def Inr rds)
    qed (use that Inr in \<open>simp add: ParseNodeRegistration_def readable_registration_def\<close>)
  qed (use that in \<open>simp add: ParseNodeRegistration_def readable_registration_def\<close>)
  then show "(\<exists>e. ParseNodeRegistration ann = BadRegistration e) \<longleftrightarrow>
     (\<exists>raw. map_of ann AnnotationNodeRegistration = Some raw \<and> TrimSpace raw \<noteq> [] \<and> \<not> readable_registration raw)"
    by (cases "map_of ann AnnotationNodeRegistration") (auto simp: ParseNodeRegistration_def split: if_splits)
  show "ParseNodeRegistration ann = NotRegistered \<longleftrightarrow>
     (\<forall>raw. map_of ann AnnotationNodeRegistration = Some raw \<longrightarrow> TrimSpace raw = [])"
    by (auto simp: ParseNodeRegistration_def split: option.splits sum.splits if_splits)
qed

lemma to_Device_fields:
  "to_Device i rd = Inr d \<longleftrightarrow>
     rd_ID rd = Some (dv_UUID d) \<and> dv_UUID d \<noteq> [] \<and> rd_DevMem rd = Some (dv_MemoryMiB d) \<and>
     rd_DevCore rd = Some (dv_CorePercent d) \<and> rd_Health rd = Some (dv_Healthy d) \<and>
     dv_Model d = rd_Type rd \<and> dv_Mode d = rd_Mode rd \<and>
     dv_LogicalSlots d = (case rd_Count rd of None \<Rightarrow> 0 | Some c \<Rightarrow> c)"
  by (cases d) (auto simp: to_Device_def split: option.splits)

lemma to_Devices_all2:
  "to_Devices i rds = Inr ds \<Longrightarrow> list_all2 (\<lambda>rd d. \<exists>j. to_Device j rd = Inr d) rds ds"
proof (induction rds arbitrary: i ds)
  case (Cons rd rds)
  then obtain d ds' where "to_Device i rd = Inr d" "to_Devices (Suc i) rds = Inr ds'" "ds = d # ds'"
    by (auto split: sum.splits)
  with Cons.IH show ?case by auto
qed simp

section \<open>Properties\<close>

text \<open>
  C34. \<^verbatim>\<open>ParseAllocations\<close> reads back exactly what HAMi's documented format says: every share of
  every container, in order, including annotations with empty groups such as \<^verbatim>\<open>;;\<close>.
\<close>

theorem ParseAllocations_show:
  assumes "list_all (list_all wf_Allocation) gs"
  shows "ParseAllocations (show_allocations gs) = Inr (concat gs)"
proof (cases "gs = []")
  case True
  then show ?thesis by (simp add: ParseAllocations_def show_allocations_def)
next
  case False
  have t: "TrimSpace (show_allocations gs) = show_allocations gs"
    by (rule TrimSpace_firm [OF firm_allocations [OF assms False]])
  from False have "show_allocations gs \<noteq> []"
    by (cases gs) (simp_all add: show_allocations_def)
  with assms t show ?thesis
    by (simp add: ParseAllocations_def split_on_show_allocations parse_groups_show)
qed

theorem ParseAllocations_show_witness:
  "ParseAllocations (show_allocations
     [[\<lparr>an_UUID = ''GPU-1'', an_Vendor = ''NVIDIA'', an_MemoryMiB = 3000, an_CorePercent = 30\<rparr>], []]) =
   Inr [\<lparr>an_UUID = ''GPU-1'', an_Vendor = ''NVIDIA'', an_MemoryMiB = 3000, an_CorePercent = 30\<rparr>]"
  using ParseAllocations_show [of
     "[[\<lparr>an_UUID = ''GPU-1'', an_Vendor = ''NVIDIA'', an_MemoryMiB = 3000, an_CorePercent = 30\<rparr>], []]"]
  by (simp add: wf_Allocation_def plain_char_def in_i64_def) code_simp

text \<open>
  A registration is never read with a silent zero: when \<^verbatim>\<open>ParseNodeRegistration\<close> reports
  devices, each entry of the annotation gave an id, a memory, a compute and a health value, and
  the device carries exactly those; an entry that lacks one makes the whole registration an error.
\<close>

theorem ParseNodeRegistration_exact:
  assumes "ParseNodeRegistration annotations = Registered ds"
  shows "\<exists>raw v rds. map_of annotations AnnotationNodeRegistration = Some raw \<and>
           parse_json raw = Inr v \<and> decode_rawDevices v = Inr rds \<and>
           list_all2 (\<lambda>rd d. rd_ID rd = Some (dv_UUID d) \<and> dv_UUID d \<noteq> [] \<and>
             rd_DevMem rd = Some (dv_MemoryMiB d) \<and> rd_DevCore rd = Some (dv_CorePercent d) \<and>
             rd_Health rd = Some (dv_Healthy d) \<and> dv_Model d = rd_Type rd) rds ds"
proof -
  obtain raw v rds where r: "map_of annotations AnnotationNodeRegistration = Some raw"
    "parse_json raw = Inr v" "decode_rawDevices v = Inr rds" "to_Devices 0 rds = Inr ds"
    using assms
    by (auto simp: ParseNodeRegistration_def split: option.splits if_splits sum.splits)
  have "list_all2 (\<lambda>rd d. \<exists>j. to_Device j rd = Inr d) rds ds"
    using r(4) by (rule to_Devices_all2)
  then have "list_all2 (\<lambda>rd d. rd_ID rd = Some (dv_UUID d) \<and> dv_UUID d \<noteq> [] \<and>
      rd_DevMem rd = Some (dv_MemoryMiB d) \<and> rd_DevCore rd = Some (dv_CorePercent d) \<and>
      rd_Health rd = Some (dv_Healthy d) \<and> dv_Model d = rd_Type rd) rds ds"
    by (rule list_all2_mono) (simp add: to_Device_fields)
  with r show ?thesis by blast
qed

definition sample_registration :: string where
  \<comment> \<open>a registration, its double quotes written as tildes\<close>
  "sample_registration = map (\<lambda>c. if c = CHR ''~'' then CHR 0x22 else c)
     (''[{~id~: ~GPU-e71afe85~, ~count~: 10, ~devmem~: 8192, ~devcore~: 100, ~type~: ~NVIDIA GeForce GTX 1080~, '' @
      ''~mode~: ~hami-core~, ~health~: true, ~devicepairscore~: {}}]'')"

definition sample_device :: Device where
  "sample_device = \<lparr>dv_UUID = ''GPU-e71afe85'', dv_LogicalSlots = 10, dv_MemoryMiB = 8192,
     dv_CorePercent = 100, dv_Model = ''NVIDIA GeForce GTX 1080'', dv_Mode = ''hami-core'',
     dv_Healthy = True\<rparr>"

lemma sample_registration_parses:
  "ParseNodeRegistration [(AnnotationNodeRegistration, sample_registration)] =
   Registered [sample_device]"
  by code_simp

theorem ParseNodeRegistration_exact_witness:
  "\<exists>raw v rds. map_of [(AnnotationNodeRegistration, sample_registration)] AnnotationNodeRegistration = Some raw \<and>
     parse_json raw = Inr v \<and> decode_rawDevices v = Inr rds \<and>
     list_all2 (\<lambda>rd d. rd_ID rd = Some (dv_UUID d) \<and> dv_UUID d \<noteq> [] \<and>
       rd_DevMem rd = Some (dv_MemoryMiB d) \<and> rd_DevCore rd = Some (dv_CorePercent d) \<and>
       rd_Health rd = Some (dv_Healthy d) \<and> dv_Model d = rd_Type rd) rds [sample_device]"
  by (rule ParseNodeRegistration_exact [OF sample_registration_parses])

end
