(* ===== verification/Workload.thy ===== *)
theory Workload
  imports CellId
begin

text \<open>
  Package \<^verbatim>\<open>internal/workload\<close>, the decisions of \<^verbatim>\<open>node.go\<close> and \<^verbatim>\<open>client.go\<close>: what a Node object
  says about a cell, whether a kubelet heartbeats for it, which metadata is missing, and how a
  failure to reach the workload cluster is classified. A \<open>Node\<close> keeps the fields the operator
  reads; the calls that fetch Nodes and Leases are parameters.
\<close>

section \<open>Nodes\<close>

record NodeCondition =
  nc_Type :: string
  nc_Status :: string
  nc_LastHeartbeatTime :: gotime

record Node =
  nd_Name :: string
  nd_Labels :: smap
  nd_Annotations :: smap
  nd_Conditions :: "NodeCondition list"
  nd_Unschedulable :: bool
  nd_Taints :: "Taint list"

record NodeState =
  ns_Exists :: bool
  ns_Ready :: bool
  ns_Unschedulable :: bool
  ns_Labels :: smap
  ns_Annotations :: smap
  ns_KubeletLive :: bool
  ns_HeartbeatSource :: string

definition zero_NodeState :: NodeState where
  "zero_NodeState = \<lparr>ns_Exists = False, ns_Ready = False, ns_Unschedulable = False, ns_Labels = [],
     ns_Annotations = [], ns_KubeletLive = False, ns_HeartbeatSource = []\<rparr>"

abbreviation NodeReady :: string where "NodeReady \<equiv> ''Ready''"

definition leaseGrace :: duration where "leaseGrace = 90 * Second"
definition nodeStatusGrace :: duration where "nodeStatusGrace = 6 * Minute"

fun ready_condition :: "NodeCondition list \<Rightarrow> bool" where
  "ready_condition [] = False"
| "ready_condition (c # cs) =
     (if nc_Type c = NodeReady then nc_Status c = ''True'' else ready_condition cs)"

definition IsReady :: "Node \<Rightarrow> bool" where
  "IsReady node = ready_condition (nd_Conditions node)"

fun status_heartbeat :: "gotime \<Rightarrow> NodeCondition list \<Rightarrow> bool \<times> string" where
  "status_heartbeat now [] = (True, [])"
| "status_heartbeat now (c # cs) =
     (if nc_Type c = NodeReady \<and> nc_LastHeartbeatTime c \<noteq> 0
      then (sub_time now (nc_LastHeartbeatTime c) < nodeStatusGrace, ''NodeStatus'')
      else status_heartbeat now cs)"

text \<open>The Lease read of \<^verbatim>\<open>kubeletLive\<close>: an error, or the Lease's renew time if it has one.\<close>

type_synonym lease_read = "gotime option result"

definition kubeletLive :: "lease_read \<Rightarrow> Node \<Rightarrow> gotime \<Rightarrow> bool \<times> string" where
  "kubeletLive lease node now =
     (case lease of
        Inr (Some renew) \<Rightarrow> (sub_time now renew < leaseGrace, ''Lease'')
      | Inr None \<Rightarrow> (False, ''Lease'')
      | Inl e \<Rightarrow> status_heartbeat now (nd_Conditions node))"

definition node_state_of :: "(string \<Rightarrow> lease_read) \<Rightarrow> Node \<Rightarrow> gotime \<Rightarrow> NodeState" where
  "node_state_of getLease node now =
     (let ls = kubeletLive (getLease (nd_Name node)) node now in
      \<lparr>ns_Exists = True, ns_Ready = IsReady node, ns_Unschedulable = nd_Unschedulable node,
       ns_Labels = nd_Labels node, ns_Annotations = nd_Annotations node,
       ns_KubeletLive = fst ls, ns_HeartbeatSource = snd ls\<rparr>)"

definition GetNodeState ::
  "(string \<Rightarrow> Node result) \<Rightarrow> (string \<Rightarrow> lease_read) \<Rightarrow> string \<Rightarrow> gotime \<Rightarrow> NodeState result" where
  "GetNodeState getNode getLease name now =
     (case getNode name of
        Inl e \<Rightarrow> if IsNotFound e then Inr zero_NodeState
                 else Inl (Wrapped (''reading node '' @ name) e)
      | Inr node \<Rightarrow> Inr (node_state_of getLease node now))"

text \<open>\<open>listNodes pool\<close> is the list call with the selector \<^verbatim>\<open>cells.kubeswift.io/pool=<pool>\<close>.\<close>

definition ListPoolNodes ::
  "(string \<Rightarrow> Node list result) \<Rightarrow> (string \<Rightarrow> lease_read) \<Rightarrow> string \<Rightarrow> gotime \<Rightarrow>
   (string \<times> NodeState) list result" where
  "ListPoolNodes listNodes getLease pool now =
     (case listNodes pool of
        Inl e \<Rightarrow> Inl (Wrapped (''listing nodes of pool '' @ pool) e)
      | Inr nodes \<Rightarrow>
          Inr (foldl (\<lambda>out node. AList.update (nd_Name node) (node_state_of getLease node now) out) [] nodes))"

section \<open>Node metadata\<close>

definition missingOrWrong :: "smap \<Rightarrow> smap \<Rightarrow> smap" where
  "missingOrWrong have want = filter (\<lambda>(k, v). smap_get have k \<noteq> v) want"

text \<open>The effect of a merge patch on a label or annotation map.\<close>

definition apply_patch :: "smap \<Rightarrow> smap \<Rightarrow> smap" where
  "apply_patch have patch = foldl (\<lambda>m (k, v). AList.update k v m) have patch"

text \<open>
  \<^verbatim>\<open>mergeTaints\<close>: the inner loop looks for the first taint with the wanted key and effect,
  correcting its value; the outer loop appends a wanted taint that was not found.
\<close>

fun merge_one :: "Taint \<Rightarrow> Taint list \<Rightarrow> (Taint list \<times> bool) option" where
  \<comment> \<open>\<open>None\<close>: not found; otherwise the list after the loop and whether it changed\<close>
  "merge_one w [] = None"
| "merge_one w (h # hs) =
     (if tn_Key h = tn_Key w \<and> tn_Effect h = tn_Effect w then
        (if tn_Value h \<noteq> tn_Value w then Some (h\<lparr>tn_Value := tn_Value w\<rparr> # hs, True)
         else Some (h # hs, False))
      else map_option (\<lambda>(hs', ch). (h # hs', ch)) (merge_one w hs))"

definition merge_step :: "Taint list \<times> bool \<Rightarrow> Taint \<Rightarrow> Taint list \<times> bool" where
  "merge_step st w =
     (case merge_one w (fst st) of
        None \<Rightarrow> (fst st @ [w], True)
      | Some (out, ch) \<Rightarrow> (out, snd st \<or> ch))"

definition mergeTaints :: "Taint list \<Rightarrow> Taint list \<Rightarrow> Taint list \<times> bool" where
  "mergeTaints have want = (if want = [] then (have, False) else foldl merge_step (have, False) want)"

section \<open>Classifying a failure (\<^verbatim>\<open>client.go\<close>)\<close>

definition ClassifyError :: "go_error option \<Rightarrow> string" where
  "ClassifyError err =
     (case err of
        None \<Rightarrow> ReasonConnected
      | Some e \<Rightarrow>
          (case api_cause e of
             Some ErrUnauthorized \<Rightarrow> ReasonCredentialInvalid
           | Some ErrForbidden \<Rightarrow> ReasonForbidden
           | Some ErrTimeout \<Rightarrow> ReasonUnreachable
           | Some ErrServerTimeout \<Rightarrow> ReasonUnreachable
           | Some ErrServiceUnavailable \<Rightarrow> ReasonUnreachable
           | Some ErrNet \<Rightarrow> ReasonUnreachable
           | Some ErrDNS \<Rightarrow> ReasonUnreachable
           | _ \<Rightarrow> ReasonUnreachable))"

section \<open>Facts\<close>

lemma map_of_foldl_update:
  "map_of (foldl (\<lambda>m (k, v). AList.update k v m) m0 ps) k =
     (case map_of (rev ps) k of None \<Rightarrow> map_of m0 k | Some v \<Rightarrow> Some v)"
  by (induction ps arbitrary: m0) (auto simp: update_conv map_add_def split: option.splits)

lemma map_of_apply_patch:
  "map_of (apply_patch have patch) k =
     (case map_of (rev patch) k of None \<Rightarrow> map_of have k | Some v \<Rightarrow> Some v)"
  by (simp add: apply_patch_def map_of_foldl_update)

lemma map_of_rev_distinct: "distinct (map fst ps) \<Longrightarrow> map_of (rev ps) = map_of ps"
  by (rule ext) (metis (no_types, lifting) distinct_rev map_of_is_SomeI map_of_eq_None_iff
      map_of_SomeD option.exhaust rev_map set_rev)

definition taint_key :: "Taint \<Rightarrow> string \<times> string" where
  "taint_key t = (tn_Key t, tn_Effect t)"

lemma merge_one_None: "merge_one w hs = None \<longleftrightarrow> taint_key w \<notin> taint_key ` set hs"
  by (induction hs) (auto simp: taint_key_def)

lemma merge_one_Some:
  assumes "merge_one w hs = Some (out, ch)"
  shows "map taint_key out = map taint_key hs"
    and "\<forall>t. taint_key t \<noteq> taint_key w \<longrightarrow> (t \<in> set out \<longleftrightarrow> t \<in> set hs)"
    and "\<exists>t \<in> set out. taint_key t = taint_key w \<and> tn_Value t = tn_Value w"
    and "\<not> ch \<Longrightarrow> out = hs"
  using assms
  by (induction hs arbitrary: out ch) (auto simp: taint_key_def split: if_splits)

text \<open>What \<^verbatim>\<open>mergeTaints\<close> keeps for a taint key no wanted taint has.\<close>

lemma merge_foldl_foreign:
  assumes "taint_key t \<notin> taint_key ` set want"
  shows "t \<in> set (fst (foldl merge_step st want)) \<longleftrightarrow> t \<in> set (fst st)"
  using assms
proof (induction want arbitrary: st)
  case (Cons w ws)
  then have "taint_key t \<noteq> taint_key w" by auto
  then have "t \<in> set (fst (merge_step st w)) \<longleftrightarrow> t \<in> set (fst st)"
    using merge_one_Some(2) [of w "fst st"] by (auto simp: merge_step_def split: option.splits)
  with Cons show ?case by simp
qed simp

lemma merge_step_has:
  "\<exists>t \<in> set (fst (merge_step st w)). taint_key t = taint_key w \<and> tn_Value t = tn_Value w"
  using merge_one_Some(3) [of w "fst st"] by (fastforce simp: merge_step_def split: option.splits)

lemma merge_foldl_has:
  assumes "distinct (map taint_key want)" and "w \<in> set want"
  shows "\<exists>t \<in> set (fst (foldl merge_step st want)). taint_key t = taint_key w \<and> tn_Value t = tn_Value w"
  using assms
proof (induction want arbitrary: st)
  case (Cons x ws)
  show ?case
  proof (cases "w = x")
    case True
    obtain t where t: "t \<in> set (fst (merge_step st w))" "taint_key t = taint_key w" "tn_Value t = tn_Value w"
      using merge_step_has by blast
    have "taint_key t \<notin> taint_key ` set ws"
      using t(2) True Cons.prems by auto
    with t True show ?thesis using merge_foldl_foreign [of t ws "merge_step st x"] by auto
  next
    case False
    with Cons show ?thesis by auto
  qed
qed simp

lemma merge_step_unchanged:
  "\<not> snd (merge_step st w) \<Longrightarrow> fst (merge_step st w) = fst st \<and> \<not> snd st"
  using merge_one_Some(4) [of w "fst st"] by (auto simp: merge_step_def split: option.splits)

lemma merge_foldl_unchanged:
  "\<not> snd (foldl merge_step st want) \<Longrightarrow> fst (foldl merge_step st want) = fst st \<and> \<not> snd st"
proof (induction want arbitrary: st)
  case (Cons w ws)
  then have "fst (foldl merge_step st (w # ws)) = fst (merge_step st w)" "\<not> snd (merge_step st w)"
    using Cons.IH [of "merge_step st w"] by simp_all
  then show ?case using merge_step_unchanged [of st w] by simp
qed simp

section \<open>Properties\<close>

text \<open>
  Liveness is denied only on evidence: \<^verbatim>\<open>kubeletLive\<close> reports a dead kubelet only when a Lease
  was read that was never held or whose last renewal is at least 90 seconds old, or, the Lease
  being unreadable, when the Node's Ready condition carries a heartbeat at least six minutes old.
  With no reading at all the kubelet counts as live, so an unknown never authorises a delete.
\<close>

theorem kubeletLive_dead_evidence:
  assumes "\<not> fst (kubeletLive lease node now)"
  shows "lease = Inr None \<or>
    (\<exists>renew. lease = Inr (Some renew) \<and> leaseGrace \<le> sub_time now renew) \<or>
    (\<exists>e c. lease = Inl e \<and> c \<in> set (nd_Conditions node) \<and> nc_Type c = NodeReady \<and>
       nc_LastHeartbeatTime c \<noteq> 0 \<and> nodeStatusGrace \<le> sub_time now (nc_LastHeartbeatTime c))"
proof -
  have "\<exists>c \<in> set cs. nc_Type c = NodeReady \<and> nc_LastHeartbeatTime c \<noteq> 0 \<and>
      nodeStatusGrace \<le> sub_time now (nc_LastHeartbeatTime c)"
    if "\<not> fst (status_heartbeat now cs)" for cs
    using that by (induction cs) (auto split: if_splits)
  with assms show ?thesis
    by (auto simp: kubeletLive_def split: sum.splits option.splits)
qed

theorem kubeletLive_dead_evidence_witness:
  "\<not> fst (kubeletLive (Inr (Some 100)) \<lparr>nd_Name = ''p-0'', nd_Labels = [], nd_Annotations = [],
       nd_Conditions = [], nd_Unschedulable = False, nd_Taints = []\<rparr> (100 + 91 * Second)) \<and>
   leaseGrace \<le> sub_time (100 + 91 * Second) 100"
  using kubeletLive_dead_evidence [of "Inr (Some 100)"
      "\<lparr>nd_Name = ''p-0'', nd_Labels = [], nd_Annotations = [], nd_Conditions = [],
        nd_Unschedulable = False, nd_Taints = []\<rparr>" "100 + 91 * Second"]
  by (simp add: kubeletLive_def sub_time_def leaseGrace_def Second_def)

text \<open>
  Merging taints never removes or alters a foreign one, ensures every wanted one with its
  value, and reports no change exactly when it returns the Node's taints untouched, so a steady
  Node is not rewritten.
\<close>

theorem mergeTaints_correct:
  assumes "distinct (map taint_key want)"
  shows "(\<forall>t. taint_key t \<notin> taint_key ` set want \<longrightarrow>
            (t \<in> set (fst (mergeTaints have want)) \<longleftrightarrow> t \<in> set have)) \<and>
         (\<forall>w \<in> set want. \<exists>t \<in> set (fst (mergeTaints have want)).
            taint_key t = taint_key w \<and> tn_Value t = tn_Value w) \<and>
         (\<not> snd (mergeTaints have want) \<longrightarrow> fst (mergeTaints have want) = have)"
  using assms merge_foldl_foreign [of _ want "(have, False)"]
    merge_foldl_has [of want _ "(have, False)"] merge_foldl_unchanged [of "(have, False)" want]
  by (auto simp: mergeTaints_def)

theorem mergeTaints_correct_witness:
  "mergeTaints [\<lparr>tn_Key = ''drain'', tn_Value = ''x'', tn_Effect = ''NoSchedule''\<rparr>]
     [\<lparr>tn_Key = ''gpu'', tn_Value = ''y'', tn_Effect = ''NoSchedule''\<rparr>] =
   ([\<lparr>tn_Key = ''drain'', tn_Value = ''x'', tn_Effect = ''NoSchedule''\<rparr>,
     \<lparr>tn_Key = ''gpu'', tn_Value = ''y'', tn_Effect = ''NoSchedule''\<rparr>], True) \<and>
   (\<exists>t \<in> set (fst (mergeTaints [\<lparr>tn_Key = ''drain'', tn_Value = ''x'', tn_Effect = ''NoSchedule''\<rparr>]
     [\<lparr>tn_Key = ''gpu'', tn_Value = ''y'', tn_Effect = ''NoSchedule''\<rparr>])). tn_Value t = ''y'')"
  using mergeTaints_correct [of "[\<lparr>tn_Key = ''gpu'', tn_Value = ''y'', tn_Effect = ''NoSchedule''\<rparr>]"
      "[\<lparr>tn_Key = ''drain'', tn_Value = ''x'', tn_Effect = ''NoSchedule''\<rparr>]"]
  by (simp add: mergeTaints_def merge_step_def)

text \<open>
  Patching a Node with what \<^verbatim>\<open>missingOrWrong\<close> returns makes every wanted key read as wanted
  and leaves every other key alone.
\<close>

theorem missingOrWrong_patch:
  assumes "distinct (map fst want)"
  shows "(\<forall>(k, v) \<in> set want. smap_get (apply_patch have (missingOrWrong have want)) k = v) \<and>
         (\<forall>k. k \<notin> fst ` set want \<longrightarrow>
            map_of (apply_patch have (missingOrWrong have want)) k = map_of have k)"
proof -
  let ?p = "missingOrWrong have want"
  have d: "distinct (map fst ?p)"
    using assms by (simp add: missingOrWrong_def distinct_map_filter)
  have look: "map_of (apply_patch have ?p) k =
      (case map_of ?p k of None \<Rightarrow> map_of have k | Some v \<Rightarrow> Some v)" for k
    using d by (simp add: map_of_apply_patch map_of_rev_distinct)
  have want: "map_of ?p k = (if smap_get have k \<noteq> v then Some v else None)" if "(k, v) \<in> set want" for k v
  proof (cases "smap_get have k \<noteq> v")
    case True
    with that d show ?thesis by (auto simp: missingOrWrong_def intro!: map_of_is_SomeI)
  next
    case False
    then have "k \<notin> fst ` set ?p"
      using that assms by (auto simp: missingOrWrong_def dest: eq_key_imp_eq_value)
    with False show ?thesis by (simp add: map_of_eq_None_iff)
  qed
  have "smap_get (apply_patch have ?p) k = v" if "(k, v) \<in> set want" for k v
    using want [OF that] look [of k] by (auto simp: smap_get_def split: option.splits if_splits)
  moreover have "map_of (apply_patch have ?p) k = map_of have k" if "k \<notin> fst ` set want" for k
  proof -
    have "k \<notin> fst ` set ?p" using that by (auto simp: missingOrWrong_def)
    then have "map_of ?p k = None" by (simp add: map_of_eq_None_iff)
    with look show ?thesis by simp
  qed
  ultimately show ?thesis by auto
qed

theorem missingOrWrong_patch_witness:
  "smap_get (apply_patch [(''a'', ''1'')] (missingOrWrong [(''a'', ''1'')] [(''gpu'', ''on'')])) ''gpu'' = ''on''"
  using missingOrWrong_patch [of "[(''gpu'', ''on'')]" "[(''a'', ''1'')]"] by simp

text \<open>
  A wanted label with an empty value is never applied to a Node that lacks it: the lookup of
  an absent key reads as the empty string, so the label counts as present, nothing is patched and
  the Node still lacks the key.
\<close>

theorem missingOrWrong_empty_value:
  assumes "map_of have k = None"
  shows "missingOrWrong have [(k, [])] = [] \<and>
         map_of (apply_patch have (missingOrWrong have [(k, [])])) k = None"
  using assms by (simp add: missingOrWrong_def apply_patch_def smap_get_def)

theorem missingOrWrong_empty_value_witness:
  "missingOrWrong [] [(''node-role.kubernetes.io/gpu'', [])] = [] \<and>
   map_of (apply_patch [] (missingOrWrong [] [(''node-role.kubernetes.io/gpu'', [])]))
     ''node-role.kubernetes.io/gpu'' = None"
  by (rule missingOrWrong_empty_value) simp

end
