(* ===== verification/Fsm.thy ===== *)
theory Fsm
  imports Provisioner Capacity Workload
begin

text \<open>
  The per-cell state machine of \<^verbatim>\<open>internal/controller/fsm.go\<close>: \<open>AdvanceCell\<close> computes a cell's next
  phase from one observation of both clusters, \<open>AdvanceDrain\<close> decides whether a draining cell may
  be removed. The lemmas state the rules the file opens with: doubt freezes a cell, a regression
  is not a failure, Ready needs both layers and the GPU, and a wait past its budget is loud.
\<close>

section \<open>Decimal formatting\<close>

function itoa_loop :: "goint \<Rightarrow> string \<Rightarrow> string" where
  "itoa_loop i b = (if 0 < i then itoa_loop (i div 10) (digit (nat (i mod 10)) # b) else b)"
  by pat_completeness auto
termination by (relation "measure (\<lambda>(i, _). nat i)") auto

declare itoa_loop.simps [simp del]

definition itoa :: "goint \<Rightarrow> string" where
  "itoa i =
     (if i = 0 then ''0''
      else let neg = i < 0;
               i = (if neg then wrap64 (- i) else i);
               b = itoa_loop i []
           in if neg then CHR ''-'' # b else b)"

section \<open>Observations and decisions\<close>

record Observation =
  ob_Current :: CellPhase
  ob_LastTransition :: gotime
  ob_Now :: gotime
  ob_Outer :: OuterState
  ob_WorkloadReachable :: bool
  ob_Node :: NodeState
  ob_StaleNode :: bool
  ob_ProviderReady :: bool
  ob_CapacityDevices :: goint
  ob_ExpectedDevices :: goint
  ob_BootstrapTimeout :: duration
  ob_CapacityTimeout :: duration

record Decision =
  de_Phase :: CellPhase
  de_Reason :: string
  de_Message :: string
  de_ReapStaleNode :: bool

definition failed :: "string \<Rightarrow> string \<Rightarrow> Decision" where
  "failed reason msg =
     \<lparr>de_Phase = CellPhaseFailed,
      de_Reason = (if reason = [] then ReasonCellProvisionTimeout else reason),
      de_Message = msg, de_ReapStaleNode = False\<rparr>"

definition budget_spent :: "Observation \<Rightarrow> CellPhase \<Rightarrow> duration \<Rightarrow> bool" where
  \<comment> \<open>the condition of \<^verbatim>\<open>expireOr\<close>\<close>
  "budget_spent obs phase budget \<longleftrightarrow>
     0 < budget \<and> ob_Current obs = phase \<and> ob_LastTransition obs \<noteq> 0 \<and>
     budget < sub_time (ob_Now obs) (ob_LastTransition obs)"

definition expireOr :: "Observation \<Rightarrow> CellPhase \<Rightarrow> duration \<Rightarrow> string \<Rightarrow> string \<Rightarrow> Decision" where
  "expireOr obs phase budget reason msg =
     (if budget_spent obs phase budget
      then failed reason (msg @ '' (timed out after '' @ duration_string budget @ '')'')
      else \<lparr>de_Phase = phase, de_Reason = reason, de_Message = msg, de_ReapStaleNode = False\<rparr>)"

definition preflightMessage :: "Observation \<Rightarrow> string" where
  "preflightMessage obs =
     (if \<not> ob_ProviderReady obs
      then ''workload Node is Ready but the capacity provider is not usable yet''
      else let msg = ''workload Node is Ready but the capacity provider advertises '' @
                 itoa (ob_CapacityDevices obs) @ '' of '' @ itoa (ob_ExpectedDevices obs) @
                 '' expected GPU(s)''
           in case map_of (ns_Annotations (ob_Node obs)) AnnotationGPUPreflight of
                Some pf \<Rightarrow> if pf \<noteq> [] then msg @ ''; in-guest preflight reported '' @ pf else msg
              | None \<Rightarrow> msg)"

definition AdvanceCell :: "Observation \<Rightarrow> Decision" where
  "AdvanceCell obs =
     (if ob_Current obs = CellPhaseDraining \<or> ob_Current obs = CellPhaseDeleting then
        \<lparr>de_Phase = ob_Current obs, de_Reason = [], de_Message = [], de_ReapStaleNode = False\<rparr>
      else if \<not> ob_WorkloadReachable obs then
        (if os_Failed (ob_Outer obs)
         then failed (os_Reason (ob_Outer obs)) (os_Message (ob_Outer obs))
         else \<lparr>de_Phase = ob_Current obs, de_Reason = ReasonUnreachable,
               de_Message = ''workload cluster unreachable; cell state is frozen at its last observation'',
               de_ReapStaleNode = False\<rparr>)
      else if os_Failed (ob_Outer obs) then
        failed (os_Reason (ob_Outer obs)) (os_Message (ob_Outer obs))
      else if ob_Current obs = CellPhaseFailed then
        \<lparr>de_Phase = CellPhaseFailed, de_Reason = [], de_Message = [], de_ReapStaleNode = False\<rparr>
      else if \<not> os_Exists (ob_Outer obs) then
        \<lparr>de_Phase = CellPhasePending, de_Reason = [], de_Message = [], de_ReapStaleNode = False\<rparr>
      else if length (os_GPUDevices (ob_Outer obs)) = 0 then
        expireOr obs CellPhaseAllocatingGPU (ob_BootstrapTimeout obs) ReasonCellProvisionTimeout
          ''no GPU allocated for this cell yet (is a device free, and is vfio-pci loaded on a GPU node?)''
      else if \<not> os_Provisioned (ob_Outer obs) then
        (let running = os_Phase (ob_Outer obs) = ''Running'';
             phase = (if running then CellPhaseBooting else CellPhaseGuestProvisioning);
             msg = (if running
                    then ''VM is running; waiting for the node address '' @
                      ''(if this persists, check cell.nodeIPFrom names an interface the guest actually has)''
                    else ''waiting for the VM to run'')
         in expireOr obs phase (ob_BootstrapTimeout obs) ReasonCellProvisionTimeout msg)
      else if ob_StaleNode obs then
        \<lparr>de_Phase = CellPhaseJoining, de_Reason = ReasonNodeNameCollision,
         de_Message = ''a workload Node left by a previous incarnation of this cell (no kubelet heartbeat) is being removed before the replacement joins'',
         de_ReapStaleNode = True\<rparr>
      else if \<not> ns_Exists (ob_Node obs) \<or> \<not> ns_Ready (ob_Node obs) then
        (let msg = (if ns_Exists (ob_Node obs) then ''workload Node registered but not Ready''
                    else ''waiting for the workload Node to register'');
             reason = (if ns_Exists (ob_Node obs) then ReasonJoinTimeout else ReasonNodeNeverRegistered)
         in expireOr obs CellPhaseJoining (ob_BootstrapTimeout obs) reason msg)
      else if \<not> ob_ProviderReady obs \<or> ob_CapacityDevices obs < ob_ExpectedDevices obs then
        expireOr obs CellPhaseAwaitingGPUCapacity (ob_CapacityTimeout obs) ReasonGPUNotAdvertised
          (preflightMessage obs)
      else
        \<lparr>de_Phase = CellPhaseReady, de_Reason = [], de_Message = [], de_ReapStaleNode = False\<rparr>)"

section \<open>Draining\<close>

record DrainDecision =
  dd_Proceed :: bool
  dd_Reason :: string
  dd_Message :: string

definition AdvanceDrain ::
  "Allocations \<Rightarrow> bool \<Rightarrow> bool \<Rightarrow> bool \<Rightarrow> gotime \<Rightarrow> gotime \<Rightarrow> duration \<Rightarrow> DrainDecision" where
  "AdvanceDrain allocs allocsKnown poolDeleting force drainingSince now drainTimeout =
     (if force \<and> poolDeleting then
        \<lparr>dd_Proceed = True, dd_Reason = ReasonCellDraining,
         dd_Message = ''deletion policy Force: removing the cell without draining''\<rparr>
      else if allocsKnown \<and> Empty allocs then
        \<lparr>dd_Proceed = True, dd_Reason = ReasonCellDraining,
         dd_Message = ''no workloads hold this cell's GPU''\<rparr>
      else
        let msg = (if allocsKnown
                   then itoa (al_Consumers allocs) @ '' workload(s) still hold this cell's GPU'' @
                     (if al_InFlight allocs then '' (a binding is in flight)'' else [])
                   else ''cannot read allocations from the workload cluster; not removing the cell'')
        in if poolDeleting \<and> 0 < drainTimeout \<and> drainingSince \<noteq> 0 \<and>
              drainTimeout < sub_time now drainingSince
           then \<lparr>dd_Proceed = True, dd_Reason = ReasonDrainTimedOut,
                 dd_Message = msg @ ''; drain timed out on pool deletion, proceeding anyway''\<rparr>
           else \<lparr>dd_Proceed = False, dd_Reason = ReasonWaitingForAllocations, dd_Message = msg\<rparr>)"

section \<open>The ladder a cell climbs\<close>

text \<open>
  The specification of a cell's phase: each rung is a phase and what must hold to leave it, and a
  cell observed in both clusters is on the first rung it cannot leave. \<open>rung_budget\<close> is how long
  it may stay there; Pending, and the wait for a stale Node to go, have no budget.
\<close>

definition ladder :: "Observation \<Rightarrow> (CellPhase \<times> bool) list" where
  "ladder obs =
     [(CellPhasePending, os_Exists (ob_Outer obs)),
      (CellPhaseAllocatingGPU, os_GPUDevices (ob_Outer obs) \<noteq> []),
      (CellPhaseGuestProvisioning, os_Provisioned (ob_Outer obs) \<or> os_Phase (ob_Outer obs) = ''Running''),
      (CellPhaseBooting, os_Provisioned (ob_Outer obs)),
      (CellPhaseJoining, \<not> ob_StaleNode obs \<and> ns_Exists (ob_Node obs) \<and> ns_Ready (ob_Node obs)),
      (CellPhaseAwaitingGPUCapacity,
         ob_ProviderReady obs \<and> ob_ExpectedDevices obs \<le> ob_CapacityDevices obs)]"

definition stage :: "Observation \<Rightarrow> CellPhase" where
  "stage obs = (case find (\<lambda>(p, ok). \<not> ok) (ladder obs) of Some (p, _) \<Rightarrow> p | None \<Rightarrow> CellPhaseReady)"

fun rung_budget :: "Observation \<Rightarrow> CellPhase \<Rightarrow> duration" where
  "rung_budget obs CellPhaseAllocatingGPU = ob_BootstrapTimeout obs"
| "rung_budget obs CellPhaseGuestProvisioning = ob_BootstrapTimeout obs"
| "rung_budget obs CellPhaseBooting = ob_BootstrapTimeout obs"
| "rung_budget obs CellPhaseJoining = (if ob_StaleNode obs then 0 else ob_BootstrapTimeout obs)"
| "rung_budget obs CellPhaseAwaitingGPUCapacity = ob_CapacityTimeout obs"
| "rung_budget obs _ = 0"

definition overdue :: "Observation \<Rightarrow> bool" where
  \<comment> \<open>the cell was on its rung before, and entered it more than the rung's budget ago\<close>
  "overdue obs \<longleftrightarrow> ob_Current obs = stage obs \<and> ob_LastTransition obs \<noteq> 0 \<and> 0 < rung_budget obs (stage obs) \<and>
     ob_LastTransition obs + rung_budget obs (stage obs) < ob_Now obs"

fun rung_reason :: "Observation \<Rightarrow> CellPhase \<Rightarrow> string" where
  "rung_reason obs CellPhaseAllocatingGPU = ReasonCellProvisionTimeout"
| "rung_reason obs CellPhaseGuestProvisioning = ReasonCellProvisionTimeout"
| "rung_reason obs CellPhaseBooting = ReasonCellProvisionTimeout"
| "rung_reason obs CellPhaseJoining =
     (if ob_StaleNode obs then ReasonNodeNameCollision
      else if ns_Exists (ob_Node obs) then ReasonJoinTimeout else ReasonNodeNeverRegistered)"
| "rung_reason obs CellPhaseAwaitingGPUCapacity = ReasonGPUNotAdvertised"
| "rung_reason obs _ = []"

text \<open>The phase with the code's own test of the budget; \<open>budget_spent_overdue\<close> below says what that test means.\<close>

definition spec_phase :: "Observation \<Rightarrow> CellPhase" where
  "spec_phase obs =
     (if phase_leaving (ob_Current obs) then ob_Current obs
      else if os_Failed (ob_Outer obs) then CellPhaseFailed
      else if \<not> ob_WorkloadReachable obs \<or> ob_Current obs = CellPhaseFailed then ob_Current obs
      else if budget_spent obs (stage obs) (rung_budget obs (stage obs)) then CellPhaseFailed
      else stage obs)"

lemma stage_cases:
  "stage obs =
     (if \<not> os_Exists (ob_Outer obs) then CellPhasePending
      else if os_GPUDevices (ob_Outer obs) = [] then CellPhaseAllocatingGPU
      else if \<not> os_Provisioned (ob_Outer obs)
        then (if os_Phase (ob_Outer obs) = ''Running'' then CellPhaseBooting else CellPhaseGuestProvisioning)
      else if ob_StaleNode obs \<or> \<not> ns_Exists (ob_Node obs) \<or> \<not> ns_Ready (ob_Node obs) then CellPhaseJoining
      else if \<not> ob_ProviderReady obs \<or> ob_CapacityDevices obs < ob_ExpectedDevices obs
        then CellPhaseAwaitingGPUCapacity
      else CellPhaseReady)"
  by (auto simp: stage_def ladder_def)

lemma budget_spent_zero [simp]: "\<not> budget_spent obs p 0"
  by (simp add: budget_spent_def)

lemma budget_spent_overdue:
  assumes "ob_BootstrapTimeout obs < 9223372036854775807" and "ob_CapacityTimeout obs < 9223372036854775807"
  shows "budget_spent obs (stage obs) (rung_budget obs (stage obs)) \<longleftrightarrow> overdue obs"
proof -
  have "rung_budget obs (stage obs) < 9223372036854775807"
    using assms by (cases "stage obs") simp_all
  then have "0 < rung_budget obs (stage obs) \<Longrightarrow>
      rung_budget obs (stage obs) < sub_time (ob_Now obs) (ob_LastTransition obs) \<longleftrightarrow>
      ob_LastTransition obs + rung_budget obs (stage obs) < ob_Now obs"
    using sub_time_le [of "rung_budget obs (stage obs)" "ob_Now obs" "ob_LastTransition obs"] by (auto simp: not_le [symmetric])
  then show ?thesis by (auto simp: budget_spent_def overdue_def)
qed

lemma failed_simps [simp]:
  "de_Phase (failed r m) = CellPhaseFailed" "\<not> de_ReapStaleNode (failed r m)"
  "de_Reason (failed r m) \<noteq> []"
  by (simp_all add: failed_def)

lemma expireOr_simps [simp]:
  "de_Phase (expireOr obs p b r m) = (if budget_spent obs p b then CellPhaseFailed else p)"
  "\<not> de_ReapStaleNode (expireOr obs p b r m)"
  "r \<noteq> [] \<Longrightarrow> de_Reason (expireOr obs p b r m) = r"
  by (simp_all add: expireOr_def failed_def)

lemma stage_le_Ready: "phase_rank (stage obs) \<le> phase_rank CellPhaseReady"
  by (simp add: stage_cases)

lemma stage_not_terminal: "stage obs \<noteq> CellPhaseFailed" "\<not> phase_leaving (stage obs)"
  by (simp_all add: stage_cases)

lemma AdvanceCell_phase: "de_Phase (AdvanceCell obs) = spec_phase obs"
  by (simp add: AdvanceCell_def spec_phase_def stage_cases phase_leaving_iff Let_def)

lemma AdvanceCell_reap:
  "de_ReapStaleNode (AdvanceCell obs) \<longleftrightarrow>
     ob_WorkloadReachable obs \<and> ob_StaleNode obs \<and> os_Exists (ob_Outer obs) \<and>
     os_GPUDevices (ob_Outer obs) \<noteq> [] \<and> os_Provisioned (ob_Outer obs) \<and>
     \<not> os_Failed (ob_Outer obs) \<and> ob_Current obs \<noteq> CellPhaseFailed \<and>
     \<not> phase_leaving (ob_Current obs)"
  by (simp add: AdvanceCell_def phase_leaving_iff Let_def)

section \<open>Decimal formatting agrees with \<^verbatim>\<open>strconv\<close>\<close>

lemma itoa_loop_digits: "itoa_loop i b = (if 0 < i then digits (nat i) @ b else b)"
proof (induction i b rule: itoa_loop.induct)
  case (1 i b)
  show ?case
  proof (cases "0 < i")
    case True
    have "digits (nat i) @ b = (if 0 < i div 10 then digits (nat i div 10) else []) @ digit (nat i mod 10) # b"
      using True by (subst digits.simps) (auto simp: nat_div_distrib)
    with 1 [OF True] True show ?thesis
      by (subst itoa_loop.simps) (auto simp: nat_div_distrib nat_mod_distrib)
  qed (simp add: itoa_loop.simps)
qed

lemma digits_0: "digits 0 = ''0''"
proof -
  have "char_of (48 :: nat) = CHR ''0''" by (simp add: char_of_eq_iff)
  then show ?thesis by (simp add: digits.simps digit_def)
qed

lemma itoa_FormatInt: "in_i64 i \<Longrightarrow> i \<noteq> - 9223372036854775808 \<Longrightarrow> itoa i = FormatInt i"
  by (simp add: itoa_def itoa_loop_digits FormatInt_def wrap64_id in_i64_def digits_0)

section \<open>Properties\<close>

text \<open>
  C4. \<^verbatim>\<open>AdvanceCell\<close> implements the ladder. The phase: a cell being torn down keeps its phase, a terminal
  outer failure is Failed at once, an unreachable workload cluster freezes the phase, Failed stays
  Failed, a cell that was already on the first rung whose requirement is not met and has been there
  longer than the rung's budget is Failed, and any other cell goes to that rung, up or down. The
  reason: the outer object's own for its failure, Unreachable in doubt, and the rung's both while
  waiting on it and on failing there. A stale Node is reaped exactly on the way to Joining.
\<close>

theorem AdvanceCell_refines_ladder:
  assumes "ob_BootstrapTimeout obs < 9223372036854775807" and "ob_CapacityTimeout obs < 9223372036854775807"
  shows "de_Phase (AdvanceCell obs) =
      (if ob_Current obs \<in> {CellPhaseDraining, CellPhaseDeleting} then ob_Current obs
       else if os_Failed (ob_Outer obs) then CellPhaseFailed
       else if \<not> ob_WorkloadReachable obs \<or> ob_Current obs = CellPhaseFailed then ob_Current obs
       else if overdue obs then CellPhaseFailed
       else stage obs) \<and>
    de_Reason (AdvanceCell obs) =
      (if ob_Current obs \<in> {CellPhaseDraining, CellPhaseDeleting} then []
       else if os_Failed (ob_Outer obs)
         then (if os_Reason (ob_Outer obs) = [] then ReasonCellProvisionTimeout else os_Reason (ob_Outer obs))
       else if \<not> ob_WorkloadReachable obs then ReasonUnreachable
       else if ob_Current obs = CellPhaseFailed then []
       else rung_reason obs (stage obs)) \<and>
    (de_ReapStaleNode (AdvanceCell obs) \<longleftrightarrow>
       ob_Current obs \<notin> {CellPhaseDraining, CellPhaseDeleting, CellPhaseFailed} \<and> \<not> os_Failed (ob_Outer obs) \<and>
       ob_WorkloadReachable obs \<and> stage obs = CellPhaseJoining \<and> ob_StaleNode obs)"
proof (intro conjI)
  have "budget_spent obs (stage obs) (rung_budget obs (stage obs)) \<longleftrightarrow> overdue obs"
    using budget_spent_overdue [OF assms] .
  then show "de_Phase (AdvanceCell obs) =
      (if ob_Current obs \<in> {CellPhaseDraining, CellPhaseDeleting} then ob_Current obs
       else if os_Failed (ob_Outer obs) then CellPhaseFailed
       else if \<not> ob_WorkloadReachable obs \<or> ob_Current obs = CellPhaseFailed then ob_Current obs
       else if overdue obs then CellPhaseFailed
       else stage obs)"
    by (simp add: AdvanceCell_phase spec_phase_def phase_leaving_iff)
  show "de_Reason (AdvanceCell obs) =
      (if ob_Current obs \<in> {CellPhaseDraining, CellPhaseDeleting} then []
       else if os_Failed (ob_Outer obs)
         then (if os_Reason (ob_Outer obs) = [] then ReasonCellProvisionTimeout else os_Reason (ob_Outer obs))
       else if \<not> ob_WorkloadReachable obs then ReasonUnreachable
       else if ob_Current obs = CellPhaseFailed then []
       else rung_reason obs (stage obs))"
    by (simp add: AdvanceCell_def stage_cases failed_def Let_def)
  show "de_ReapStaleNode (AdvanceCell obs) \<longleftrightarrow>
       ob_Current obs \<notin> {CellPhaseDraining, CellPhaseDeleting, CellPhaseFailed} \<and> \<not> os_Failed (ob_Outer obs) \<and>
       ob_WorkloadReachable obs \<and> stage obs = CellPhaseJoining \<and> ob_StaleNode obs"
    by (auto simp: AdvanceCell_reap stage_cases phase_leaving_iff)
qed

definition sample_obs :: Observation where
  "sample_obs = \<lparr>ob_Current = CellPhaseReady, ob_LastTransition = 1, ob_Now = 1 + 16 * Minute,
     ob_Outer = zero_OuterState\<lparr>os_Exists := True, os_Provisioned := True, os_GPUDevices := [''0000:01:00.0'']\<rparr>,
     ob_WorkloadReachable = True, ob_Node = zero_NodeState\<lparr>ns_Exists := True, ns_Ready := True\<rparr>,
     ob_StaleNode = False, ob_ProviderReady = True, ob_CapacityDevices = 0, ob_ExpectedDevices = 1,
     ob_BootstrapTimeout = 15 * Minute, ob_CapacityTimeout = 5 * Minute\<rparr>"

theorem AdvanceCell_refines_ladder_witness:
  \<comment> \<open>a Ready cell whose GPU is no longer advertised goes back; the same cell, if it was waiting already, fails\<close>
  "de_Phase (AdvanceCell sample_obs) = CellPhaseAwaitingGPUCapacity \<and>
   de_Phase (AdvanceCell (sample_obs\<lparr>ob_Current := CellPhaseAwaitingGPUCapacity\<rparr>)) = CellPhaseFailed \<and>
   de_Reason (AdvanceCell (sample_obs\<lparr>ob_Current := CellPhaseAwaitingGPUCapacity\<rparr>)) = ReasonGPUNotAdvertised"
proof -
  have "stage sample_obs = CellPhaseAwaitingGPUCapacity" "\<not> overdue sample_obs"
    "stage (sample_obs\<lparr>ob_Current := CellPhaseAwaitingGPUCapacity\<rparr>) = CellPhaseAwaitingGPUCapacity"
    "overdue (sample_obs\<lparr>ob_Current := CellPhaseAwaitingGPUCapacity\<rparr>)"
    by code_simp+
  then show ?thesis
    using AdvanceCell_refines_ladder [of sample_obs]
      AdvanceCell_refines_ladder [of "sample_obs\<lparr>ob_Current := CellPhaseAwaitingGPUCapacity\<rparr>"]
    by (simp add: sample_obs_def zero_OuterState_def Minute_def Second_def)
qed

text \<open>
  Doubt freezes: while the workload cluster is unreachable and the outer object has not failed
  terminally, whatever else the observation says, the phase does not move and no Node is reaped.
\<close>

theorem AdvanceCell_doubt_freezes:
  assumes "\<not> ob_WorkloadReachable obs" and "\<not> os_Failed (ob_Outer obs)"
  shows "de_Phase (AdvanceCell obs) = ob_Current obs \<and> \<not> de_ReapStaleNode (AdvanceCell obs)"
  using assms by (simp add: AdvanceCell_phase AdvanceCell_reap spec_phase_def)

theorem AdvanceCell_doubt_freezes_witness:
  "\<not> ob_WorkloadReachable (sample_obs\<lparr>ob_WorkloadReachable := False\<rparr>) \<and>
   de_Phase (AdvanceCell (sample_obs\<lparr>ob_WorkloadReachable := False\<rparr>)) = CellPhaseReady"
  using AdvanceCell_doubt_freezes [of "sample_obs\<lparr>ob_WorkloadReachable := False\<rparr>"]
  by (simp add: sample_obs_def zero_OuterState_def)

text \<open>
  Ready needs both layers and the GPU: a cell is Ready exactly when the workload cluster was
  read and shows a VM that runs with a device and an address, no stale Node, a Ready Node, a
  usable provider and at least the expected devices, or when it was Ready and nothing could be
  read since; and never while the outer object has failed.
\<close>

theorem AdvanceCell_Ready_iff:
  "de_Phase (AdvanceCell obs) = CellPhaseReady \<longleftrightarrow>
     \<not> os_Failed (ob_Outer obs) \<and>
     (if ob_WorkloadReachable obs
      then ob_Current obs \<notin> {CellPhaseDraining, CellPhaseDeleting, CellPhaseFailed} \<and>
           os_Exists (ob_Outer obs) \<and> os_GPUDevices (ob_Outer obs) \<noteq> [] \<and> os_Provisioned (ob_Outer obs) \<and>
           \<not> ob_StaleNode obs \<and> ns_Exists (ob_Node obs) \<and> ns_Ready (ob_Node obs) \<and>
           ob_ProviderReady obs \<and> ob_ExpectedDevices obs \<le> ob_CapacityDevices obs
      else ob_Current obs = CellPhaseReady)"
  by (auto simp: AdvanceCell_phase spec_phase_def stage_cases phase_leaving_iff)

text \<open>
  Regression is not failure: a cell whose outer object has not failed becomes Failed from
  another phase only when the observation leaves it on the very rung it was already on, with a
  positive budget for that rung spent. So a Ready cell whose Node went NotReady, whose GPU is no
  longer advertised or whose VM restarts goes back to an earlier phase.
\<close>

theorem AdvanceCell_fails_only_on_budget:
  assumes "\<not> os_Failed (ob_Outer obs)" and "ob_Current obs \<noteq> CellPhaseFailed"
    and "de_Phase (AdvanceCell obs) = CellPhaseFailed"
  shows "ob_WorkloadReachable obs \<and> ob_Current obs = stage obs \<and>
    CellPhaseAllocatingGPU \<le> ob_Current obs \<and> ob_Current obs < CellPhaseReady \<and>
    0 < rung_budget obs (ob_Current obs) \<and>
    rung_budget obs (ob_Current obs) < ob_Now obs - ob_LastTransition obs"
proof -
  have spent: "budget_spent obs (stage obs) (rung_budget obs (stage obs))" "ob_WorkloadReachable obs"
    using assms stage_not_terminal(1) [of obs]
    by (auto simp: AdvanceCell_phase spec_phase_def split: if_splits)
  then have cur: "ob_Current obs = stage obs"
    by (simp add: budget_spent_def)
  have "rung_budget obs (stage obs) < ob_Now obs - ob_LastTransition obs"
    using spent by (auto simp: budget_spent_def sub_time_def)
  moreover have pos: "0 < rung_budget obs (stage obs)"
    using spent by (simp add: budget_spent_def)
  moreover have "CellPhaseAllocatingGPU \<le> stage obs \<and> stage obs < CellPhaseReady"
    using pos by (simp add: stage_cases less_eq_CellPhase_def less_CellPhase_def split: if_splits)
  ultimately show ?thesis using spent cur by simp
qed

theorem AdvanceCell_fails_only_on_budget_witness:
  "rung_budget (sample_obs\<lparr>ob_Current := CellPhaseAwaitingGPUCapacity\<rparr>) CellPhaseAwaitingGPUCapacity
     < 16 * Minute"
  using AdvanceCell_fails_only_on_budget [of "sample_obs\<lparr>ob_Current := CellPhaseAwaitingGPUCapacity\<rparr>"]
  by (simp add: sample_obs_def zero_OuterState_def zero_NodeState_def AdvanceCell_phase spec_phase_def
      stage_cases budget_spent_def sub_time_def Minute_def Second_def)

text \<open>
  No silent wait: a live cell that is read in the phase it already had, with a positive budget
  for that phase spent, does not keep the phase; if it can make no progress it is Failed, with a
  reason. Only a wait on a stale Node has no budget.
\<close>

theorem AdvanceCell_no_silent_wait:
  assumes "ob_WorkloadReachable obs" and "\<not> ob_StaleNode obs"
    and "CellPhaseAllocatingGPU \<le> ob_Current obs" and "ob_Current obs < CellPhaseReady"
    and "ob_LastTransition obs \<noteq> 0" and "0 < rung_budget obs (ob_Current obs)"
    and "rung_budget obs (ob_Current obs) < sub_time (ob_Now obs) (ob_LastTransition obs)"
  shows "de_Phase (AdvanceCell obs) \<noteq> ob_Current obs \<and>
    (de_Phase (AdvanceCell obs) = CellPhaseFailed \<longrightarrow> de_Reason (AdvanceCell obs) \<noteq> [])"
proof
  have cur: "\<not> phase_leaving (ob_Current obs)" "ob_Current obs \<noteq> CellPhaseFailed"
    using assms by (auto simp: less_CellPhase_def phase_leaving_iff)
  then show "de_Phase (AdvanceCell obs) \<noteq> ob_Current obs"
    using assms by (auto simp: AdvanceCell_phase spec_phase_def budget_spent_def)
  show "de_Phase (AdvanceCell obs) = CellPhaseFailed \<longrightarrow> de_Reason (AdvanceCell obs) \<noteq> []"
    using cur assms(1) by (simp add: AdvanceCell_def phase_leaving_iff Let_def)
qed

theorem AdvanceCell_no_silent_wait_witness:
  "de_Phase (AdvanceCell (sample_obs\<lparr>ob_Current := CellPhaseAwaitingGPUCapacity\<rparr>))
     \<noteq> CellPhaseAwaitingGPUCapacity"
  using AdvanceCell_no_silent_wait [of "sample_obs\<lparr>ob_Current := CellPhaseAwaitingGPUCapacity\<rparr>"]
  by (simp add: sample_obs_def less_eq_CellPhase_def less_CellPhase_def sub_time_def Minute_def Second_def)

text \<open>
  A Node is reaped only on evidence and only for a live replacement: the workload cluster was
  read, the Node was judged stale, and the cell that replaces it runs with a device and an address
  and is neither failed nor being torn down; in every such state the cell waits in Joining.
\<close>

theorem AdvanceCell_reap_evidence:
  "de_ReapStaleNode (AdvanceCell obs) \<longleftrightarrow>
     ob_WorkloadReachable obs \<and> ob_StaleNode obs \<and> \<not> os_Failed (ob_Outer obs) \<and>
     ob_Current obs \<notin> {CellPhaseDraining, CellPhaseDeleting, CellPhaseFailed} \<and>
     de_Phase (AdvanceCell obs) = CellPhaseJoining"
  by (auto simp: AdvanceCell_reap AdvanceCell_phase spec_phase_def stage_cases phase_leaving_iff
      split: if_splits)

text \<open>
  An automatic scale-down never destroys work: with the pool not being deleted, whatever the
  policy, the timeout and the time spent, a draining cell is removed exactly when its allocations
  were read and show no consumer and no binding in flight.
\<close>

theorem AdvanceDrain_never_forced:
  "dd_Proceed (AdvanceDrain allocs known False force since now timeout) \<longleftrightarrow>
     known \<and> al_Consumers allocs = 0 \<and> \<not> al_InFlight allocs"
  by (simp add: AdvanceDrain_def Empty_def Let_def)

text \<open>
  A deletion is bounded and says when it is rough: for a pool being deleted the cell goes
  exactly when the policy is Force, or its allocations were read empty, or a positive drain
  timeout has passed since a known start; and a removal with allocations held or unread is marked
  DrainTimedOut unless the policy is Force.
\<close>

theorem AdvanceDrain_deletion:
  "(dd_Proceed (AdvanceDrain allocs known True force since now timeout) \<longleftrightarrow>
      force \<or> (known \<and> Empty allocs) \<or> (0 < timeout \<and> since \<noteq> 0 \<and> timeout < sub_time now since)) \<and>
   (dd_Reason (AdvanceDrain allocs known True force since now timeout) = ReasonDrainTimedOut \<longleftrightarrow>
      dd_Proceed (AdvanceDrain allocs known True force since now timeout) \<and>
      \<not> force \<and> \<not> (known \<and> Empty allocs))"
  by (simp add: AdvanceDrain_def Let_def)

text \<open>
  \<^verbatim>\<open>itoa\<close> is decimal formatting for every \<^verbatim>\<open>int\<close> but the least, whose negation wraps to itself,
  so that the loop emits no digit and the result is a bare minus sign.
\<close>

theorem itoa_correct:
  assumes "in_i64 i"
  shows "itoa i = (if i = - 9223372036854775808 then ''-'' else FormatInt i)"
  using assms itoa_FormatInt [of i]
  by (auto simp: itoa_def itoa_loop_digits wrap64_def Let_def)

theorem itoa_correct_witness: "in_i64 (- 9223372036854775808) \<and> itoa (- 9223372036854775808) = ''-''"
  using itoa_correct [of "- 9223372036854775808"] by (simp add: in_i64_def)

end
