(* ===== verification/Membership.thy ===== *)
theory Membership
  imports Fsm CellId
begin

text \<open>
  Pool membership, \<^verbatim>\<open>internal/controller/membership.go\<close>: which cells to create and which to drain,
  the replacement backoff and the guards that stop a pool which cannot succeed. The loop that
  tallies the cells is a fold over the status rows; the create loop takes its indexes from the
  allocator of \<open>CellId\<close> through the \<open>index_allocator\<close> interface, and the scale-down loop its order
  from \<open>victim_order\<close>.
\<close>

section \<open>Constants and backoff\<close>

abbreviation DefaultMaxCreating :: goint where "DefaultMaxCreating \<equiv> 2"
abbreviation MaxFailuresPerIndex :: i32 where "MaxFailuresPerIndex \<equiv> 5"
abbreviation HopelessPoolFailures :: i32 where "HopelessPoolFailures \<equiv> 3"
abbreviation SuspectCredentialFailures :: goint where "SuspectCredentialFailures \<equiv> 2"

definition backoffBase :: duration where "backoffBase = 30 * Second"
definition backoffCap :: duration where "backoffCap = 30 * Minute"

text \<open>The loop runs \<open>failures - 1\<close> times at most, \<open>n\<close> being the rounds left.\<close>

fun backoff_loop :: "nat \<Rightarrow> duration \<Rightarrow> duration" where
  "backoff_loop 0 d = d"
| "backoff_loop (Suc n) d =
     (let d = wrap64 (d * 2) in if backoffCap \<le> d then backoffCap else backoff_loop n d)"

definition Backoff :: "i32 \<Rightarrow> duration" where
  "Backoff failures = (if failures \<le> 0 then 0 else backoff_loop (nat (failures - 1)) backoffBase)"

definition minDuration :: "duration \<Rightarrow> duration \<Rightarrow> duration" where
  "minDuration a b = (if a = 0 \<or> (0 < b \<and> b < a) then b else a)"

section \<open>Input and plan\<close>

record MembershipInput =
  mi_Desired :: i32
  mi_Cells :: "CellStatus list"
  mi_Now :: gotime
  mi_FreeGPUs :: "goint option"
  mi_MaxCreating :: goint
  mi_WorkloadReachable :: bool
  mi_EverReady :: bool
  mi_ProviderUsable :: bool
  mi_DrainPreference :: "string list"

record MembershipPlan =
  mp_Create :: "i32 list"
  mp_Drain :: "string list"
  mp_Stalled :: bool
  mp_Reason :: string
  mp_Message :: string
  mp_RequeueAfter :: duration

definition zero_MembershipPlan :: MembershipPlan where
  "zero_MembershipPlan = \<lparr>mp_Create = [], mp_Drain = [], mp_Stalled = False, mp_Reason = [],
     mp_Message = [], mp_RequeueAfter = 0\<rparr>"

section \<open>Guards on replacement\<close>

definition RebuildWouldNotHelp :: "CellStatus \<Rightarrow> bool \<Rightarrow> bool" where
  "RebuildWouldNotHelp c providerUsable \<longleftrightarrow>
     \<not> providerUsable \<and> cs_NodeReady c \<and> cs_CapacityDevices c = 0"

definition ShouldReplace :: "CellStatus \<Rightarrow> gotime \<Rightarrow> bool \<Rightarrow> bool" where
  "ShouldReplace c now providerUsable =
     (if cs_Phase c \<noteq> CellPhaseFailed then False
      else if MaxFailuresPerIndex \<le> cs_FailureCount c then False
      else if RebuildWouldNotHelp c providerUsable then False
      else case cs_LastTransitionTime c of
             None \<Rightarrow> True
           | Some t \<Rightarrow> Backoff (cs_FailureCount c) \<le> sub_time now t)"

fun suspectCredentialFailures :: "CellStatus list \<Rightarrow> goint" where
  "suspectCredentialFailures [] = 0"
| "suspectCredentialFailures (c # cs) =
     (if cs_ReadyOnce c then suspectCredentialFailures cs
      else if cs_Phase c = CellPhaseFailed \<and> cs_Reason c = ReasonNodeNeverRegistered
        then wrap64 (suspectCredentialFailures cs + 1)
      else suspectCredentialFailures cs)"

section \<open>Planning\<close>

text \<open>The variables \<^verbatim>\<open>PlanMembership\<close> accumulates over the cells.\<close>

record MemberTally =
  mt_used :: "i32 list"
  mt_inFlight :: goint
  mt_failed :: "CellStatus list"
  mt_live :: i32
  mt_totalFails :: i32

definition tally_step :: "CellStatus \<Rightarrow> MemberTally \<Rightarrow> MemberTally" where
  "tally_step c t =
     (let t = t\<lparr>mt_totalFails := wrap32 (mt_totalFails t + cs_FailureCount c)\<rparr> in
      case cs_Phase c of
        CellPhaseFailed \<Rightarrow>
          (let t = t\<lparr>mt_failed := mt_failed t @ [c]\<rparr> in
           if cs_GuestUID c \<noteq> []
           then t\<lparr>mt_used := mt_used t @ [cs_Index c], mt_live := wrap32 (mt_live t + 1)\<rparr>
           else t)
      | CellPhaseDraining \<Rightarrow> t\<lparr>mt_used := mt_used t @ [cs_Index c]\<rparr>
      | CellPhaseDeleting \<Rightarrow> t\<lparr>mt_used := mt_used t @ [cs_Index c]\<rparr>
      | CellPhaseReady \<Rightarrow>
          t\<lparr>mt_used := mt_used t @ [cs_Index c], mt_live := wrap32 (mt_live t + 1)\<rparr>
      | _ \<Rightarrow>
          t\<lparr>mt_used := mt_used t @ [cs_Index c], mt_live := wrap32 (mt_live t + 1),
            mt_inFlight := wrap64 (mt_inFlight t + 1)\<rparr>)"

definition tally :: "CellStatus list \<Rightarrow> MemberTally" where
  "tally cells = fold tally_step cells
     \<lparr>mt_used = [], mt_inFlight = 0, mt_failed = [], mt_live = 0, mt_totalFails = 0\<rparr>"

text \<open>
  Scale-down: the preference list first, then the highest indexes. The state of both loops is the
  drain list, the names still removable and how many cells are still to go.
\<close>

definition is_candidate :: "CellStatus \<Rightarrow> bool" where
  "is_candidate c \<longleftrightarrow> cs_Phase c \<notin> {CellPhaseDraining, CellPhaseDeleting, CellPhaseFailed}"

type_synonym drain_state = "string list \<times> (string \<Rightarrow> bool) \<times> goint"

fun drain_preferred :: "string list \<Rightarrow> drain_state \<Rightarrow> drain_state" where
  "drain_preferred [] st = st"
| "drain_preferred (name # names) (drain, removable, want) =
     (if want \<le> 0 then (drain, removable, want)
      else if removable name
        then drain_preferred names (drain @ [name], removable(name := False), want - 1)
      else drain_preferred names (drain, removable, want))"

fun drain_index :: "i32 \<Rightarrow> CellStatus list \<Rightarrow> drain_state \<Rightarrow> drain_state" where
  "drain_index idx [] st = st"
| "drain_index idx (c # cs) (drain, removable, want) =
     (if cs_Index c = idx \<and> removable (cs_Name c)
      then drain_index idx cs (drain @ [cs_Name c], removable(cs_Name c := False), want - 1)
      else drain_index idx cs (drain, removable, want))"

fun drain_highest :: "CellStatus list \<Rightarrow> i32 list \<Rightarrow> drain_state \<Rightarrow> drain_state" where
  "drain_highest cells [] st = st"
| "drain_highest cells (idx # idxs) (drain, removable, want) =
     (if want \<le> 0 then (drain, removable, want)
      else drain_highest cells idxs (drain_index idx cells (drain, removable, want)))"

definition plan_scale_down :: "MembershipInput \<Rightarrow> i32 \<Rightarrow> MembershipPlan" where
  "plan_scale_down inp live =
     (if \<not> mi_WorkloadReachable inp then
        zero_MembershipPlan\<lparr>mp_Stalled := True, mp_Reason := ReasonUnreachable,
          mp_Message := ''not scaling down while the workload cluster is unreachable''\<rparr>
      else
        let cand = filter is_candidate (mi_Cells inp);
            candidates = map cs_Index cand;
            removable = (\<lambda>n. n \<in> set (map cs_Name cand));
            want = wrap32 (live - mi_Desired inp);
            st = drain_preferred (mi_DrainPreference inp) ([], removable, want);
            st = (if 0 < snd (snd st)
                  then drain_highest (mi_Cells inp) (HighestIndexes candidates (int (length candidates))) st
                  else st)
        in zero_MembershipPlan\<lparr>mp_Drain := fst st\<rparr>)"

text \<open>
  The pass over the failed cells: \<open>Inl\<close> is a plan returned at once, \<open>Inr\<close> the plan to go on with.
\<close>

fun failed_pass :: "MembershipInput \<Rightarrow> CellStatus list \<Rightarrow> MembershipPlan \<Rightarrow> MembershipPlan + MembershipPlan" where
  "failed_pass inp [] plan = Inr plan"
| "failed_pass inp (c # cs) plan =
     (if RebuildWouldNotHelp c (mi_ProviderUsable inp) then
        Inl (plan\<lparr>mp_Stalled := True, mp_Reason := ReasonFaultNotInTheCell,
          mp_Message := ''not replacing cell '' @ cs_Name c @
            '': its Node joined and advertises no GPU, and no cell node advertises one '' @ em_dash @
            '' the fault is in the workload cluster, so a rebuilt VM would fail the same way. '' @
            ''Fix the capacity provider (see CapacityProviderReady) and the cell is replaced then''\<rparr>)
      else if MaxFailuresPerIndex \<le> cs_FailureCount c then
        Inl (plan\<lparr>mp_Stalled := True, mp_Reason := ReasonCellReplacementExhausted,
          mp_Message := ''cell '' @ cs_Name c @ '' has failed '' @ itoa (cs_FailureCount c) @
            '' times and will not be replaced again: '' @ cs_Message c\<rparr>)
      else
        let wait = Backoff (cs_FailureCount c);
            plan = (case cs_LastTransitionTime c of
                      None \<Rightarrow> plan
                    | Some t \<Rightarrow>
                        (let remaining = wrap64 (wait - sub_time (mi_Now inp) t)
                         in if 0 < remaining
                            then plan\<lparr>mp_RequeueAfter := minDuration (mp_RequeueAfter plan) remaining\<rparr>
                            else plan))
        in failed_pass inp cs plan)"

fun alloc_indexes :: "(i32 list \<Rightarrow> i32) \<Rightarrow> nat \<Rightarrow> i32 list \<Rightarrow> i32 list" where
  \<comment> \<open>the create loop over the allocator it calls\<close>
  "alloc_indexes lowest 0 used = []"
| "alloc_indexes lowest (Suc n) used =
     (let idx = lowest used in idx # alloc_indexes lowest n (used @ [idx]))"

definition plan_create :: "MembershipInput \<Rightarrow> MemberTally \<Rightarrow> MembershipPlan \<Rightarrow> MembershipPlan" where
  "plan_create inp t plan =
     (let want = wrap32 (mi_Desired inp - mt_live t);
          room = wrap64 (mi_MaxCreating inp - mt_inFlight t)
      in if room \<le> 0 then
           plan\<lparr>mp_Message := ''waiting for in-flight cells before creating more''\<rparr>
         else
           let want = (if room < want then room else want) in
           case mi_FreeGPUs inp of
             None \<Rightarrow> plan\<lparr>mp_Create := alloc_indexes LowestFreeIndex (nat want) (mt_used t)\<rparr>
           | Some free \<Rightarrow>
               if free \<le> 0 then
                 plan\<lparr>mp_Stalled := True, mp_Reason := ReasonInsufficientGPUs,
                   mp_Message := ''no free GPU in the infrastructure cluster; not creating a cell that could never be scheduled''\<rparr>
               else if free < want then
                 plan\<lparr>mp_Create := alloc_indexes LowestFreeIndex (nat free) (mt_used t),
                   mp_Reason := ReasonInsufficientGPUs,
                   mp_Message := ''only '' @ itoa free @ '' free GPU(s) available; creating what fits''\<rparr>
               else plan\<lparr>mp_Create := alloc_indexes LowestFreeIndex (nat want) (mt_used t)\<rparr>)"

definition PlanMembership :: "MembershipInput \<Rightarrow> MembershipPlan" where
  "PlanMembership inp0 =
     (let inp = (if mi_MaxCreating inp0 \<le> 0 then inp0\<lparr>mi_MaxCreating := DefaultMaxCreating\<rparr> else inp0);
          t = tally (mi_Cells inp)
      in if mi_Desired inp < mt_live t then plan_scale_down inp (mt_live t)
         else case failed_pass inp (mt_failed t) zero_MembershipPlan of
           Inl plan \<Rightarrow> plan
         | Inr plan \<Rightarrow>
             if mi_Desired inp \<le> mt_live t then plan
             else if \<not> mi_EverReady inp \<and> HopelessPoolFailures \<le> mt_totalFails t then
               plan\<lparr>mp_Stalled := True, mp_Reason := ReasonCellReplacementExhausted,
                 mp_Message := ''no cell in this pool has ever become Ready and '' @ itoa (mt_totalFails t) @
                   '' have failed; not creating more until the pool is changed''\<rparr>
             else if SuspectCredentialFailures \<le> suspectCredentialFailures (mi_Cells inp) then
               plan\<lparr>mp_Stalled := True, mp_Reason := ReasonBootstrapCredentialSuspect,
                 mp_Message := itoa (suspectCredentialFailures (mi_Cells inp)) @
                   '' cells in a row failed with no workload Node ever registering. '' @
                   ''The bootstrap credential in spec.bootstrap.joinSecretRef is the most likely cause '' @
                   em_dash @ '' it may have expired '' @ em_dash @
                   '' though a blocked route to the workload API server looks the same '' @
                   ''from here. This operator cannot validate the credential without using it, so it stops '' @
                   ''rather than keep spending a GPU boot per attempt. Refresh the join secret; the pool '' @
                   ''resumes as soon as any cell joins.''\<rparr>
             else if \<not> mi_WorkloadReachable inp then
               plan\<lparr>mp_Stalled := True, mp_Reason := ReasonUnreachable,
                 mp_Message := ''not creating cells while the workload cluster is unreachable''\<rparr>
             else plan_create inp t plan)"

section \<open>The tally\<close>

definition occupies :: "CellStatus \<Rightarrow> bool" where
  \<comment> \<open>the row holds its index: every row but a tombstone\<close>
  "occupies c \<longleftrightarrow> cs_Phase c \<noteq> CellPhaseFailed \<or> cs_GuestUID c \<noteq> []"

definition counts_live :: "CellStatus \<Rightarrow> bool" where
  "counts_live c \<longleftrightarrow> occupies c \<and> \<not> phase_leaving (cs_Phase c)"

definition in_flight :: "CellStatus \<Rightarrow> bool" where
  "in_flight c \<longleftrightarrow> is_candidate c \<and> cs_Phase c \<noteq> CellPhaseReady"

definition live_count :: "CellStatus list \<Rightarrow> int" where
  "live_count cells = int (length (filter counts_live cells))"

definition in_flight_count :: "CellStatus list \<Rightarrow> int" where
  "in_flight_count cells = int (length (filter in_flight cells))"

named_theorems cell_class \<open>the classes of status rows\<close>

lemmas cell_class_defs [cell_class] = occupies_def counts_live_def in_flight_def is_candidate_def phase_leaving_iff

lemma tally_step_simps:
  "mt_used (tally_step c t) = mt_used t @ (if occupies c then [cs_Index c] else [])"
  "mt_failed (tally_step c t) = mt_failed t @ (if cs_Phase c = CellPhaseFailed then [c] else [])"
  "mt_live (tally_step c t) = (if counts_live c then wrap32 (mt_live t + 1) else mt_live t)"
  "mt_inFlight (tally_step c t) = (if in_flight c then wrap64 (mt_inFlight t + 1) else mt_inFlight t)"
  "mt_totalFails (tally_step c t) = wrap32 (mt_totalFails t + cs_FailureCount c)"
  by (cases "cs_Phase c"; simp add: tally_step_def cell_class Let_def)+

lemma fold_tally_lists:
  "mt_used (fold tally_step cells t) = mt_used t @ map cs_Index (filter occupies cells)"
  "mt_failed (fold tally_step cells t) = mt_failed t @ filter (\<lambda>c. cs_Phase c = CellPhaseFailed) cells"
  by (induction cells arbitrary: t) (simp_all add: tally_step_simps)

lemma fold_tally_live:
  assumes "0 \<le> mt_live t" and "mt_live t + int (length cells) < 2147483648"
  shows "mt_live (fold tally_step cells t) = mt_live t + live_count cells"
  using assms
  by (induction cells arbitrary: t) (simp_all add: tally_step_simps live_count_def wrap32_id in_i32_def)

lemma fold_tally_inFlight:
  assumes "0 \<le> mt_inFlight t" and "mt_inFlight t + int (length cells) < 2147483648"
  shows "mt_inFlight (fold tally_step cells t) = mt_inFlight t + in_flight_count cells"
  using assms
  by (induction cells arbitrary: t) (simp_all add: tally_step_simps in_flight_count_def wrap64_id in_i64_def)

lemma fold_tally_totalFails:
  "in_i32 (mt_totalFails t) \<Longrightarrow>
   mt_totalFails (fold tally_step cells t) = wrap32 (mt_totalFails t + sum_list (map cs_FailureCount cells))"
  by (induction cells arbitrary: t)
    (simp_all add: tally_step_simps wrap32_id wrap32_range wrap32_wrap32 add.assoc)

lemma tally_simps:
  "mt_used (tally cells) = map cs_Index (filter occupies cells)"
  "mt_failed (tally cells) = filter (\<lambda>c. cs_Phase c = CellPhaseFailed) cells"
  "length cells < 2147483648 \<Longrightarrow> mt_live (tally cells) = live_count cells"
  "length cells < 2147483648 \<Longrightarrow> mt_inFlight (tally cells) = in_flight_count cells"
  "mt_totalFails (tally cells) = wrap32 (sum_list (map cs_FailureCount cells))"
  by (simp_all add: tally_def fold_tally_lists fold_tally_live fold_tally_inFlight fold_tally_totalFails
      in_i32_def)

lemma count_bounds:
  "0 \<le> live_count cells" "live_count cells \<le> int (length cells)"
  "0 \<le> in_flight_count cells" "in_flight_count cells \<le> int (length cells)"
  by (simp_all add: live_count_def in_flight_count_def)

section \<open>Backoff\<close>

lemma backoff_loop_eq:
  assumes "0 < d" and "d \<le> backoffCap"
  shows "backoff_loop n d = min backoffCap (d * 2 ^ n)"
  using assms
proof (induction n arbitrary: d)
  case (Suc n)
  have w: "wrap64 (d * 2) = d * 2"
    using Suc.prems by (intro wrap64_id) (simp add: in_i64_def backoffCap_def Minute_def Second_def)
  show ?case
  proof (cases "backoffCap \<le> d * 2")
    case True
    have "d * 2 \<le> d * 2 * 2 ^ n" using Suc.prems(1) by simp
    with True w show ?thesis by (simp add: Let_def min_def ac_simps)
  next
    case False
    with Suc w show ?thesis by (simp add: Let_def ac_simps)
  qed
qed simp

lemma Backoff_eq:
  "Backoff failures = (if failures \<le> 0 then 0 else min backoffCap (backoffBase * 2 ^ nat (failures - 1)))"
  by (simp add: Backoff_def backoff_loop_eq backoffBase_def backoffCap_def Minute_def Second_def)

section \<open>The create loop\<close>

context index_allocator
begin

lemma alloc_indexes_length [simp]: "length (alloc_indexes lowest n used) = n"
  by (induction n arbitrary: used) (simp_all add: Let_def)

lemma alloc_indexes_spec:
  assumes "length used + n < 2147483648"
  shows "distinct (alloc_indexes lowest n used) \<and>
    set (alloc_indexes lowest n used) \<inter> set used = {} \<and>
    (\<forall>i \<in> set (alloc_indexes lowest n used). 0 \<le> i \<and>
       (\<forall>j. 0 \<le> j \<longrightarrow> j < i \<longrightarrow> j \<in> set used \<union> set (alloc_indexes lowest n used)))"
  using assms
proof (induction n arbitrary: used)
  case (Suc n)
  let ?i = "lowest used" and ?rest = "alloc_indexes lowest n (used @ [lowest used])"
  have IH: "distinct ?rest" "set ?rest \<inter> set (used @ [?i]) = {}"
    "\<forall>i \<in> set ?rest. 0 \<le> i \<and> (\<forall>j. 0 \<le> j \<longrightarrow> j < i \<longrightarrow> j \<in> set (used @ [?i]) \<union> set ?rest)"
    using Suc.IH [of "used @ [?i]"] Suc.prems by simp_all
  have i: "?i \<notin> set used" "0 \<le> ?i" "\<forall>j. 0 \<le> j \<longrightarrow> j < ?i \<longrightarrow> j \<in> set used"
    using lowest_fresh [of used] lowest_nonneg [of used] lowest_least [of used] Suc.prems by auto
  have list: "alloc_indexes lowest (Suc n) used = ?i # ?rest"
    by (simp add: Let_def)
  show ?case unfolding list using IH i by auto
qed simp

lemma alloc_indexes_bound:
  assumes "length used + n < 2147483648"
  shows "\<forall>i \<in> set (alloc_indexes lowest n used). i < int (length used + n)"
  using assms
proof (induction n arbitrary: used)
  case (Suc n)
  then have "lowest used \<le> int (length used)" by (intro lowest_bound) simp
  with Suc.IH [of "used @ [lowest used]"] Suc.prems show ?case by (auto simp: Let_def)
qed simp

end

section \<open>The drain loops\<close>

text \<open>
  What the two loops compute: the removable names, preferred ones first and then by falling
  index, each once, as many as have to go.
\<close>

definition drain_order :: "MembershipInput \<Rightarrow> string list" where
  "drain_order inp =
     (let names = map cs_Name (filter is_candidate (mi_Cells inp));
          by_index = map cs_Name (rev (sort_key cs_Index (filter is_candidate (mi_Cells inp))))
      in firsts (filter (\<lambda>n. n \<in> set names) (mi_DrainPreference inp @ by_index)))"

lemma drain_preferred_spent: "want \<le> 0 \<Longrightarrow> drain_preferred names (d, r, want) = (d, r, want)"
  by (cases names) simp_all

lemma drain_preferred_append:
  "drain_preferred (xs @ ys) st = drain_preferred ys (drain_preferred xs st)"
proof (induction xs arbitrary: st)
  case (Cons x xs)
  obtain d r w where st: "st = (d, r, w)" by (cases st) auto
  show ?case unfolding st using Cons by (simp add: drain_preferred_spent)
qed simp

lemma drain_preferred_take:
  "fst (drain_preferred names (d, r, want)) = d @ take (nat want) (firsts (filter r names))"
proof (induction names arbitrary: d r want)
  case (Cons x xs)
  have del: "filter (r(x := False)) xs = filter (\<lambda>y. y \<noteq> x) (filter r xs)"
    by (induction xs) auto
  show ?case
  proof (cases "0 < want \<and> r x")
    case True
    then have "nat want = Suc (nat (want - 1))" by arith
    moreover have "fst (drain_preferred xs (d @ [x], r(x := False), want - 1)) =
        (d @ [x]) @ take (nat (want - 1)) (filter (\<lambda>y. y \<noteq> x) (firsts (filter r xs)))"
      using Cons [of "d @ [x]" "r(x := False)" "want - 1"] unfolding del firsts_filter .
    ultimately show ?thesis using True by simp
  next
    case False
    with Cons show ?thesis by auto
  qed
qed simp

lemma drain_index_absent: "idx \<notin> set (map cs_Index cells) \<Longrightarrow> drain_index idx cells st = st"
  by (induction cells arbitrary: st) (auto split: prod.splits)

lemma drain_index_unique:
  assumes "distinct (map cs_Index cells)" and "c \<in> set cells"
  shows "drain_index (cs_Index c) cells (d, r, w) =
    (if r (cs_Name c) then (d @ [cs_Name c], r(cs_Name c := False), w - 1) else (d, r, w))"
  using assms
proof (induction cells)
  case (Cons x xs)
  show ?case
  proof (cases "x = c")
    case True
    with Cons.prems drain_index_absent [of "cs_Index c" xs] show ?thesis by auto
  next
    case False
    with Cons have "cs_Index x \<noteq> cs_Index c" by auto
    with False Cons show ?thesis by auto
  qed
qed simp

lemma drain_highest_preferred:
  assumes "distinct (map cs_Index cells)" and "set cs \<subseteq> set cells"
  shows "drain_highest cells (map cs_Index cs) st = drain_preferred (map cs_Name cs) st"
  using assms(2)
proof (induction cs arbitrary: st)
  case (Cons c cs)
  obtain d r w where st: "st = (d, r, w)" by (cases st) auto
  show ?case unfolding st
    using Cons drain_index_unique [OF assms(1), of c] by simp
qed simp

lemma plan_scale_down_drain:
  assumes "distinct (map cs_Index (mi_Cells inp))" and "mi_WorkloadReachable inp"
  shows "mp_Drain (plan_scale_down inp live) = take (nat (wrap32 (live - mi_Desired inp))) (drain_order inp)"
proof -
  let ?cand = "filter is_candidate (mi_Cells inp)"
  let ?r = "\<lambda>n. n \<in> set (map cs_Name ?cand)" and ?w = "wrap32 (live - mi_Desired inp)"
  let ?by = "rev (sort_key cs_Index ?cand)"
  have hi: "HighestIndexes (map cs_Index ?cand) (int (length ?cand)) = map cs_Index ?by"
    using hi.highest_sort [of "map cs_Index ?cand"] by (simp add: sort_map_key rev_map)
  have hp: "drain_highest (mi_Cells inp) (map cs_Index ?by) st = drain_preferred (map cs_Name ?by) st" for st
    by (rule drain_highest_preferred [OF assms(1)]) auto
  have "mp_Drain (plan_scale_down inp live) =
      fst (drain_preferred (mi_DrainPreference inp @ map cs_Name ?by) ([], ?r, ?w))"
  proof -
    obtain d r w where st: "drain_preferred (mi_DrainPreference inp) ([], ?r, ?w) = (d, r, w)"
      by (cases "drain_preferred (mi_DrainPreference inp) ([], ?r, ?w)") auto
    then show ?thesis
      using assms(2)
      by (cases "0 < w")
        (simp_all add: plan_scale_down_def Let_def hi hp drain_preferred_append drain_preferred_spent
          zero_MembershipPlan_def)
  qed
  then show ?thesis
    by (simp only: drain_preferred_take drain_order_def Let_def append_Nil)
qed

lemma set_drain_order: "set (drain_order inp) = cs_Name ` set (filter is_candidate (mi_Cells inp))"
  by (auto simp: drain_order_def Let_def)

section \<open>The plan, branch by branch\<close>

definition normal_input :: "MembershipInput \<Rightarrow> MembershipInput" where
  "normal_input inp =
     (if mi_MaxCreating inp \<le> 0 then inp\<lparr>mi_MaxCreating := DefaultMaxCreating\<rparr> else inp)"

lemma normal_input_simps [simp]:
  "mi_Desired (normal_input inp) = mi_Desired inp" "mi_Cells (normal_input inp) = mi_Cells inp"
  "mi_Now (normal_input inp) = mi_Now inp" "mi_FreeGPUs (normal_input inp) = mi_FreeGPUs inp"
  "mi_WorkloadReachable (normal_input inp) = mi_WorkloadReachable inp"
  "mi_EverReady (normal_input inp) = mi_EverReady inp"
  "mi_ProviderUsable (normal_input inp) = mi_ProviderUsable inp"
  "mi_DrainPreference (normal_input inp) = mi_DrainPreference inp"
  "0 < mi_MaxCreating (normal_input inp)"
  by (simp_all add: normal_input_def)

text \<open>The sizes for which no counter of the plan wraps.\<close>

definition sane_input :: "MembershipInput \<Rightarrow> bool" where
  "sane_input inp \<longleftrightarrow> 0 \<le> mi_Desired inp \<and>
     int (length (mi_Cells inp)) + mi_Desired inp < 2147483648 \<and> in_i64 (mi_MaxCreating inp)"

text \<open>No failed row forbids going on.\<close>

definition failures_clear :: "MembershipInput \<Rightarrow> bool" where
  "failures_clear inp \<longleftrightarrow>
     list_all (\<lambda>c. cs_Phase c = CellPhaseFailed \<longrightarrow>
       \<not> RebuildWouldNotHelp c (mi_ProviderUsable inp) \<and> cs_FailureCount c < MaxFailuresPerIndex)
     (mi_Cells inp)"

definition may_create :: "MembershipInput \<Rightarrow> bool" where
  "may_create inp \<longleftrightarrow> mi_WorkloadReachable inp \<and> failures_clear inp \<and>
     (mi_EverReady inp \<or> wrap32 (sum_list (map cs_FailureCount (mi_Cells inp))) < HopelessPoolFailures) \<and>
     suspectCredentialFailures (mi_Cells inp) < SuspectCredentialFailures"

text \<open>How many cells a permitted create pass makes.\<close>

definition quota :: "MembershipInput \<Rightarrow> int" where
  "quota inp =
     (let want = min (mi_Desired inp - live_count (mi_Cells inp))
                     (mi_MaxCreating (normal_input inp) - in_flight_count (mi_Cells inp))
      in case mi_FreeGPUs inp of None \<Rightarrow> want | Some free \<Rightarrow> min want free)"

lemma failed_pass_frame:
  "failed_pass inp cs plan = Inl p \<or> failed_pass inp cs plan = Inr p \<Longrightarrow>
   mp_Create p = mp_Create plan \<and> mp_Drain p = mp_Drain plan"
proof (induction cs arbitrary: plan)
  case (Cons c cs)
  from Cons.prems show ?case
    by (auto simp: Let_def split: if_splits option.splits dest!: Cons.IH)
qed auto

lemma failed_pass_Inr_iff:
  "(\<exists>p. failed_pass inp cs plan = Inr p) \<longleftrightarrow>
   list_all (\<lambda>c. \<not> RebuildWouldNotHelp c (mi_ProviderUsable inp) \<and> cs_FailureCount c < MaxFailuresPerIndex) cs"
  by (induction cs arbitrary: plan) (auto simp: Let_def)

lemma failures_clear_iff:
  "failures_clear inp \<longleftrightarrow> (\<exists>p. failed_pass inp' (mt_failed (tally (mi_Cells inp))) plan = Inr p)"
  if "mi_ProviderUsable inp' = mi_ProviderUsable inp"
  using that by (auto simp: failures_clear_def failed_pass_Inr_iff tally_simps list_all_iff)

lemma PlanMembership_shrinks:
  assumes "sane_input inp" and "mi_Desired inp < live_count (mi_Cells inp)"
  shows "PlanMembership inp = plan_scale_down (normal_input inp) (live_count (mi_Cells inp))"
  using assms count_bounds [of "mi_Cells inp"]
  by (simp add: PlanMembership_def Let_def tally_simps sane_input_def flip: normal_input_def)

lemma plan_scale_down_Create: "mp_Create (plan_scale_down inp live) = []"
  by (simp add: plan_scale_down_def Let_def zero_MembershipPlan_def)

lemma plan_create_frame: "mp_Drain (plan_create inp t plan) = mp_Drain plan"
  by (simp add: plan_create_def Let_def split: option.split)

lemma plan_create_Create:
  assumes "mp_Create plan = []" and "mt_live t < mi_Desired inp" and "0 \<le> mt_live t"
    and "in_i32 (mi_Desired inp)" and "0 < mi_MaxCreating inp" and "in_i64 (mi_MaxCreating inp)"
    and "0 \<le> mt_inFlight t" and "mt_inFlight t < 2147483648"
  shows "mp_Create (plan_create inp t plan) =
    (let want = min (mi_Desired inp - mt_live t) (mi_MaxCreating inp - mt_inFlight t);
         q = (case mi_FreeGPUs inp of None \<Rightarrow> want | Some free \<Rightarrow> min want free)
     in alloc_indexes LowestFreeIndex (nat q) (mt_used t))"
proof -
  have w: "wrap32 (mi_Desired inp - mt_live t) = mi_Desired inp - mt_live t"
    "wrap64 (mi_MaxCreating inp - mt_inFlight t) = mi_MaxCreating inp - mt_inFlight t"
    using assms by (auto intro!: wrap32_id wrap64_id simp: in_i32_def in_i64_def)
  show ?thesis
    using assms(1) by (auto simp: plan_create_def w Let_def min_def split: option.split)
qed

lemma PlanMembership_grows:
  assumes "sane_input inp" and "\<not> mi_Desired inp < live_count (mi_Cells inp)"
  shows "mp_Create (PlanMembership inp) =
      (if live_count (mi_Cells inp) < mi_Desired inp \<and> may_create inp
       then alloc_indexes LowestFreeIndex (nat (quota inp)) (map cs_Index (filter occupies (mi_Cells inp)))
       else [])"
    and "mp_Drain (PlanMembership inp) = []"
proof -
  let ?t = "tally (mi_Cells inp)" and ?n = "normal_input inp"
  have len: "length (mi_Cells inp) < 2147483648" and dmax: "in_i32 (mi_Desired inp)" "in_i64 (mi_MaxCreating ?n)"
    using assms(1) by (auto simp: sane_input_def in_i32_def in_i64_def normal_input_def)
  have live: "mt_live ?t = live_count (mi_Cells inp)" and fl: "mt_inFlight ?t = in_flight_count (mi_Cells inp)"
    using len by (simp_all add: tally_simps)
  note bounds = count_bounds [of "mi_Cells inp"]
  have fp: "failures_clear inp \<longleftrightarrow> (\<exists>p. failed_pass ?n (mt_failed ?t) zero_MembershipPlan = Inr p)"
    by (rule failures_clear_iff) simp
  have frame: "mp_Create p = []" "mp_Drain p = []"
    if "failed_pass ?n (mt_failed ?t) zero_MembershipPlan = Inl p \<or>
        failed_pass ?n (mt_failed ?t) zero_MembershipPlan = Inr p" for p
    using failed_pass_frame [OF that] by (simp_all add: zero_MembershipPlan_def)
  have create: "mp_Create (plan_create ?n ?t p) =
      alloc_indexes LowestFreeIndex (nat (quota inp)) (map cs_Index (filter occupies (mi_Cells inp)))"
    if "mp_Create p = []" "live_count (mi_Cells inp) < mi_Desired inp" for p
    using plan_create_Create [of p ?t ?n] that bounds len dmax
    by (simp add: live fl quota_def tally_simps Let_def)
  show "mp_Create (PlanMembership inp) =
      (if live_count (mi_Cells inp) < mi_Desired inp \<and> may_create inp
       then alloc_indexes LowestFreeIndex (nat (quota inp)) (map cs_Index (filter occupies (mi_Cells inp)))
       else [])"
    using assms(2) fp frame
    by (cases "failed_pass ?n (mt_failed ?t) zero_MembershipPlan")
      (auto simp: PlanMembership_def Let_def live create may_create_def tally_simps simp flip: normal_input_def)
  show "mp_Drain (PlanMembership inp) = []"
    using assms(2) frame
    by (cases "failed_pass ?n (mt_failed ?t) zero_MembershipPlan")
      (auto simp: PlanMembership_def Let_def live plan_create_frame simp flip: normal_input_def)
qed

lemma PlanMembership_drains:
  assumes "sane_input inp" and "distinct (map cs_Index (mi_Cells inp))"
  shows "mp_Drain (PlanMembership inp) =
    (if mi_WorkloadReachable inp
     then take (nat (live_count (mi_Cells inp) - mi_Desired inp)) (drain_order inp) else [])"
proof (cases "mi_Desired inp < live_count (mi_Cells inp)")
  case True
  have "wrap32 (live_count (mi_Cells inp) - mi_Desired inp) = live_count (mi_Cells inp) - mi_Desired inp"
    using True assms(1) count_bounds(2) [of "mi_Cells inp"]
    by (intro wrap32_id) (auto simp: sane_input_def in_i32_def)
  moreover have "drain_order (normal_input inp) = drain_order inp"
    by (simp add: drain_order_def)
  ultimately show ?thesis
    using PlanMembership_shrinks [OF assms(1) True] assms(2)
      plan_scale_down_drain [of "normal_input inp" "live_count (mi_Cells inp)"]
    by (simp add: plan_scale_down_def zero_MembershipPlan_def)
next
  case False
  with PlanMembership_grows(2) [OF assms(1)] show ?thesis by simp
qed

lemma PlanMembership_Create_eq:
  assumes "sane_input inp"
  shows "mp_Create (PlanMembership inp) =
      (if live_count (mi_Cells inp) < mi_Desired inp \<and> may_create inp
       then alloc_indexes LowestFreeIndex (nat (quota inp)) (map cs_Index (filter occupies (mi_Cells inp)))
       else [])"
  using PlanMembership_grows(1) [OF assms] PlanMembership_shrinks [OF assms] plan_scale_down_Create
  by (cases "mi_Desired inp < live_count (mi_Cells inp)") auto

lemma quota_le: "quota inp \<le> mi_Desired inp - live_count (mi_Cells inp)"
  by (auto simp: quota_def Let_def split: option.split)

lemma create_room:
  assumes "sane_input inp"
  shows "length (map cs_Index (filter occupies (mi_Cells inp))) + nat (quota inp) < 2147483648"
proof -
  have "int (nat (quota inp)) \<le> mi_Desired inp"
    using assms quota_le [of inp] count_bounds(1) [of "mi_Cells inp"] by (simp add: sane_input_def)
  moreover have "length (filter occupies (mi_Cells inp)) \<le> length (mi_Cells inp)" by simp
  ultimately show ?thesis
    using assms unfolding sane_input_def length_map by linarith
qed

section \<open>Properties\<close>

definition sample_row :: "string \<Rightarrow> i32 \<Rightarrow> CellPhase \<Rightarrow> CellStatus" where
  "sample_row name idx phase = \<lparr>cs_Name = name, cs_Index = idx, cs_Phase = phase, cs_GuestUID = ''u'',
     cs_HostNode = [], cs_Devices = [], cs_NodeName = [], cs_NodeReady = False, cs_CapacityDevices = 0,
     cs_Message = [], cs_Reason = [], cs_FailureCount = 0, cs_ReadyOnce = False, cs_TemplateHash = [],
     cs_LastTransitionTime = Some 1\<rparr>"

definition sample_input :: "i32 \<Rightarrow> CellStatus list \<Rightarrow> MembershipInput" where
  "sample_input desired cells = \<lparr>mi_Desired = desired, mi_Cells = cells, mi_Now = 100,
     mi_FreeGPUs = Some 1, mi_MaxCreating = 0, mi_WorkloadReachable = True, mi_EverReady = True,
     mi_ProviderUsable = True, mi_DrainPreference = [''p-0'']\<rparr>"

lemmas sample_eval = sample_input_def sample_row_def sane_input_def in_i64_def live_count_def
  in_flight_count_def cell_class may_create_def failures_clear_def quota_def normal_input_def

text \<open>
  C5. The create half of the plan, on every branch. With more cells wanted than live, a reachable
  workload cluster and no guard in the way, exactly as many cells are created as are missing, fit
  the in-flight bound and have a free GPU; in every other state none is. A count of free GPUs that
  could not be read does not limit.
\<close>

theorem PlanMembership_create_count:
  assumes "sane_input inp"
  shows "int (length (mp_Create (PlanMembership inp))) =
    (if live_count (mi_Cells inp) < mi_Desired inp \<and> may_create inp then max 0 (quota inp) else 0)"
  using assms by (simp add: PlanMembership_Create_eq lfi.alloc_indexes_length)

theorem PlanMembership_create_count_witness:
  "sane_input (sample_input 3 [sample_row ''p-0'' 0 CellPhaseReady]) \<and>
   int (length (mp_Create (PlanMembership (sample_input 3 [sample_row ''p-0'' 0 CellPhaseReady])))) = 1"
  using PlanMembership_create_count [of "sample_input 3 [sample_row ''p-0'' 0 CellPhaseReady]"]
  by (simp add: sample_eval)

text \<open>
  Created indexes are fresh: each is a non-negative index no row that may still hold a guest
  has, no index is created twice, and below each every index is in use or created as well, so a
  pool fills its gaps first. The in-flight and free-GPU bounds and the desired size are never
  exceeded by what is created.
\<close>

theorem PlanMembership_create_fresh:
  assumes "sane_input inp"
  shows "distinct (mp_Create (PlanMembership inp)) \<and>
    (\<forall>i \<in> set (mp_Create (PlanMembership inp)). 0 \<le> i \<and>
       (\<forall>c \<in> set (mi_Cells inp). occupies c \<longrightarrow> cs_Index c \<noteq> i) \<and>
       (\<forall>j. 0 \<le> j \<longrightarrow> j < i \<longrightarrow> j \<in> set (mp_Create (PlanMembership inp)) \<or>
          (\<exists>c \<in> set (mi_Cells inp). occupies c \<and> cs_Index c = j)))"
proof (cases "mp_Create (PlanMembership inp) = []")
  case False
  let ?used = "map cs_Index (filter occupies (mi_Cells inp))"
  have eq: "mp_Create (PlanMembership inp) = alloc_indexes LowestFreeIndex (nat (quota inp)) ?used"
    using False PlanMembership_Create_eq [OF assms] by (auto split: if_splits)
  have "length ?used + nat (quota inp) < 2147483648"
    by (rule create_room [OF assms])
  then show ?thesis
    unfolding eq using lfi.alloc_indexes_spec [of ?used "nat (quota inp)"] by fastforce
qed simp

theorem PlanMembership_create_fresh_witness:
  "sane_input (sample_input 3 [sample_row ''p-1'' 1 CellPhaseReady]) \<and>
   distinct (mp_Create (PlanMembership (sample_input 3 [sample_row ''p-1'' 1 CellPhaseReady])))"
  using PlanMembership_create_fresh [of "sample_input 3 [sample_row ''p-1'' 1 CellPhaseReady]"]
  by (simp add: sample_eval)

text \<open>
  C7. The drain half of the plan: the two loops take, from the removable cells in the order
  "preferred first, then by falling index, each once", exactly as many as the pool has too many,
  and none at all while the workload cluster is unreachable.
\<close>

theorem PlanMembership_drain_refines:
  assumes "sane_input inp" and "distinct (map cs_Index (mi_Cells inp))"
  shows "mp_Drain (PlanMembership inp) =
    (if mi_WorkloadReachable inp
     then take (nat (live_count (mi_Cells inp) - mi_Desired inp)) (drain_order inp) else [])"
  using assms by (rule PlanMembership_drains)

theorem PlanMembership_drain_refines_witness:
  "sane_input (sample_input 1 [sample_row ''p-0'' 0 CellPhaseReady, sample_row ''p-1'' 1 CellPhaseReady]) \<and>
   mp_Drain (PlanMembership (sample_input 1
     [sample_row ''p-0'' 0 CellPhaseReady, sample_row ''p-1'' 1 CellPhaseReady])) = [''p-0'']"
  using PlanMembership_drain_refines
    [of "sample_input 1 [sample_row ''p-0'' 0 CellPhaseReady, sample_row ''p-1'' 1 CellPhaseReady]"]
  by (simp add: sample_eval drain_order_def)

text \<open>
  Shrinking stays inside the pool and its preference: only cells that are neither failed nor
  already leaving are drained, none twice, never in a plan that also creates, never below the
  desired size, and, as long as the preference names enough removable cells, no cell outside the
  preference.
\<close>

theorem PlanMembership_drain_safe:
  assumes "sane_input inp" and "distinct (map cs_Index (mi_Cells inp))"
  shows "set (mp_Drain (PlanMembership inp)) \<subseteq> cs_Name ` {c \<in> set (mi_Cells inp). is_candidate c} \<and>
    distinct (mp_Drain (PlanMembership inp)) \<and>
    int (length (mp_Drain (PlanMembership inp))) \<le> max 0 (live_count (mi_Cells inp) - mi_Desired inp) \<and>
    (mp_Drain (PlanMembership inp) = [] \<or> mp_Create (PlanMembership inp) = []) \<and>
    (live_count (mi_Cells inp) - mi_Desired inp \<le>
        int (card (set (mi_DrainPreference inp) \<inter> cs_Name ` {c \<in> set (mi_Cells inp). is_candidate c})) \<longrightarrow>
     set (mp_Drain (PlanMembership inp)) \<subseteq> set (mi_DrainPreference inp))"
proof -
  let ?n = "nat (live_count (mi_Cells inp) - mi_Desired inp)"
  let ?C = "cs_Name ` {c \<in> set (mi_Cells inp). is_candidate c}"
  note drain = PlanMembership_drains [OF assms]
  have "set (mp_Drain (PlanMembership inp)) \<subseteq> set (drain_order inp)"
    unfolding drain by (auto dest: in_set_takeD)
  then have sub: "set (mp_Drain (PlanMembership inp)) \<subseteq> ?C"
    by (simp add: set_drain_order)
  have dist: "distinct (mp_Drain (PlanMembership inp))"
    unfolding drain by (simp add: drain_order_def Let_def)
  have len: "int (length (mp_Drain (PlanMembership inp))) \<le> max 0 (live_count (mi_Cells inp) - mi_Desired inp)"
    unfolding drain by (auto simp: min_def max_def)
  have excl: "mp_Drain (PlanMembership inp) = [] \<or> mp_Create (PlanMembership inp) = []"
    using PlanMembership_grows(2) [OF assms(1)] PlanMembership_Create_eq [OF assms(1)] by force
  have pref: "set (mp_Drain (PlanMembership inp)) \<subseteq> set (mi_DrainPreference inp)"
    if enough: "live_count (mi_Cells inp) - mi_Desired inp \<le> int (card (set (mi_DrainPreference inp) \<inter> ?C))"
  proof -
    obtain ys where ys: "drain_order inp = firsts (filter (\<lambda>n. n \<in> ?C) (mi_DrainPreference inp)) @ ys"
      using firsts_append_prefix by (auto simp: drain_order_def Let_def)
    have "length (firsts (filter (\<lambda>n. n \<in> ?C) (mi_DrainPreference inp))) =
        card (set (mi_DrainPreference inp) \<inter> ?C)"
      by (subst distinct_card [symmetric]) (auto intro!: arg_cong [of _ _ card])
    with enough have "take ?n (drain_order inp) = take ?n (firsts (filter (\<lambda>n. n \<in> ?C) (mi_DrainPreference inp)))"
      by (simp add: ys)
    then show ?thesis unfolding drain using set_take_subset by fastforce
  qed
  show ?thesis using sub dist len excl pref by blast
qed

theorem PlanMembership_drain_safe_witness:
  "sane_input (sample_input 1 [sample_row ''p-0'' 0 CellPhaseReady, sample_row ''p-1'' 1 CellPhaseReady]) \<and>
   distinct (mp_Drain (PlanMembership (sample_input 1
     [sample_row ''p-0'' 0 CellPhaseReady, sample_row ''p-1'' 1 CellPhaseReady])))"
  using PlanMembership_drain_safe
    [of "sample_input 1 [sample_row ''p-0'' 0 CellPhaseReady, sample_row ''p-1'' 1 CellPhaseReady]"]
  by (simp add: sample_eval)

text \<open>
  The replacement backoff is 30 seconds doubled per failure up to 30 minutes, with no overflow
  for any failure count, and the loop ends for every count. In particular the fourth failure waits
  four minutes.
\<close>

theorem Backoff_closed_form:
  "Backoff failures =
     (if failures \<le> 0 then 0 else min (30 * Minute) (30 * Second * 2 ^ nat (failures - 1))) \<and>
   map Backoff [1, 2, 3, 4, 5] = [30 * Second, 1 * Minute, 2 * Minute, 4 * Minute, 8 * Minute]"
  by (simp add: Backoff_eq backoffBase_def backoffCap_def Minute_def Second_def)

lemma failed_pass_Inl_stalled: "failed_pass inp cs plan = Inl p \<Longrightarrow> mp_Stalled p"
  by (induction cs arbitrary: plan) (auto simp: Let_def split: if_splits option.splits)

text \<open>
  A pool that cannot succeed stalls loudly: one failed cell that has used up its replacements,
  or whose rebuild cannot help since no Node anywhere advertises a GPU, stops every creation of a
  pool that is not shrinking, the plan says so, and the cell itself is not replaced either.
\<close>

theorem PlanMembership_hopeless_stalls:
  assumes "sane_input inp" and "live_count (mi_Cells inp) \<le> mi_Desired inp"
    and "c \<in> set (mi_Cells inp)" and "cs_Phase c = CellPhaseFailed"
    and "MaxFailuresPerIndex \<le> cs_FailureCount c \<or> RebuildWouldNotHelp c (mi_ProviderUsable inp)"
  shows "mp_Stalled (PlanMembership inp) \<and> mp_Create (PlanMembership inp) = [] \<and>
    mp_Drain (PlanMembership inp) = [] \<and> \<not> ShouldReplace c now (mi_ProviderUsable inp)"
proof -
  let ?fp = "failed_pass (normal_input inp) (mt_failed (tally (mi_Cells inp))) zero_MembershipPlan"
  have clear: "\<not> failures_clear inp"
    using assms(3-5) by (auto simp: failures_clear_def list_all_iff)
  then obtain p where p: "?fp = Inl p"
    using failures_clear_iff [of "normal_input inp" inp zero_MembershipPlan] by (cases ?fp) auto
  have live: "mt_live (tally (mi_Cells inp)) = live_count (mi_Cells inp)"
    using assms(1) by (simp add: tally_simps sane_input_def)
  have "PlanMembership inp = p"
    using assms(2) p live by (simp add: PlanMembership_def Let_def flip: normal_input_def)
  moreover have "mp_Stalled p" "mp_Create p = []" "mp_Drain p = []"
    using failed_pass_Inl_stalled [OF p] failed_pass_frame [OF disjI1, OF p]
    by (simp_all add: zero_MembershipPlan_def)
  ultimately show ?thesis
    using assms(4,5) by (auto simp: ShouldReplace_def)
qed

theorem PlanMembership_hopeless_stalls_witness:
  "sane_input (sample_input 3 [sample_row ''p-0'' 0 CellPhaseFailed\<lparr>cs_FailureCount := 5\<rparr>]) \<and>
   mp_Stalled (PlanMembership (sample_input 3 [sample_row ''p-0'' 0 CellPhaseFailed\<lparr>cs_FailureCount := 5\<rparr>]))"
  using PlanMembership_hopeless_stalls
    [of "sample_input 3 [sample_row ''p-0'' 0 CellPhaseFailed\<lparr>cs_FailureCount := 5\<rparr>]"
        "sample_row ''p-0'' 0 CellPhaseFailed\<lparr>cs_FailureCount := 5\<rparr>"]
  by (simp add: sample_eval)

text \<open>
  A failed cell whose guest still exists is counted as live but is no candidate, so shrinking
  a pool by one beside such a cell drains a healthy Ready cell, and the failed one stays.
\<close>

theorem scale_down_drains_ready_beside_failed:
  "mp_Drain (PlanMembership (sample_input 1
     [sample_row ''p-0'' 0 CellPhaseReady, sample_row ''p-1'' 1 CellPhaseFailed])) = [''p-0'']"
  by (simp add: PlanMembership_drains sample_eval drain_order_def)

end
