(* ===== verification/Helpers.thy ===== *)
theory Helpers
  imports Membership
begin

text \<open>
  The readers of pool spec and status in \<^verbatim>\<open>internal/controller/helpers.go\<close> and the idleness scan of
  \<^verbatim>\<open>idle.go\<close>. A provider's \<^verbatim>\<open>Allocations\<close> call is an argument of \<open>idleCells\<close>.
\<close>

definition clientKey :: "GPUCellPool \<Rightarrow> string" where
  "clientKey pool = po_Namespace pool @ ''/'' @ wc_KubeconfigSecretRef (sp_WorkloadCluster (po_Spec pool))"

definition phaseOr :: "CellPhase \<Rightarrow> CellPhase \<Rightarrow> CellPhase" where
  "phaseOr p fallback = (if p = PhaseUnset then fallback else p)"

definition transitionOr :: "gotime option \<Rightarrow> gotime \<Rightarrow> gotime" where
  "transitionOr t fallback = (case t of None \<Rightarrow> fallback | Some x \<Rightarrow> x)"

definition durationOr :: "duration option \<Rightarrow> duration \<Rightarrow> duration" where
  "durationOr d fallback = (case d of None \<Rightarrow> fallback | Some x \<Rightarrow> if x = 0 then fallback else x)"

definition expectedDevices :: "GPUCellPool \<Rightarrow> goint" where
  "expectedDevices pool =
     (let by_count = (let c = gs_Count (ce_GPU (sp_Cell (po_Spec pool))) in if 0 < c then c else 1)
      in case cp_HAMi (sp_Capacity (po_Spec pool)) of
           None \<Rightarrow> by_count
         | Some h \<Rightarrow> (case hs_ExpectedDevicesPerCell h of None \<Rightarrow> by_count | Some n \<Rightarrow> n))"

definition hamiMode :: "GPUCellPool \<Rightarrow> string" where
  "hamiMode pool =
     (case cp_HAMi (sp_Capacity (po_Spec pool)) of
        None \<Rightarrow> HAMiModeDevicePlugin
      | Some h \<Rightarrow> if hs_Mode h \<noteq> [] then hs_Mode h else HAMiModeDevicePlugin)"

definition gpuBackend :: "GPUCellPool \<Rightarrow> string" where
  "gpuBackend pool =
     (let b = gs_Backend (ce_GPU (sp_Cell (po_Spec pool))) in if b \<noteq> [] then b else GPUBackendDRA)"

definition hamiDeviceClass :: "GPUCellPool \<Rightarrow> string" where
  "hamiDeviceClass pool =
     (case cp_HAMi (sp_Capacity (po_Spec pool)) of None \<Rightarrow> [] | Some h \<Rightarrow> hs_DeviceClassName h)"

definition providerName :: "GPUCellPool \<Rightarrow> string" where
  "providerName pool =
     (let p = cp_Provider (sp_Capacity (po_Spec pool)) in if p \<noteq> [] then p else CapacityProviderHAMi)"

definition deletionPolicy :: "GPUCellPool \<Rightarrow> string" where
  "deletionPolicy pool =
     (case sp_Deletion (po_Spec pool) of
        None \<Rightarrow> DeletionPolicyDrain
      | Some d \<Rightarrow> if dl_Policy d \<noteq> [] then dl_Policy d else DeletionPolicyDrain)"

definition drainTimeout :: "GPUCellPool \<Rightarrow> duration" where
  "drainTimeout pool =
     (case sp_Deletion (po_Spec pool) of
        None \<Rightarrow> 10 * Minute
      | Some d \<Rightarrow> durationOr (dl_DrainTimeout d) (10 * Minute))"

definition nodeLabels :: "GPUCellPool \<Rightarrow> smap" where
  "nodeLabels pool =
     (case wc_Node (sp_WorkloadCluster (po_Spec pool)) of None \<Rightarrow> [] | Some n \<Rightarrow> wn_Labels n)"

definition nodeAnnotations :: "GPUCellPool \<Rightarrow> smap" where
  "nodeAnnotations pool =
     (case wc_Node (sp_WorkloadCluster (po_Spec pool)) of None \<Rightarrow> [] | Some n \<Rightarrow> wn_Annotations n)"

definition nodeTaints :: "GPUCellPool \<Rightarrow> Taint list" where
  "nodeTaints pool =
     (case wc_Node (sp_WorkloadCluster (po_Spec pool)) of None \<Rightarrow> [] | Some n \<Rightarrow> wn_Taints n)"

definition everReady :: "GPUCellPool \<Rightarrow> CellStatus list \<Rightarrow> bool" where
  "everReady pool cells \<longleftrightarrow>
     list_ex (\<lambda>c. cs_Phase c = CellPhaseReady) cells \<or>
     list_ex (\<lambda>c. cn_Type c = ConditionReady \<and> cn_Reason c = ReasonAllCellsReady)
       (st_Conditions (po_Status pool)) \<or>
     0 < st_ReadyCells (po_Status pool)"

definition autoscalingEnabled :: "GPUCellPool \<Rightarrow> bool" where
  "autoscalingEnabled pool \<longleftrightarrow>
     (case sp_Autoscaling (po_Spec pool) of None \<Rightarrow> False | Some a \<Rightarrow> as_Enabled a)"

definition autoScaleDown :: "GPUCellPool \<Rightarrow> bool" where
  "autoScaleDown pool \<longleftrightarrow> autoscalingEnabled pool \<and>
     (case sp_Autoscaling (po_Spec pool) of None \<Rightarrow> False | Some a \<Rightarrow> as_ScaleDown a = ScaleDownAuto)"

definition rollingUpdate :: "GPUCellPool \<Rightarrow> bool" where
  "rollingUpdate pool \<longleftrightarrow>
     (case sp_UpdatePolicy (po_Spec pool) of None \<Rightarrow> False | Some u \<Rightarrow> up_Type u = UpdateRolling)"

definition needsIdleness :: "GPUCellPool \<Rightarrow> bool" where
  "needsIdleness pool \<longleftrightarrow> autoScaleDown pool \<or> rollingUpdate pool"

definition live_step :: "CellStatus \<Rightarrow> i32 \<Rightarrow> i32" where
  "live_step c n =
     (case cs_Phase c of
        CellPhaseDraining \<Rightarrow> n
      | CellPhaseDeleting \<Rightarrow> n
      | CellPhaseFailed \<Rightarrow> (if cs_GuestUID c \<noteq> [] then wrap32 (n + 1) else n)
      | _ \<Rightarrow> wrap32 (n + 1))"

definition liveCells :: "CellStatus list \<Rightarrow> i32" where
  "liveCells cells = fold live_step cells 0"

definition readyNodeNames :: "CellStatus list \<Rightarrow> string list" where
  "readyNodeNames cells = map cs_NodeName (filter (\<lambda>c. cs_NodeName c \<noteq> []) cells)"

definition capiOwnsBootstrap :: "GPUCellPool \<Rightarrow> bool" where
  "capiOwnsBootstrap pool \<longleftrightarrow>
     ce_Provisioner (sp_Cell (po_Spec pool)) = ProvisionerClusterAPI \<and>
     (case ce_ClusterAPI (sp_Cell (po_Spec pool)) of
        None \<Rightarrow> False
      | Some ca \<Rightarrow> ca_BootstrapConfigTemplateRef ca \<noteq> None)"

section \<open>Idle cells\<close>

fun idleCells :: "(string \<Rightarrow> Allocations result) \<Rightarrow> CellStatus list \<Rightarrow> string list" where
  "idleCells allocations [] = []"
| "idleCells allocations (c # cs) =
     (if cs_Phase c \<noteq> CellPhaseReady \<or> cs_NodeName c = [] then idleCells allocations cs
      else case allocations (cs_NodeName c) of
             Inl e \<Rightarrow> idleCells allocations cs
           | Inr a \<Rightarrow> if Empty a then cs_Name c # idleCells allocations cs else idleCells allocations cs)"

lemma idleCells_iff:
  "n \<in> set (idleCells allocations cells) \<longleftrightarrow>
     (\<exists>c \<in> set cells. cs_Name c = n \<and> cs_Phase c = CellPhaseReady \<and> cs_NodeName c \<noteq> [] \<and>
        (\<exists>a. allocations (cs_NodeName c) = Inr a \<and> Empty a))"
  by (induction cells) (auto split: sum.splits)

lemma idleCells_candidates:
  "set (idleCells allocations cells) \<subseteq> cs_Name ` {c \<in> set cells. is_candidate c}"
  by (auto simp: idleCells_iff is_candidate_def)

lemma live_step_counts: "live_step c n = (if counts_live c then wrap32 (n + 1) else n)"
  by (cases "cs_Phase c") (simp_all add: live_step_def cell_class)

text \<open>The scaler and the planner count the same cells.\<close>

lemma liveCells_live_count: "length cells < 2147483648 \<Longrightarrow> liveCells cells = live_count cells"
proof -
  have "0 \<le> n \<Longrightarrow> n + int (length cells) < 2147483648 \<Longrightarrow> fold live_step cells n = n + live_count cells" for n
    by (induction cells arbitrary: n) (simp_all add: live_step_counts live_count_def wrap32_id in_i32_def)
  from this [of 0] show "length cells < 2147483648 \<Longrightarrow> liveCells cells = live_count cells"
    by (simp add: liveCells_def)
qed

end
