(* ===== verification/Webhook.thy ===== *)
theory Webhook
  imports Template Helpers
begin

text \<open>
  The admission webhook, \<^verbatim>\<open>internal/webhook/v1alpha1/gpucellpool_validator.go\<close>. An error of
  apimachinery's field package is its kind, the path of the field and its detail; the offending
  value, a copy of the field, is kept only where the list of supported values needs it. Go ranges
  over the keys of the template in no fixed order; here they come in the order of the map.
\<close>

datatype field_error =
    FieldInvalid string string
  | FieldRequired string string
  | FieldForbidden string string
  | FieldNotSupported string string "string list"

definition child :: "string \<Rightarrow> string \<Rightarrow> string" where
  "child p name = p @ ''.'' @ name"

fun webhook_contains :: "string list \<Rightarrow> string \<Rightarrow> bool" where
  "webhook_contains [] needle = False"
| "webhook_contains (s # haystack) needle = (if s = needle then True else webhook_contains haystack needle)"

lemma webhook_contains_iff [simp]: "webhook_contains haystack needle \<longleftrightarrow> needle \<in> set haystack"
  by (induction haystack) auto

section \<open>The GPU block\<close>

definition validateGPU :: "string \<Rightarrow> CellGPUSpec \<Rightarrow> field_error list" where
  "validateGPU p gpu =
     (if gs_Count gpu \<noteq> 0 \<and> gs_Count gpu \<noteq> 1
      then [FieldInvalid (child p ''count'')
              ''only 1 GPU per cell is supported in v1alpha1 (multi-GPU cells need NVLink topology work)'']
      else []) @
     (let backend = (if gs_Backend gpu = [] then GPUBackendDRA else gs_Backend gpu) in
      if backend = GPUBackendDRA then
        (if gs_Native gpu \<noteq> None
         then [FieldForbidden (child p ''native'') ''set only one allocation backend: backend is DRA''] else []) @
        (case gs_DRA gpu of
           None \<Rightarrow> [FieldRequired (child p ''dra'') ''required when backend is DRA'']
         | Some dra \<Rightarrow>
             (let hasTemplate = gd_ResourceClaimTemplateName dra \<noteq> []; hasClaim = gd_ResourceClaimName dra \<noteq> [];
                  t = gd_Tier dra
              in (if hasTemplate = hasClaim
                  then [FieldInvalid (child p ''dra'') ''set exactly one of resourceClaimTemplateName or resourceClaimName'']
                  else []) @
                 (if t \<noteq> [] \<and> t \<noteq> ''pcie'' then [FieldNotSupported (child p ''dra.tier'') t [''pcie'']] else [])))
      else if backend = GPUBackendNative then
        (if gs_DRA gpu \<noteq> None
         then [FieldForbidden (child p ''dra'') ''set only one allocation backend: backend is Native''] else []) @
        (if (case gs_Native gpu of None \<Rightarrow> True | Some n \<Rightarrow> gn_GPUProfileRef n = [])
         then [FieldRequired (child p ''native.gpuProfileRef'') ''required when backend is Native''] else [])
      else [FieldNotSupported (child p ''backend'') backend [GPUBackendDRA, GPUBackendNative]])"

definition shared_claim_why :: string where
  "shared_claim_why = ''a named resourceClaimName is a single claim and a VFIO device backs one VM, '' @
     ''so more than one cell would double-book it; use resourceClaimTemplateName instead''"

definition validateSharedClaimIsSingleCell :: "string \<Rightarrow> GPUCellPool \<Rightarrow> field_error list" where
  "validateSharedClaimIsSingleCell p pool =
     (case gs_DRA (ce_GPU (sp_Cell (po_Spec pool))) of
        None \<Rightarrow> []
      | Some dra \<Rightarrow>
          if gd_ResourceClaimName dra = [] then []
          else
            (if 1 < sp_Replicas (po_Spec pool) then [FieldInvalid (child p ''replicas'') shared_claim_why] else []) @
            (case sp_Autoscaling (po_Spec pool) of
               None \<Rightarrow> []
             | Some as \<Rightarrow>
                 if as_Enabled as \<and> (case as_MaxReplicas as of None \<Rightarrow> False | Some m \<Rightarrow> 1 < m)
                 then [FieldInvalid (child p ''autoscaling.maxReplicas'') shared_claim_why] else []))"

section \<open>The provisioner and the template\<close>

definition capiExpressibleTemplateFields :: "string list" where
  "capiExpressibleTemplateFields = [''imageRef'', ''guestClassRef'', ''interfaces'']"

definition validate_capi :: "string \<Rightarrow> GPUCellPool \<Rightarrow> CellClusterAPISpec \<Rightarrow> field_error list" where
  \<comment> \<open>the checks once the provisioner is ClusterAPI and its block is there\<close>
  "validate_capi p pool capi =
     (case ca_BootstrapConfigTemplateRef capi of
        None \<Rightarrow> []
      | Some ref \<Rightarrow>
          if \<not> suffix ''Template'' (car_Kind ref)
          then [FieldInvalid (child p ''clusterAPI.bootstrapConfigTemplateRef.kind'')
                  (''must be a template kind ending in '' @ go_quote ''Template'' @ '', e.g. KubeadmConfigTemplate'')]
          else []) @
     (let raw = ce_GuestTemplate (sp_Cell (po_Spec pool)) in
      case (if 0 < length raw then Unmarshal decode_raw_map raw else Inr []) of
        Inl e \<Rightarrow> []
      | Inr tmpl \<Rightarrow>
          map (\<lambda>(f, v). FieldForbidden (child (child p ''guestTemplate'') f)
                 (''not expressible by a KubeSwiftMachine, so it would be silently dropped; '' @
                  ''provisioner ClusterAPI supports only '' @ join '', '' capiExpressibleTemplateFields))
            (filter (\<lambda>(f, v). \<not> webhook_contains capiExpressibleTemplateFields f) tmpl))"

definition validateProvisioner :: "string \<Rightarrow> GPUCellPool \<Rightarrow> field_error list" where
  "validateProvisioner p pool =
     (let given = ce_Provisioner (sp_Cell (po_Spec pool));
          name = (if given = [] then ProvisionerSwiftGuest else given);
          capi = ce_ClusterAPI (sp_Cell (po_Spec pool))
      in if name = ProvisionerSwiftGuest then
           (if capi \<noteq> None then [FieldForbidden (child p ''clusterAPI'') ''only valid with provisioner: ClusterAPI''] else [])
         else if name \<noteq> ProvisionerClusterAPI then
           [FieldNotSupported (child p ''provisioner'') name [ProvisionerSwiftGuest, ProvisionerClusterAPI]]
         else case capi of
           None \<Rightarrow> [FieldRequired (child p ''clusterAPI'')
                     (''required with provisioner: ClusterAPI '' @ em_dash @ '' cells must name the CAPI Cluster they join'')]
         | Some c \<Rightarrow> validate_capi p pool c)"

text \<open>
  Decoding the template into a struct that has only the interfaces' names. Keys match without regard
  to case and unknown keys are skipped; a null leaves a string as it is and empties a slice. A key
  that occurs twice is decoded twice, the second time into the slice of the first, whose elements
  are reused: \<open>backing\<close> are the elements the slice's array holds.
\<close>

fun decode_iface :: "json \<Rightarrow> string \<Rightarrow> string result" where
  "decode_iface JNull old = Inr old"
| "decode_iface (JObj kvs) old =
     fold_result (\<lambda>(k, v) s.
       if EqualFold k ''name'' then map_sum id (\<lambda>x. case x of None \<Rightarrow> s | Some n \<Rightarrow> n) (decode_string v) else Inr s) kvs old"
| "decode_iface _ old = Inl type_error"

fun decode_ifaces :: "json list \<Rightarrow> string list \<Rightarrow> string list result" where
  "decode_ifaces [] backing = Inr []"
| "decode_ifaces (v # vs) backing =
     (case decode_iface v (case backing of [] \<Rightarrow> [] | b # bs \<Rightarrow> b) of
        Inl e \<Rightarrow> Inl e
      | Inr n \<Rightarrow> map_sum id ((#) n) (decode_ifaces vs (tl backing)))"

definition decode_interfaces_field :: "string \<times> json \<Rightarrow> string list \<times> string list \<Rightarrow> (string list \<times> string list) result" where
  \<comment> \<open>the slice and the elements of its array\<close>
  "decode_interfaces_field kv s =
     (if \<not> EqualFold (fst kv) ''interfaces'' then Inr s
      else case snd kv of
        JNull \<Rightarrow> Inr ([], [])
      | JArr vs \<Rightarrow> if vs = [] then Inr ([], [])
                   else map_sum id (\<lambda>ns. (ns, ns @ drop (length vs) (snd s))) (decode_ifaces vs (snd s))
      | _ \<Rightarrow> Inl type_error)"

fun decode_interfaces :: "json \<Rightarrow> string list result" where
  "decode_interfaces JNull = Inr []"
| "decode_interfaces (JObj kvs) = map_sum id fst (fold_result decode_interfaces_field kvs ([], []))"
| "decode_interfaces _ = Inl type_error"

definition interfaceNames :: "string \<Rightarrow> string list result" where
  "interfaceNames raw =
     (case Unmarshal decode_interfaces raw of
        Inl e \<Rightarrow> Inl (Wrapped ''guestTemplate.interfaces is not a list of interfaces'' e)
      | Inr names \<Rightarrow> Inr (filter (\<lambda>n. n \<noteq> []) names))"

definition validateTemplate :: "string \<Rightarrow> GPUCellPool \<Rightarrow> field_error list" where
  "validateTemplate p pool =
     (let raw = ce_GuestTemplate (sp_Cell (po_Spec pool)); want = ce_NodeIPFrom (sp_Cell (po_Spec pool)) in
      case ValidateTemplate raw of
        Inl e \<Rightarrow> [FieldInvalid (child p ''guestTemplate'') (error_text e)]
      | Inr _ \<Rightarrow>
          if want = [] then []
          else (case interfaceNames raw of
                  Inl e \<Rightarrow> [FieldInvalid (child p ''guestTemplate.interfaces'') (error_text e)]
                | Inr names \<Rightarrow>
                    if length names = 0 then
                      [FieldInvalid (child p ''nodeIPFrom'') ''guestTemplate declares no interfaces, so this name cannot be resolved'']
                    else if \<not> webhook_contains names want then [FieldNotSupported (child p ''nodeIPFrom'') want names]
                    else []))"

section \<open>The other blocks\<close>

definition webhook_capiOwnsBootstrap :: "GPUCellPool \<Rightarrow> bool" where
  \<comment> \<open>the webhook's own copy of the reconciler's helper\<close>
  "webhook_capiOwnsBootstrap pool \<longleftrightarrow>
     ce_Provisioner (sp_Cell (po_Spec pool)) = ProvisionerClusterAPI \<and>
     ce_ClusterAPI (sp_Cell (po_Spec pool)) \<noteq> None \<and>
     ca_BootstrapConfigTemplateRef (the (ce_ClusterAPI (sp_Cell (po_Spec pool)))) \<noteq> None"

lemma webhook_capiOwnsBootstrap_agrees [simp]: "webhook_capiOwnsBootstrap pool = capiOwnsBootstrap pool"
  by (auto simp: webhook_capiOwnsBootstrap_def capiOwnsBootstrap_def split: option.splits)

definition validateBootstrap :: "string \<Rightarrow> GPUCellPool \<Rightarrow> field_error list" where
  "validateBootstrap p pool =
     (let b = sp_Bootstrap (po_Spec pool);
          provider = (if bs_Provider b = [] then BootstrapProviderOpaque else bs_Provider b);
          named = (case bs_JoinSecretRef b of None \<Rightarrow> False | Some n \<Rightarrow> n \<noteq> [])
      in if webhook_capiOwnsBootstrap pool then
           (if named
            then [FieldForbidden (child p ''joinSecretRef'')
                    (''unused when cell.clusterAPI.bootstrapConfigTemplateRef is set: '' @
                     ''the workload cluster's bootstrap provider supplies the join data'')]
            else [])
         else if provider = BootstrapProviderOpaque \<and> \<not> named
           then [FieldRequired (child p ''joinSecretRef'')
                   ''required for the Opaque provider: without it a cell boots with no cloud-init and never joins'']
         else [])"

definition validateWorkloadCluster :: "string \<Rightarrow> WorkloadClusterSpec \<Rightarrow> field_error list" where
  "validateWorkloadCluster p w =
     (if wc_KubeconfigSecretRef w = []
      then [FieldRequired (child p ''kubeconfigSecretRef.name'') ''a credential for the workload cluster is required''] else [])"

definition validateAutoscaling :: "string \<Rightarrow> GPUCellPool \<Rightarrow> field_error list" where
  "validateAutoscaling p pool =
     (case sp_Autoscaling (po_Spec pool) of
        None \<Rightarrow> []
      | Some as \<Rightarrow>
          if \<not> as_Enabled as then []
          else
            (if as_MaxReplicas as = None
             then [FieldRequired (child p ''maxReplicas'')
                     ''required when autoscaling is enabled: an unbounded pool can consume every GPU in the cluster'']
             else []) @
            (case (as_MinReplicas as, as_MaxReplicas as) of
               (Some mn, Some mx) \<Rightarrow>
                 if mx < mn then [FieldInvalid (child p ''minReplicas'') ''must not exceed maxReplicas''] else []
             | _ \<Rightarrow> []) @
            (if as_ScaleDown as = ScaleDownAuto \<and> as_MinReplicas as = None
             then [FieldRequired (child p ''minReplicas'')
                     (''required with scaleDown: Auto '' @ em_dash @ '' without a floor the pool can shrink to zero cells '' @
                      ''and every later request pays a full cell boot'')]
             else []))"

definition validateCapacity :: "string \<Rightarrow> CapacitySpec \<Rightarrow> field_error list" where
  "validateCapacity p c =
     (case cp_HAMi c of
        None \<Rightarrow> []
      | Some h \<Rightarrow>
          if hs_Mode h = HAMiModeDRA \<and> hs_DeviceClassName h = []
          then [FieldRequired (child p ''hami.deviceClassName'')
                  ''required in DRA mode: without it there is no way to find the ResourceSlices carrying capacity'']
          else [])"

fun reachable_in :: "Condition list \<Rightarrow> bool" where
  "reachable_in [] = True"
| "reachable_in (c # cs) =
     (if cn_Type c = ConditionWorkloadClusterReachable then cn_Status c = ''True'' else reachable_in cs)"

definition workloadReachable :: "GPUCellPool \<Rightarrow> bool" where
  "workloadReachable pool = reachable_in (st_Conditions (po_Status pool))"

section \<open>Admission\<close>

definition Validate :: "(string \<Rightarrow> string list) \<Rightarrow> GPUCellPool \<Rightarrow> GPUCellPool option \<Rightarrow> field_error list" where
  "Validate isDNS1123Subdomain pool old =
     (case ValidatePool isDNS1123Subdomain (po_Name pool) of
        Some err \<Rightarrow> [FieldInvalid ''metadata.name'' (pool_name_text err)] | None \<Rightarrow> []) @
     validateProvisioner ''spec.cell'' pool @
     validateGPU ''spec.cell.gpu'' (ce_GPU (sp_Cell (po_Spec pool))) @
     validateSharedClaimIsSingleCell ''spec'' pool @
     validateTemplate ''spec.cell'' pool @
     validateBootstrap ''spec.bootstrap'' pool @
     validateWorkloadCluster ''spec.workloadCluster'' (sp_WorkloadCluster (po_Spec pool)) @
     validateCapacity ''spec.capacity'' (sp_Capacity (po_Spec pool)) @
     validateAutoscaling ''spec.autoscaling'' pool @
     (case old of
        None \<Rightarrow> []
      | Some before \<Rightarrow>
          if sp_Replicas (po_Spec pool) < sp_Replicas (po_Spec before) \<and> \<not> workloadReachable before
          then [FieldForbidden ''spec.replicas''
                  (''cannot scale down while WorkloadClusterReachable is not True: '' @
                   ''cells cannot be drained without access to the workload cluster'')]
          else [])"

text \<open>The three methods of the webhook; \<open>Some\<close> error list is a refusal.\<close>

definition invalidOrNil :: "field_error list \<Rightarrow> field_error list option" where
  "invalidOrNil errs = (if length errs = 0 then None else Some errs)"

definition ValidateCreate :: "(string \<Rightarrow> string list) \<Rightarrow> GPUCellPool \<Rightarrow> field_error list option" where
  "ValidateCreate dns pool = invalidOrNil (Validate dns pool None)"

definition ValidateUpdate :: "(string \<Rightarrow> string list) \<Rightarrow> GPUCellPool \<Rightarrow> GPUCellPool \<Rightarrow> field_error list option" where
  "ValidateUpdate dns old pool = invalidOrNil (Validate dns pool (Some old))"

definition ValidateDelete :: "GPUCellPool \<Rightarrow> field_error list option" where
  "ValidateDelete pool = None"

end
