(* ===== verification/Scaling.thy ===== *)
theory Scaling
  imports Helpers
begin

text \<open>
  Demand-driven scaling, \<^verbatim>\<open>internal/controller/scaling.go\<close>: \<open>DecideScale\<close> computes the desired cell
  count and the cells that may go, \<open>CellShape\<close> and \<open>RememberShape\<close> the device a fresh cell would
  bring. A \<^verbatim>\<open>*metav1.Time\<close> is an optional time.
\<close>

record ScaleInput =
  si_Replicas :: i32
  si_Autoscaling :: "AutoscalingSpec option"
  si_LiveCells :: i32
  si_Demand :: Demand
  si_DemandKnown :: bool
  si_ShapeKnown :: bool
  si_FreeGPUs :: "goint option"
  si_IdleCells :: "string list"
  si_Now :: gotime
  si_LastScaleUp :: "gotime option"
  si_LastScaleDown :: "gotime option"
  si_DemandFreeSince :: "gotime option"

record ScaleDecision =
  sd_Desired :: i32
  sd_ScaledUp :: bool
  sd_ScaledDown :: bool
  sd_DrainCandidates :: "string list"
  sd_Reason :: string
  sd_Message :: string

definition hold_at :: "i32 \<Rightarrow> string \<Rightarrow> string \<Rightarrow> ScaleDecision" where
  "hold_at n reason msg = \<lparr>sd_Desired = n, sd_ScaledUp = False, sd_ScaledDown = False,
     sd_DrainCandidates = [], sd_Reason = reason, sd_Message = msg\<rparr>"

definition scaleDownWindow :: "AutoscalingSpec \<Rightarrow> duration" where
  "scaleDownWindow spec =
     (case as_ScaleDownStabilizationWindow spec of
        None \<Rightarrow> 30 * Minute
      | Some d \<Rightarrow> if 0 < d then d else 30 * Minute)"

definition within :: "gotime option \<Rightarrow> gotime \<Rightarrow> duration \<Rightarrow> bool" where
  "within t now window \<longleftrightarrow>
     (case t of None \<Rightarrow> False | Some x \<Rightarrow> \<not> IsZero t \<and> sub_time now x < window)"

definition stabilizing :: "AutoscalingSpec \<Rightarrow> gotime option \<Rightarrow> gotime \<Rightarrow> bool" where
  "stabilizing spec lastUp now =
     (case lastUp of
        None \<Rightarrow> False
      | Some x \<Rightarrow>
          if IsZero lastUp then False
          else let window = (case as_StabilizationWindow spec of
                               None \<Rightarrow> 10 * Minute
                             | Some d \<Rightarrow> if 0 < d then d else 10 * Minute)
               in sub_time now x < window)"

definition demand_free_for :: "ScaleInput \<Rightarrow> duration \<Rightarrow> bool" where
  \<comment> \<open>the negation of the first stabilization test of \<^verbatim>\<open>decideScaleDown\<close>\<close>
  "demand_free_for inp window \<longleftrightarrow>
     (case si_DemandFreeSince inp of
        None \<Rightarrow> False
      | Some x \<Rightarrow> \<not> IsZero (si_DemandFreeSince inp) \<and> \<not> sub_time (si_Now inp) x < window)"

definition decideScaleDown :: "ScaleInput \<Rightarrow> AutoscalingSpec \<Rightarrow> i32 \<Rightarrow> i32 \<Rightarrow> ScaleDecision" where
  "decideScaleDown inp spec base floor =
     (if as_ScaleDown spec \<noteq> ScaleDownAuto then hold_at base ReasonIdle []
      else if base \<le> floor then hold_at base ReasonAtMinReplicas []
      else if length (si_IdleCells inp) = 0 then
        hold_at base ReasonNoIdleCell ''demand is absent but every cell still holds workloads''
      else
        let window = scaleDownWindow spec in
        if \<not> demand_free_for inp window then
          hold_at base ReasonStabilizing
            (''waiting for demand to stay absent for '' @ duration_string window @ '' before removing a cell'')
        else if within (si_LastScaleDown inp) (si_Now inp) window \<or>
                within (si_LastScaleUp inp) (si_Now inp) window then
          hold_at base ReasonStabilizing ''waiting out the scale-down window after the last scaling action''
        else
          \<lparr>sd_Desired = wrap32 (base - 1), sd_ScaledUp = False, sd_ScaledDown = True,
           sd_DrainCandidates = si_IdleCells inp, sd_Reason = ReasonScaledDown,
           sd_Message = ''removing one idle cell after '' @ duration_string window @
             '' with no GPU demand ('' @ itoa (int (length (si_IdleCells inp))) @ '' idle)''\<rparr>)"

definition scale_floor :: "ScaleInput \<Rightarrow> AutoscalingSpec \<Rightarrow> i32" where
  "scale_floor inp spec = (case as_MinReplicas spec of None \<Rightarrow> si_Replicas inp | Some m \<Rightarrow> m)"

definition scale_ceiling :: "ScaleInput \<Rightarrow> AutoscalingSpec \<Rightarrow> i32" where
  "scale_ceiling inp spec =
     (let floor = scale_floor inp spec;
          ceiling = (case as_MaxReplicas spec of None \<Rightarrow> floor | Some m \<Rightarrow> m)
      in if ceiling < floor then floor else ceiling)"

definition scale_base :: "ScaleInput \<Rightarrow> AutoscalingSpec \<Rightarrow> i32" where
  "scale_base inp spec =
     (let base = si_LiveCells inp;
          base = (if base < scale_floor inp spec then scale_floor inp spec else base)
      in if scale_ceiling inp spec < base then scale_ceiling inp spec else base)"

definition DecideScale :: "ScaleInput \<Rightarrow> ScaleDecision" where
  "DecideScale inp =
     (case si_Autoscaling inp of
        None \<Rightarrow> hold_at (si_Replicas inp) ReasonIdle []
      | Some spec \<Rightarrow>
          if \<not> as_Enabled spec then hold_at (si_Replicas inp) ReasonIdle []
          else
            let floor = scale_floor inp spec;
                ceiling = scale_ceiling inp spec;
                base = scale_base inp spec;
                pending = dm_PendingRequests (si_Demand inp);
                fits = dm_SatisfiableByOneCell (si_Demand inp)
            in if \<not> si_DemandKnown inp then
                 hold_at base ReasonCapacityUnknown
                   ''GPU demand could not be read from the workload cluster; not scaling''
               else if \<not> si_ShapeKnown inp \<and> fits = 0 \<and> 0 < pending then
                 hold_at base ReasonCellShapeUnknown
                   (itoa pending @ '' GPU request(s) are pending but this pool has '' @
                    ''never advertised a device, so it cannot tell whether a fresh cell would satisfy them; '' @
                    ''raise replicas or minReplicas to 1 once so the pool learns its cell shape'')
               else if fits = 0 \<and> 0 < pending then
                 hold_at base ReasonDemandUnsatisfiable
                   (itoa pending @ '' GPU request(s) are pending but none fits one cell of this pool's shape; not scaling'')
               else if fits = 0 then decideScaleDown inp spec base floor
               else if ceiling \<le> base then
                 hold_at ceiling ReasonAtMaxReplicas
                   (''at maxReplicas ('' @ itoa ceiling @ '') with '' @ itoa fits @
                    '' satisfiable request(s) still pending'')
               else if (case si_FreeGPUs inp of None \<Rightarrow> False | Some free \<Rightarrow> free \<le> 0) then
                 hold_at base ReasonInsufficientGPUs
                   ''demand is satisfiable but no free GPU remains in the infrastructure cluster''
               else if stabilizing spec (si_LastScaleUp inp) (si_Now inp) then
                 hold_at base ReasonStabilizing
                   (''waiting out the stabilization window before scaling up again '' @
                    ''(demand does not clear until the previous cell is Ready)'')
               else
                 \<lparr>sd_Desired = wrap32 (base + 1), sd_ScaledUp = True, sd_ScaledDown = False,
                  sd_DrainCandidates = [], sd_Reason = ReasonScaledUp,
                  sd_Message = ''scaling up by one for '' @ itoa fits @ '' satisfiable GPU request(s)''\<rparr>)"

section \<open>The shape of a cell\<close>

fun ReferenceDevice_models :: "ModelCapacity list \<Rightarrow> Device option" where
  "ReferenceDevice_models [] = None"
| "ReferenceDevice_models (m # ms) =
     (if mo_Devices m \<le> 0 then ReferenceDevice_models ms
      else Some \<lparr>dv_UUID = [], dv_LogicalSlots = 0,
        dv_MemoryMiB = quot (mo_MemoryTotalMiB m) (mo_Devices m),
        dv_CorePercent = quot (mo_ComputeTotal m) (mo_Devices m),
        dv_Model = mo_Model m, dv_Mode = [], dv_Healthy = True\<rparr>)"

definition ReferenceDevice :: "Capacity \<Rightarrow> Device option" where
  "ReferenceDevice c = ReferenceDevice_models (cy_ByModel c)"

definition CellShape :: "Capacity \<Rightarrow> CellDeviceShape option \<Rightarrow> Device option" where
  "CellShape c remembered =
     (case ReferenceDevice c of
        Some live \<Rightarrow> Some live
      | None \<Rightarrow>
          (case remembered of
             None \<Rightarrow> None
           | Some r \<Rightarrow>
               if sh_MemoryMiB r \<le> 0 then None
               else Some \<lparr>dv_UUID = [], dv_LogicalSlots = 0, dv_MemoryMiB = sh_MemoryMiB r,
                 dv_CorePercent = sh_CorePercent r, dv_Model = sh_Model r, dv_Mode = [], dv_Healthy = True\<rparr>))"

definition RememberShape :: "Device option \<Rightarrow> gotime \<Rightarrow> CellDeviceShape option" where
  "RememberShape d now =
     (case d of
        None \<Rightarrow> None
      | Some x \<Rightarrow>
          if dv_MemoryMiB x \<le> 0 then None
          else Some \<lparr>sh_Model = dv_Model x, sh_MemoryMiB = dv_MemoryMiB x,
            sh_CorePercent = dv_CorePercent x, sh_LastObserved = Some now\<rparr>)"

section \<open>Facts on the decision\<close>

lemmas scale_defs = DecideScale_def decideScaleDown_def hold_at_def Let_def

lemma floor_le_ceiling: "scale_floor inp spec \<le> scale_ceiling inp spec"
  by (simp add: scale_ceiling_def Let_def)

lemma scale_base_bounds:
  "scale_floor inp spec \<le> scale_base inp spec" "scale_base inp spec \<le> scale_ceiling inp spec"
  using floor_le_ceiling [of inp spec] by (simp_all add: scale_base_def Let_def)

definition sane_scale :: "ScaleInput \<Rightarrow> bool" where
  \<comment> \<open>the replica counts fit \<^verbatim>\<open>int32\<close>, as the API server guarantees\<close>
  "sane_scale inp \<longleftrightarrow> in_i32 (si_Replicas inp) \<and>
     (case si_Autoscaling inp of None \<Rightarrow> True
      | Some spec \<Rightarrow> pred_option in_i32 (as_MinReplicas spec) \<and> pred_option in_i32 (as_MaxReplicas spec))"

lemma bounds_in_i32:
  assumes "sane_scale inp" and "si_Autoscaling inp = Some spec"
  shows "in_i32 (scale_floor inp spec)" "in_i32 (scale_ceiling inp spec)"
  using assms by (auto simp: sane_scale_def scale_floor_def scale_ceiling_def Let_def split: option.splits)

lemma step_exact:
  assumes "sane_scale inp" and "si_Autoscaling inp = Some spec"
  shows "scale_base inp spec < scale_ceiling inp spec \<Longrightarrow> wrap32 (scale_base inp spec + 1) = scale_base inp spec + 1"
    and "scale_floor inp spec < scale_base inp spec \<Longrightarrow> wrap32 (scale_base inp spec - 1) = scale_base inp spec - 1"
  using bounds_in_i32 [OF assms] scale_base_bounds [of inp spec]
  by (auto intro!: wrap32_id simp: in_i32_def)

text \<open>When growing and when shrinking is decided.\<close>

definition grow_ok :: "ScaleInput \<Rightarrow> AutoscalingSpec \<Rightarrow> bool" where
  "grow_ok inp spec \<longleftrightarrow> si_DemandKnown inp \<and> dm_SatisfiableByOneCell (si_Demand inp) \<noteq> 0 \<and>
     scale_base inp spec < scale_ceiling inp spec \<and> pred_option (\<lambda>free. 0 < free) (si_FreeGPUs inp) \<and>
     \<not> stabilizing spec (si_LastScaleUp inp) (si_Now inp)"

definition shrink_ok :: "ScaleInput \<Rightarrow> AutoscalingSpec \<Rightarrow> bool" where
  "shrink_ok inp spec \<longleftrightarrow> si_DemandKnown inp \<and> dm_SatisfiableByOneCell (si_Demand inp) = 0 \<and>
     dm_PendingRequests (si_Demand inp) \<le> 0 \<and> as_ScaleDown spec = ScaleDownAuto \<and>
     scale_floor inp spec < scale_base inp spec \<and> si_IdleCells inp \<noteq> [] \<and>
     demand_free_for inp (scaleDownWindow spec) \<and>
     \<not> within (si_LastScaleDown inp) (si_Now inp) (scaleDownWindow spec) \<and>
     \<not> within (si_LastScaleUp inp) (si_Now inp) (scaleDownWindow spec)"

lemma DecideScale_off:
  "si_Autoscaling inp = None \<or> si_Autoscaling inp = Some spec \<and> \<not> as_Enabled spec \<Longrightarrow>
   DecideScale inp = hold_at (si_Replicas inp) ReasonIdle []"
  by (auto simp: DecideScale_def)

lemma DecideScale_flags:
  assumes "si_Autoscaling inp = Some spec" and "as_Enabled spec"
  shows "sd_ScaledUp (DecideScale inp) \<longleftrightarrow> grow_ok inp spec"
    and "sd_ScaledDown (DecideScale inp) \<longleftrightarrow> shrink_ok inp spec"
    and "sd_DrainCandidates (DecideScale inp) = (if shrink_ok inp spec then si_IdleCells inp else [])"
proof -
  show "sd_ScaledUp (DecideScale inp) \<longleftrightarrow> grow_ok inp spec"
    using assms by (cases "si_FreeGPUs inp") (auto simp: scale_defs grow_ok_def)
  show "sd_ScaledDown (DecideScale inp) \<longleftrightarrow> shrink_ok inp spec"
    and "sd_DrainCandidates (DecideScale inp) = (if shrink_ok inp spec then si_IdleCells inp else [])"
    using assms by (simp_all add: scale_defs shrink_ok_def not_le)
qed

lemma DecideScale_desired:
  assumes "sane_scale inp" and "si_Autoscaling inp = Some spec" and "as_Enabled spec"
  shows "sd_Desired (DecideScale inp) = scale_base inp spec +
    (if grow_ok inp spec then 1 else if shrink_ok inp spec then - 1 else 0)"
  using assms(2,3) step_exact [OF assms(1,2)] DecideScale_flags [OF assms(2,3)] scale_base_bounds(2) [of inp spec]
  by (auto simp: scale_defs split: if_splits option.splits)

lemma quot_nonneg: "0 \<le> a \<Longrightarrow> 0 < b \<Longrightarrow> quot a b = a div b"
  by (cases "a = 0") (simp_all add: quot_def)

section \<open>Properties\<close>

definition sample_autoscaling :: AutoscalingSpec where
  "sample_autoscaling = \<lparr>as_Enabled = True, as_MinReplicas = Some 1, as_MaxReplicas = Some 4,
     as_StabilizationWindow = None, as_ScaleDown = ScaleDownAuto, as_ScaleDownStabilizationWindow = None\<rparr>"

definition sample_scale :: "i32 \<Rightarrow> goint \<Rightarrow> string list \<Rightarrow> ScaleInput" where
  "sample_scale live fits idle = \<lparr>si_Replicas = 1, si_Autoscaling = Some sample_autoscaling,
     si_LiveCells = live, si_Demand = \<lparr>dm_PendingRequests = fits, dm_SatisfiableByOneCell = fits\<rparr>,
     si_DemandKnown = True, si_ShapeKnown = True, si_FreeGPUs = None, si_IdleCells = idle,
     si_Now = 1 + 40 * Minute, si_LastScaleUp = None, si_LastScaleDown = None, si_DemandFreeSince = Some 1\<rparr>"

lemmas scale_eval = sample_scale_def sample_autoscaling_def sane_scale_def in_i32_def grow_ok_def shrink_ok_def
  scale_base_def scale_floor_def scale_ceiling_def stabilizing_def within_def demand_free_for_def
  scaleDownWindow_def sub_time_def Minute_def Second_def

text \<open>
  C21. An enabled autoscaler stays in its range and moves by one: the desired count lies between
  the floor and the ceiling, differs from the live count clamped into that range by one exactly
  when the decision says it scaled up or down, and never both; and nothing wraps.
\<close>

theorem DecideScale_bounded_step:
  assumes "sane_scale inp" and "si_Autoscaling inp = Some spec" and "as_Enabled spec"
  shows "scale_floor inp spec \<le> sd_Desired (DecideScale inp) \<and>
    sd_Desired (DecideScale inp) \<le> scale_ceiling inp spec \<and>
    \<not> (sd_ScaledUp (DecideScale inp) \<and> sd_ScaledDown (DecideScale inp)) \<and>
    sd_Desired (DecideScale inp) = max (scale_floor inp spec) (min (scale_ceiling inp spec) (si_LiveCells inp)) +
      (if sd_ScaledUp (DecideScale inp) then 1 else if sd_ScaledDown (DecideScale inp) then - 1 else 0)"
proof -
  have "scale_base inp spec = max (scale_floor inp spec) (min (scale_ceiling inp spec) (si_LiveCells inp))"
    using floor_le_ceiling [of inp spec] by (auto simp: scale_base_def Let_def)
  moreover have "\<not> (grow_ok inp spec \<and> shrink_ok inp spec)"
    by (simp add: grow_ok_def shrink_ok_def)
  moreover have "grow_ok inp spec \<Longrightarrow> scale_base inp spec < scale_ceiling inp spec"
    "shrink_ok inp spec \<Longrightarrow> scale_floor inp spec < scale_base inp spec"
    by (simp_all add: grow_ok_def shrink_ok_def)
  ultimately show ?thesis
    using DecideScale_desired [OF assms] DecideScale_flags [OF assms(2,3)] scale_base_bounds [of inp spec]
    by auto
qed

theorem DecideScale_bounded_step_witness:
  "sane_scale (sample_scale 2 3 []) \<and> sd_Desired (DecideScale (sample_scale 2 3 [])) \<le> 4"
  using DecideScale_bounded_step [of "sample_scale 2 3 []" sample_autoscaling]
  by (simp add: scale_eval)

text \<open>
  C23. Growth is gated by exactly the documented conditions: with autoscaling enabled the pool is
  grown if and only if demand was read, some of it fits one fresh cell, the ceiling is not
  reached, the outer inventory is unknown or shows a free GPU, and the stabilization window, the given one
  or ten minutes, has passed since the last growth. In particular unread demand never scales.
\<close>

theorem DecideScale_grows_iff:
  assumes "si_Autoscaling inp = Some spec" and "as_Enabled spec"
  shows "sd_ScaledUp (DecideScale inp) \<longleftrightarrow>
    si_DemandKnown inp \<and> dm_SatisfiableByOneCell (si_Demand inp) \<noteq> 0 \<and>
    max (scale_floor inp spec) (si_LiveCells inp) < scale_ceiling inp spec \<and>
    (si_FreeGPUs inp = None \<or> (\<exists>free. si_FreeGPUs inp = Some free \<and> 0 < free)) \<and>
    (\<forall>grown. si_LastScaleUp inp = Some grown \<and> grown \<noteq> 0 \<longrightarrow>
       sub_time (si_Now inp) grown \<ge> (if \<exists>d > 0. as_StabilizationWindow spec = Some d then the (as_StabilizationWindow spec) else 10 * Minute))"
proof -
  have window: "stabilizing spec (si_LastScaleUp inp) (si_Now inp) \<longleftrightarrow> \<not> (\<forall>grown. si_LastScaleUp inp = Some grown \<and> grown \<noteq> 0 \<longrightarrow>
      sub_time (si_Now inp) grown \<ge> (if \<exists>d > 0. as_StabilizationWindow spec = Some d then the (as_StabilizationWindow spec) else 10 * Minute))"
    by (cases "si_LastScaleUp inp"; cases "as_StabilizationWindow spec") (auto simp: stabilizing_def Let_def)
  show ?thesis
    using DecideScale_flags(1) [OF assms] floor_le_ceiling [of inp spec]
    unfolding grow_ok_def window by (cases "si_FreeGPUs inp") (auto simp: scale_base_def Let_def)
qed

theorem DecideScale_grows_iff_witness: "sd_ScaledUp (DecideScale (sample_scale 2 3 []))"
  using DecideScale_grows_iff [of "sample_scale 2 3 []" sample_autoscaling]
  by (simp add: scale_eval)

text \<open>
  Shrinking takes every excuse not to: the pool is shrunk only with automatic scale-down
  asked for, demand read and absent, and absent for the whole window, no scaling action within the
  window, more cells than the floor and an idle cell, and what may go is exactly the idle cells.
\<close>

theorem DecideScale_shrink_evidence:
  assumes "sd_ScaledDown (DecideScale inp)"
  shows "\<exists>spec since. si_Autoscaling inp = Some spec \<and> as_Enabled spec \<and> as_ScaleDown spec = ScaleDownAuto \<and>
    si_DemandKnown inp \<and> dm_SatisfiableByOneCell (si_Demand inp) = 0 \<and> dm_PendingRequests (si_Demand inp) \<le> 0 \<and>
    si_DemandFreeSince inp = Some since \<and> since \<noteq> 0 \<and> scaleDownWindow spec \<le> sub_time (si_Now inp) since \<and>
    \<not> within (si_LastScaleUp inp) (si_Now inp) (scaleDownWindow spec) \<and>
    \<not> within (si_LastScaleDown inp) (si_Now inp) (scaleDownWindow spec) \<and>
    scale_floor inp spec < si_LiveCells inp \<and> si_IdleCells inp \<noteq> [] \<and>
    sd_DrainCandidates (DecideScale inp) = si_IdleCells inp"
proof -
  obtain spec where spec: "si_Autoscaling inp = Some spec" "as_Enabled spec"
    using assms DecideScale_off by (cases "si_Autoscaling inp") (fastforce simp: hold_at_def)+
  then have ok: "shrink_ok inp spec"
    using assms DecideScale_flags(2) by blast
  then obtain since where "si_DemandFreeSince inp = Some since" "since \<noteq> 0"
    "scaleDownWindow spec \<le> sub_time (si_Now inp) since"
    by (auto simp: shrink_ok_def demand_free_for_def split: option.splits)
  moreover have "scale_floor inp spec < si_LiveCells inp"
    using ok by (auto simp: shrink_ok_def scale_base_def Let_def split: if_splits)
  ultimately show ?thesis
    using spec ok DecideScale_flags(3) [OF spec] by (auto simp: shrink_ok_def)
qed

theorem DecideScale_shrink_evidence_witness:
  "sd_ScaledDown (DecideScale (sample_scale 3 0 [''p-1''])) \<and>
   sd_DrainCandidates (DecideScale (sample_scale 3 0 [''p-1''])) = [''p-1'']"
proof -
  have "sd_ScaledDown (DecideScale (sample_scale 3 0 [''p-1'']))"
    by (simp add: scale_defs scale_eval)
  with DecideScale_shrink_evidence [OF this] show ?thesis by (simp add: sample_scale_def)
qed

end
