(* ===== verification/Rollout.thy ===== *)
theory Rollout
  imports Helpers
begin

text \<open>
  The rolling update of \<^verbatim>\<open>internal/controller/rollout.go\<close>: which cells run an older template, and
  whether one of them may be replaced now.
\<close>

record RolloutInput =
  ri_Policy :: "UpdatePolicySpec option"
  ri_DesiredHash :: string
  ri_Cells :: "CellStatus list"
  ri_IdleCells :: "string list"
  ri_WorkloadReachable :: bool
  ri_AtDesiredSize :: bool

record RolloutDecision =
  rr_Drain :: string
  rr_UpToDate :: bool
  rr_StaleCells :: goint
  rr_Reason :: string
  rr_Message :: string

definition is_stale :: "string \<Rightarrow> CellStatus \<Rightarrow> bool" where
  "is_stale desired c \<longleftrightarrow>
     cs_Phase c \<notin> {CellPhaseDraining, CellPhaseDeleting} \<and>
     cs_TemplateHash c \<noteq> [] \<and> cs_TemplateHash c \<noteq> desired"

definition staleCells :: "CellStatus list \<Rightarrow> string \<Rightarrow> string list" where
  "staleCells cells desired = map cs_Name (filter (is_stale desired) cells)"

fun phase_mid_flight :: "CellPhase \<Rightarrow> bool" where
  "phase_mid_flight CellPhaseDraining = True"
| "phase_mid_flight CellPhaseDeleting = True"
| "phase_mid_flight CellPhasePending = True"
| "phase_mid_flight CellPhaseAllocatingGPU = True"
| "phase_mid_flight CellPhaseGuestProvisioning = True"
| "phase_mid_flight CellPhaseBooting = True"
| "phase_mid_flight CellPhaseJoining = True"
| "phase_mid_flight CellPhaseAwaitingGPUCapacity = True"
| "phase_mid_flight _ = False"

fun midFlight :: "CellStatus list \<Rightarrow> string" where
  "midFlight [] = []"
| "midFlight (c # cs) = (if phase_mid_flight (cs_Phase c) then cs_Name c else midFlight cs)"

fun contains :: "string list \<Rightarrow> string \<Rightarrow> bool" where
  "contains [] needle = False"
| "contains (h # hs) needle = (if h = needle then True else contains hs needle)"

fun first_idle :: "string list \<Rightarrow> string list \<Rightarrow> string option" where
  \<comment> \<open>the loop over the stale cells\<close>
  "first_idle idle [] = None"
| "first_idle idle (c # cs) = (if contains idle c then Some c else first_idle idle cs)"

definition rollout_blocked :: "string list \<Rightarrow> string \<Rightarrow> RolloutDecision" where
  "rollout_blocked stale why =
     \<lparr>rr_Drain = [], rr_UpToDate = (stale = []), rr_StaleCells = int (length stale),
      rr_Reason = ReasonUpdateBlocked,
      rr_Message = itoa (int (length stale)) @ '' cell(s) out of date: '' @ why\<rparr>"

definition PlanRollout :: "RolloutInput \<Rightarrow> RolloutDecision" where
  "PlanRollout inp =
     (let stale = staleCells (ri_Cells inp) (ri_DesiredHash inp);
          out = \<lparr>rr_Drain = [], rr_UpToDate = (length stale = 0), rr_StaleCells = int (length stale),
                 rr_Reason = [], rr_Message = []\<rparr>
      in if rr_UpToDate out then out\<lparr>rr_Reason := ReasonAllCellsCurrent\<rparr>
         else
           let msg = itoa (int (length stale)) @ '' cell(s) were created from an older template'' in
           if (case ri_Policy inp of None \<Rightarrow> True | Some u \<Rightarrow> up_Type u \<noteq> UpdateRolling) then
             out\<lparr>rr_Reason := ReasonTemplateChanged,
                 rr_Message := msg @ ''; updatePolicy.type is Manual, so they are left alone''\<rparr>
           else if \<not> ri_WorkloadReachable inp then
             rollout_blocked stale ''the workload cluster is unreachable, so it is unknown whether they hold work''
           else if \<not> ri_AtDesiredSize inp then
             rollout_blocked stale ''the pool is still resizing; a rollout must not race a scaling decision''
           else if midFlight (ri_Cells inp) \<noteq> [] then
             rollout_blocked stale (''cell '' @ midFlight (ri_Cells inp) @ '' is already being replaced or created'')
           else case first_idle (ri_IdleCells inp) stale of
             Some c \<Rightarrow>
               \<lparr>rr_Drain = c, rr_UpToDate = False, rr_StaleCells = int (length stale),
                rr_Reason = ReasonRollingUpdate,
                rr_Message = ''replacing '' @ c @ '' to adopt the current template ('' @
                  itoa (int (length stale)) @ '' out of date)''\<rparr>
           | None \<Rightarrow>
               rollout_blocked stale (''none of them is reported idle '' @ em_dash @
                 '' a cell whose allocations cannot be read is never replaced either''))"

section \<open>Facts\<close>

lemma contains_iff [simp]: "contains hs x \<longleftrightarrow> x \<in> set hs"
  by (induction hs) auto

lemma first_idle_find: "first_idle idle cs = find (\<lambda>c. c \<in> set idle) cs"
  by (induction cs) auto

lemma midFlight_none:
  assumes "\<forall>c \<in> set cells. cs_Name c \<noteq> []"
  shows "midFlight cells = [] \<longleftrightarrow> (\<forall>c \<in> set cells. \<not> phase_mid_flight (cs_Phase c))"
  using assms by (induction cells) auto

lemma phase_mid_flight_iff:
  "phase_mid_flight p \<longleftrightarrow> p \<notin> {PhaseUnset, CellPhaseReady, CellPhaseFailed}"
  by (cases p) auto

lemma PlanRollout_Drain:
  assumes "rr_Drain (PlanRollout inp) \<noteq> []"
  shows "ri_Policy inp = Some \<lparr>up_Type = UpdateRolling\<rparr> \<and> ri_WorkloadReachable inp \<and> ri_AtDesiredSize inp \<and>
    midFlight (ri_Cells inp) = [] \<and>
    first_idle (ri_IdleCells inp) (staleCells (ri_Cells inp) (ri_DesiredHash inp)) = Some (rr_Drain (PlanRollout inp))"
proof -
  have "u = \<lparr>up_Type = UpdateRolling\<rparr>" if "up_Type u = UpdateRolling" for u :: UpdatePolicySpec
    using that by simp
  with assms show ?thesis
    by (auto simp: PlanRollout_def rollout_blocked_def Let_def split: if_splits option.splits)
qed

section \<open>Properties\<close>

definition outdated :: "string \<Rightarrow> CellStatus \<Rightarrow> bool" where
  \<comment> \<open>a cell that stays and is known to come from another template\<close>
  "outdated current c \<longleftrightarrow> \<not> phase_leaving (cs_Phase c) \<and> (\<exists>hash. cs_TemplateHash c = hash \<and> hash \<noteq> [] \<and> hash \<noteq> current)"

lemma is_stale_outdated: "is_stale current = outdated current"
  by (auto simp: fun_eq_iff is_stale_def outdated_def phase_leaving_iff)

definition may_roll :: "RolloutInput \<Rightarrow> bool" where
  \<comment> \<open>asked for, readable, at size, and every cell settled\<close>
  "may_roll inp \<longleftrightarrow> (\<exists>u. ri_Policy inp = Some u \<and> up_Type u = UpdateRolling) \<and> ri_WorkloadReachable inp \<and> ri_AtDesiredSize inp \<and>
     (\<forall>c \<in> set (ri_Cells inp). cs_Phase c \<in> {PhaseUnset, CellPhaseReady, CellPhaseFailed})"

lemma may_roll_gates:
  assumes "\<forall>c \<in> set (ri_Cells inp). cs_Name c \<noteq> []"
  shows "may_roll inp \<longleftrightarrow> (case ri_Policy inp of None \<Rightarrow> False | Some u \<Rightarrow> up_Type u = UpdateRolling) \<and> ri_WorkloadReachable inp \<and>
    ri_AtDesiredSize inp \<and> midFlight (ri_Cells inp) = []"
  using midFlight_none [OF assms] by (auto simp: may_roll_def phase_mid_flight_iff split: option.splits)

text \<open>
  C30. What a rolling update does and says. It drains a cell if and only if the policy asks for it, the
  workload cluster is readable, the pool is at its desired size, every cell is Ready, Failed or not yet
  started, and this is the first of the outdated cells that is idle; so at most one cell at a time, and
  one whenever it may. A cell is outdated if it is not leaving and its template hash is known and not
  the current one. The pool is up to date exactly when no cell is outdated, the count is that of the
  outdated cells, and the reason tells the four outcomes apart.
\<close>

theorem PlanRollout_exact:
  assumes "\<forall>c \<in> set (ri_Cells inp). cs_Name c \<noteq> []" and "old = filter (outdated (ri_DesiredHash inp)) (ri_Cells inp)"
  shows "rr_Drain (PlanRollout inp) =
      (if may_roll inp then (case filter (\<lambda>c. cs_Name c \<in> set (ri_IdleCells inp)) old of [] \<Rightarrow> [] | c # _ \<Rightarrow> cs_Name c) else []) \<and>
    (rr_UpToDate (PlanRollout inp) \<longleftrightarrow> old = []) \<and> rr_StaleCells (PlanRollout inp) = int (length old) \<and>
    rr_Reason (PlanRollout inp) =
      (if old = [] then ReasonAllCellsCurrent
       else if rr_Drain (PlanRollout inp) \<noteq> [] then ReasonRollingUpdate
       else if \<exists>u. ri_Policy inp = Some u \<and> up_Type u = UpdateRolling then ReasonUpdateBlocked
       else ReasonTemplateChanged)"
proof -
  let ?chosen = "case filter (\<lambda>c. cs_Name c \<in> set (ri_IdleCells inp)) old of [] \<Rightarrow> None | c # _ \<Rightarrow> Some (cs_Name c)"
  have stale: "staleCells (ri_Cells inp) (ri_DesiredHash inp) = map cs_Name old"
    by (simp add: staleCells_def is_stale_outdated assms(2))
  have first: "first_idle idle (map cs_Name cs) = (case filter (\<lambda>c. cs_Name c \<in> set idle) cs of [] \<Rightarrow> None | c # _ \<Rightarrow> Some (cs_Name c))" for idle cs
    by (induction cs) (simp_all split: list.splits)
  have named: "n \<noteq> []" if "?chosen = Some n" for n
    using that assms by (auto split: list.splits dest!: filter_eq_ConsD)
  show ?thesis
    unfolding may_roll_gates [OF assms(1)] PlanRollout_def stale first Let_def
    using named by (auto simp: rollout_blocked_def split: option.splits list.splits)
qed

definition sample_rollout :: "string list \<Rightarrow> RolloutInput" where
  "sample_rollout idle = \<lparr>ri_Policy = Some \<lparr>up_Type = UpdateRolling\<rparr>, ri_DesiredHash = ''new'',
     ri_Cells = [sample_row ''p-0'' 0 CellPhaseReady\<lparr>cs_TemplateHash := ''old''\<rparr>,
                 sample_row ''p-1'' 1 CellPhaseReady\<lparr>cs_TemplateHash := []\<rparr>,
                 sample_row ''p-2'' 2 CellPhaseReady\<lparr>cs_TemplateHash := ''old''\<rparr>],
     ri_IdleCells = idle, ri_WorkloadReachable = True, ri_AtDesiredSize = True\<rparr>"

theorem PlanRollout_exact_witness:
  \<comment> \<open>the cell of unknown template is idle too and stays\<close>
  "rr_Drain (PlanRollout (sample_rollout [''p-1'', ''p-2''])) = ''p-2'' \<and> rr_StaleCells (PlanRollout (sample_rollout [''p-1'', ''p-2''])) = 2 \<and>
   rr_Drain (PlanRollout ((sample_rollout [''p-1'', ''p-2''])\<lparr>ri_WorkloadReachable := False\<rparr>)) = []"
proof -
  let ?inp = "sample_rollout [''p-1'', ''p-2'']"
  have "may_roll ?inp" "\<not> may_roll (?inp\<lparr>ri_WorkloadReachable := False\<rparr>)" "\<forall>c \<in> set (ri_Cells ?inp). cs_Name c \<noteq> []"
    by (simp_all add: may_roll_def sample_rollout_def sample_row_def)
  then show ?thesis
    using PlanRollout_exact [of ?inp, OF _ refl] PlanRollout_exact [of "?inp\<lparr>ri_WorkloadReachable := False\<rparr>", OF _ refl]
    by (simp add: sample_rollout_def sample_row_def outdated_def phase_leaving_iff)
qed

end
