(* ===== verification/CellRow.thy ===== *)
theory CellRow
  imports Helpers
begin

text \<open>
  A cell's status row over time. \<open>previous_row\<close> and \<open>observation_of\<close> are the part of
  \<^verbatim>\<open>discoverCells\<close> (\<^verbatim>\<open>internal/controller/controller.go\<close>) that builds one cell's observation from
  its last row and what was read of both clusters, \<open>cellStatus\<close> folds the decision into the new row.
  The step relation \<open>row_step\<close> is one pass over one cell; the invariants are by induction on it.
  Metrics are not part of a row and are left out.
\<close>

section \<open>One pass over one cell\<close>

definition zero_CellStatus :: CellStatus where
  "zero_CellStatus = \<lparr>cs_Name = [], cs_Index = 0, cs_Phase = PhaseUnset, cs_GuestUID = [], cs_HostNode = [],
     cs_Devices = [], cs_NodeName = [], cs_NodeReady = False, cs_CapacityDevices = 0, cs_Message = [],
     cs_Reason = [], cs_FailureCount = 0, cs_ReadyOnce = False, cs_TemplateHash = [],
     cs_LastTransitionTime = None\<rparr>"

definition previous_row :: "CellStatus \<Rightarrow> OuterState \<Rightarrow> CellStatus" where
  \<comment> \<open>a row of another incarnation lends only its failure count\<close>
  "previous_row prev outer =
     (if cs_GuestUID prev \<noteq> [] \<and> os_UID outer \<noteq> [] \<and> cs_GuestUID prev \<noteq> os_UID outer
      then zero_CellStatus\<lparr>cs_Name := cs_Name prev, cs_Index := cs_Index prev,
             cs_FailureCount := cs_FailureCount prev\<rparr>
      else prev)"

text \<open>
  What was read of the workload cluster for this cell: the Node, and the provider's health and
  device count, each of which may be missing (no provider, or a failed read).
\<close>

record InnerReading =
  in_Node :: NodeState
  in_Health :: "Health option"
  in_Devices :: "goint option"

definition observation_of ::
  "GPUCellPool \<Rightarrow> CellStatus \<Rightarrow> OuterState \<Rightarrow> InnerReading option \<Rightarrow> gotime \<Rightarrow> Observation" where
  \<comment> \<open>\<open>None\<close> is an unreachable workload cluster\<close>
  "observation_of pool prev outer inner now =
     (let obs = \<lparr>ob_Current = phaseOr (cs_Phase prev) CellPhasePending,
            ob_LastTransition = transitionOr (cs_LastTransitionTime prev) now,
            ob_Now = now, ob_Outer = outer, ob_WorkloadReachable = (inner \<noteq> None),
            ob_Node = zero_NodeState, ob_StaleNode = False, ob_ProviderReady = False,
            ob_CapacityDevices = 0, ob_ExpectedDevices = expectedDevices pool,
            ob_BootstrapTimeout = durationOr (bs_ReadyTimeout (sp_Bootstrap (po_Spec pool))) (15 * Minute),
            ob_CapacityTimeout = durationOr (cp_ReadyTimeout (sp_Capacity (po_Spec pool))) (5 * Minute)\<rparr>;
          obs = (case inner of
                   None \<Rightarrow> obs
                 | Some rd \<Rightarrow>
                     (let node = in_Node rd;
                          obs = obs\<lparr>ob_Node := node,
                            ob_StaleNode := ns_Exists node \<and> \<not> ns_KubeletLive node \<and>
                              IsStaleNode (ns_Labels node) (os_UID outer)\<rparr>
                      in if ns_Exists node \<and> ns_Ready node
                         then obs\<lparr>ob_ProviderReady := (case in_Health rd of None \<Rightarrow> False | Some h \<Rightarrow> he_Ready h),
                                ob_CapacityDevices := (case in_Devices rd of None \<Rightarrow> 0 | Some d \<Rightarrow> d)\<rparr>
                         else obs))
      in if cs_Phase prev = CellPhaseDraining \<or> cs_Phase prev = CellPhaseDeleting
         then obs\<lparr>ob_Current := cs_Phase prev\<rparr> else obs)"

definition cellStatus ::
  "CellStatus \<Rightarrow> string \<Rightarrow> i32 \<Rightarrow> OuterState \<Rightarrow> Observation \<Rightarrow> Decision \<Rightarrow> gotime \<Rightarrow> CellStatus" where
  "cellStatus prev name idx outer obs dec now =
     (let c = \<lparr>cs_Name = name, cs_Index = idx, cs_Phase = de_Phase dec, cs_GuestUID = os_UID outer,
            cs_HostNode = os_HostNode outer, cs_Devices = os_GPUDevices outer, cs_NodeName = [],
            cs_NodeReady = ns_Ready (ob_Node obs), cs_CapacityDevices = wrap32 (ob_CapacityDevices obs),
            cs_Message = de_Message dec, cs_Reason = de_Reason dec, cs_FailureCount = cs_FailureCount prev,
            cs_ReadyOnce = False, cs_TemplateHash = os_TemplateHash outer,
            cs_LastTransitionTime = cs_LastTransitionTime prev\<rparr>;
          c = (if de_Phase dec = cs_Phase prev \<and> de_Reason dec = [] \<and> de_Message dec = []
               then c\<lparr>cs_Reason := cs_Reason prev, cs_Message := cs_Message prev\<rparr> else c);
          c = (if ns_Exists (ob_Node obs) then c\<lparr>cs_NodeName := name\<rparr> else c);
          c = (if cs_Phase prev \<noteq> de_Phase dec \<or> cs_LastTransitionTime c = None
               then let c = c\<lparr>cs_LastTransitionTime := Some now\<rparr>
                    in if de_Phase dec = CellPhaseFailed \<and> cs_Phase prev \<noteq> CellPhaseFailed
                       then c\<lparr>cs_FailureCount := wrap32 (cs_FailureCount prev + 1)\<rparr> else c
               else c)
      in c\<lparr>cs_ReadyOnce := cs_ReadyOnce prev \<or> de_Phase dec = CellPhaseReady\<rparr>)"

definition next_row ::
  "GPUCellPool \<Rightarrow> string \<Rightarrow> i32 \<Rightarrow> CellStatus \<Rightarrow> OuterState \<Rightarrow> InnerReading option \<Rightarrow> gotime \<Rightarrow> CellStatus" where
  "next_row pool name idx row outer inner now =
     (let prev = previous_row row outer;
          obs = observation_of pool prev outer inner now
      in cellStatus prev name idx outer obs (AdvanceCell obs) now)"

definition mark_row :: "gotime \<Rightarrow> CellStatus \<Rightarrow> CellStatus" where
  "mark_row now c = c\<lparr>cs_Phase := CellPhaseDraining, cs_LastTransitionTime := Some now\<rparr>"

definition markDraining :: "CellStatus list \<Rightarrow> string \<Rightarrow> gotime \<Rightarrow> CellStatus list" where
  "markDraining cells name now = map (\<lambda>c. if cs_Name c = name then mark_row now c else c) cells"

section \<open>The life of a row\<close>

text \<open>
  The rows a cell name can have after \<open>n\<close> passes of the reconciler, the last at time \<open>t\<close>: each
  pass sees any outer state, any reading of the workload cluster or none, and a clock that does
  not run backwards; between passes the planner may mark the row as draining.
\<close>

inductive row_reach :: "GPUCellPool \<Rightarrow> string \<Rightarrow> i32 \<Rightarrow> nat \<Rightarrow> CellStatus \<Rightarrow> gotime \<Rightarrow> bool"
  for pool name idx where
  start: "row_reach pool name idx 0 zero_CellStatus t"
| pass: "row_reach pool name idx n row t \<Longrightarrow> t \<le> now \<Longrightarrow>
    row_reach pool name idx (Suc n) (next_row pool name idx row outer inner now) now"
| mark: "row_reach pool name idx n row t \<Longrightarrow> t \<le> now \<Longrightarrow> row_reach pool name idx n (mark_row now row) now"

definition row_inv :: "nat \<Rightarrow> CellStatus \<Rightarrow> gotime \<Rightarrow> bool" where
  "row_inv n row t \<longleftrightarrow>
     0 \<le> cs_FailureCount row \<and> cs_FailureCount row \<le> int n \<and>
     (cs_Phase row = CellPhaseFailed \<longrightarrow> 1 \<le> cs_FailureCount row \<and> cs_Reason row \<noteq> []) \<and>
     (cs_Phase row = CellPhaseReady \<longrightarrow> cs_ReadyOnce row) \<and>
     (case cs_LastTransitionTime row of None \<Rightarrow> cs_Phase row = PhaseUnset | Some \<tau> \<Rightarrow> \<tau> \<le> t)"

lemma observation_of_simps [simp]:
  "ob_Current (observation_of pool prev outer inner now) = phaseOr (cs_Phase prev) CellPhasePending"
  "ob_LastTransition (observation_of pool prev outer inner now) = transitionOr (cs_LastTransitionTime prev) now"
  "ob_Now (observation_of pool prev outer inner now) = now"
  "ob_Outer (observation_of pool prev outer inner now) = outer"
  "ob_WorkloadReachable (observation_of pool prev outer inner now) \<longleftrightarrow> inner \<noteq> None"
  "ob_BootstrapTimeout (observation_of pool prev outer inner now) =
     durationOr (bs_ReadyTimeout (sp_Bootstrap (po_Spec pool))) (15 * Minute)"
  "ob_CapacityTimeout (observation_of pool prev outer inner now) =
     durationOr (cp_ReadyTimeout (sp_Capacity (po_Spec pool))) (5 * Minute)"
  by (simp_all add: observation_of_def Let_def phaseOr_def split: option.split)

lemma cellStatus_simps [simp]:
  "cs_Name (cellStatus prev name idx outer obs dec now) = name"
  "cs_Index (cellStatus prev name idx outer obs dec now) = idx"
  "cs_Phase (cellStatus prev name idx outer obs dec now) = de_Phase dec"
  "cs_GuestUID (cellStatus prev name idx outer obs dec now) = os_UID outer"
  "cs_ReadyOnce (cellStatus prev name idx outer obs dec now) \<longleftrightarrow> cs_ReadyOnce prev \<or> de_Phase dec = CellPhaseReady"
  "cs_LastTransitionTime (cellStatus prev name idx outer obs dec now) =
     (if cs_Phase prev \<noteq> de_Phase dec \<or> cs_LastTransitionTime prev = None then Some now
      else cs_LastTransitionTime prev)"
  "cs_FailureCount (cellStatus prev name idx outer obs dec now) =
     (if de_Phase dec = CellPhaseFailed \<and> cs_Phase prev \<noteq> CellPhaseFailed
      then wrap32 (cs_FailureCount prev + 1) else cs_FailureCount prev)"
  "cs_Reason (cellStatus prev name idx outer obs dec now) =
     (if de_Phase dec = cs_Phase prev \<and> de_Reason dec = [] \<and> de_Message dec = [] then cs_Reason prev
      else de_Reason dec)"
  by (simp_all add: cellStatus_def Let_def)

lemma AdvanceCell_failed_reason:
  "de_Phase (AdvanceCell obs) = CellPhaseFailed \<Longrightarrow>
   de_Reason (AdvanceCell obs) \<noteq> [] \<or>
   ob_Current obs = CellPhaseFailed \<and> de_Reason (AdvanceCell obs) = [] \<and> de_Message (AdvanceCell obs) = []"
  by (auto simp: AdvanceCell_def Let_def split: if_splits)

lemma AdvanceCell_not_unset:
  "ob_Current obs \<noteq> PhaseUnset \<Longrightarrow> de_Phase (AdvanceCell obs) \<noteq> PhaseUnset"
  by (simp add: AdvanceCell_phase spec_phase_def stage_cases)

lemma phaseOr_Pending [simp]:
  "phaseOr p CellPhasePending \<noteq> PhaseUnset"
  "phaseOr p CellPhasePending = CellPhaseFailed \<longleftrightarrow> p = CellPhaseFailed"
  "phaseOr p CellPhasePending = CellPhaseReady \<longleftrightarrow> p = CellPhaseReady"
  "phase_leaving (phaseOr p CellPhasePending) \<longleftrightarrow> phase_leaving p"
  by (simp_all add: phaseOr_def)

lemma previous_row_inv: "row_inv n row t \<Longrightarrow> row_inv n (previous_row row outer) t"
  by (auto simp: row_inv_def previous_row_def zero_CellStatus_def)

lemma cellStatus_inv:
  assumes inv: "row_inv n prev t" and "t \<le> now" and "int n < 2147483647"
    and dec: "dec = AdvanceCell (observation_of pool prev outer inner now)"
  shows "row_inv (Suc n) (cellStatus prev name idx outer obs dec now) now"
proof -
  have "wrap32 (cs_FailureCount prev + 1) = cs_FailureCount prev + 1"
    using assms(1,3) by (intro wrap32_id) (auto simp: row_inv_def in_i32_def)
  moreover have "de_Reason dec \<noteq> [] \<or> cs_Phase prev = CellPhaseFailed \<and> de_Reason dec = [] \<and> de_Message dec = []"
    if "de_Phase dec = CellPhaseFailed"
    using that AdvanceCell_failed_reason unfolding dec by fastforce
  moreover have "de_Phase dec \<noteq> PhaseUnset"
    unfolding dec by (rule AdvanceCell_not_unset) simp
  ultimately show ?thesis
    using inv assms(2) by (auto simp: row_inv_def split: option.splits)
qed

lemma mark_row_inv: "row_inv n row t \<Longrightarrow> t \<le> now \<Longrightarrow> row_inv n (mark_row now row) now"
  by (simp add: row_inv_def mark_row_def)

lemma row_reach_inv: "row_reach pool name idx n row t \<Longrightarrow> int n < 2147483648 \<Longrightarrow> row_inv n row t"
proof (induction rule: row_reach.induct)
  case (start t)
  then show ?case by (simp add: row_inv_def zero_CellStatus_def)
next
  case (pass n row t now outer inner)
  then show ?case
    unfolding next_row_def Let_def by (intro cellStatus_inv [OF previous_row_inv [where t = t]]) auto
next
  case (mark n row t now)
  then show ?case by (simp add: mark_row_inv)
qed

section \<open>Properties\<close>

definition sample_pool :: GPUCellPool where
  "sample_pool = \<lparr>po_Name = ''p'', po_Namespace = ''ns'', po_UID = ''pool-uid'', po_Generation = 1,
     po_DeletionTimestamp = None, po_Finalizers = [],
     po_Spec = \<lparr>sp_Replicas = 1,
       sp_Cell = \<lparr>ce_Provisioner = [], ce_GuestTemplate = ''{}'',
         ce_GPU = \<lparr>gs_Count = 1, gs_Backend = [], gs_DRA = None, gs_Native = None\<rparr>,
         ce_SpreadPolicy = [], ce_NodeIPFrom = [], ce_ClusterAPI = None\<rparr>,
       sp_Bootstrap = \<lparr>bs_Provider = [], bs_JoinSecretRef = None, bs_JoinSecretKey = [],
         bs_Hostname = [], bs_ReadyTimeout = None\<rparr>,
       sp_WorkloadCluster = \<lparr>wc_KubeconfigSecretRef = ''kc'', wc_Key = [], wc_Node = None\<rparr>,
       sp_Capacity = \<lparr>cp_Provider = [], cp_HAMi = None, cp_ReadyTimeout = None\<rparr>,
       sp_Autoscaling = None, sp_Deletion = None, sp_UpdatePolicy = None\<rparr>,
     po_Status = \<lparr>st_ObservedGeneration = 0, st_Replicas = 0, st_ReadyCells = 0, st_CreatingCells = 0,
       st_DrainingCells = 0, st_FailedCells = 0, st_DesiredReplicas = 0, st_Demand = None,
       st_CellDeviceShape = None, st_LastScaleUpTime = None, st_LastScaleDownTime = None,
       st_DemandFreeSince = None, st_PhysicalCapacity = None, st_WorkloadCapacity = None,
       st_Cells = [], st_Conditions = []\<rparr>\<rparr>"

text \<open>
  What every row a pool can ever hold satisfies, whatever the clusters answer and in whatever
  order passes and drains come: the failure count is between 0 and the number of passes and is
  positive once the cell is Failed, a Failed row carries a reason, a Ready row is remembered as
  having been Ready, and the transition time is set, and not in the future, from the first pass on.
\<close>

theorem row_reach_invariant:
  assumes "row_reach pool name idx n row t" and "int n < 2147483648"
  shows "0 \<le> cs_FailureCount row \<and> cs_FailureCount row \<le> int n \<and>
    (cs_Phase row = CellPhaseFailed \<longrightarrow> 1 \<le> cs_FailureCount row \<and> cs_Reason row \<noteq> []) \<and>
    (cs_Phase row = CellPhaseReady \<longrightarrow> cs_ReadyOnce row) \<and>
    (cs_Phase row \<noteq> PhaseUnset \<longrightarrow> (\<exists>\<tau>. cs_LastTransitionTime row = Some \<tau> \<and> \<tau> \<le> t))"
  using row_reach_inv [OF assms] by (auto simp: row_inv_def split: option.splits)

theorem row_reach_invariant_witness:
  "\<exists>row. row_reach sample_pool ''p-0'' 0 1 row 5 \<and> 0 \<le> cs_FailureCount row"
proof -
  let ?row = "next_row sample_pool ''p-0'' 0 zero_CellStatus zero_OuterState None 5"
  have "row_reach sample_pool ''p-0'' 0 (Suc 0) ?row 5"
    by (rule row_reach.pass [OF row_reach.start [where t = 5]]) simp
  with row_reach_invariant [of sample_pool "''p-0''" 0 "Suc 0" ?row 5] show ?thesis by auto
qed

text \<open>
  A name is reused but an incarnation is not: a pass over a row left by another guest never
  hands its phase on, so a fresh cell is not torn down by its predecessor's drain and is Failed
  only if its own outer object failed; only the failure count survives, grown by one exactly in
  that case, and having been Ready is not inherited.
\<close>

theorem next_row_new_incarnation:
  assumes "cs_GuestUID row \<noteq> []" and "os_UID outer \<noteq> []" and "cs_GuestUID row \<noteq> os_UID outer"
  shows "\<not> phase_leaving (cs_Phase (next_row pool name idx row outer inner now)) \<and>
    (cs_Phase (next_row pool name idx row outer inner now) = CellPhaseFailed \<longleftrightarrow> os_Failed outer) \<and>
    cs_GuestUID (next_row pool name idx row outer inner now) = os_UID outer \<and>
    cs_FailureCount (next_row pool name idx row outer inner now) =
      (if os_Failed outer then wrap32 (cs_FailureCount row + 1) else cs_FailureCount row) \<and>
    (cs_ReadyOnce (next_row pool name idx row outer inner now) \<longleftrightarrow>
       cs_Phase (next_row pool name idx row outer inner now) = CellPhaseReady) \<and>
    cs_LastTransitionTime (next_row pool name idx row outer inner now) = Some now"
proof -
  let ?prev = "previous_row row outer"
  let ?obs = "observation_of pool ?prev outer inner now"
  have prev: "cs_Phase ?prev = PhaseUnset" "cs_LastTransitionTime ?prev = None"
    "cs_FailureCount ?prev = cs_FailureCount row" "\<not> cs_ReadyOnce ?prev"
    using assms by (simp_all add: previous_row_def zero_CellStatus_def)
  have cur: "ob_Current ?obs = CellPhasePending" "rung_budget ?obs CellPhasePending = 0"
    by (simp_all add: prev phaseOr_def)
  then have unspent: "\<not> budget_spent ?obs (stage ?obs) (rung_budget ?obs (stage ?obs))"
    by (cases "stage ?obs = CellPhasePending") (auto simp: budget_spent_def)
  have "de_Phase (AdvanceCell ?obs) =
      (if os_Failed outer then CellPhaseFailed else if inner = None then CellPhasePending else stage ?obs)"
    using cur unspent by (simp add: AdvanceCell_phase spec_phase_def)
  then show ?thesis
    using stage_not_terminal [of ?obs] prev by (simp add: next_row_def Let_def)
qed

theorem next_row_new_incarnation_witness:
  "cs_Phase (next_row sample_pool ''p-0'' 0 (sample_row ''p-0'' 0 CellPhaseDraining)
      (zero_OuterState\<lparr>os_UID := ''u2''\<rparr>) None 5) \<noteq> CellPhaseDraining"
  using next_row_new_incarnation [of "sample_row ''p-0'' 0 CellPhaseDraining" "zero_OuterState\<lparr>os_UID := ''u2''\<rparr>"
      sample_pool "''p-0''" 0 None 5]
  by (auto simp: sample_row_def phase_leaving_iff)

text \<open>
  C24. A cell that makes no progress fails loudly in time: if two passes over one guest, more than
  the budget of the phase apart and with no transition in between, find the cell on the same rung,
  the second makes it Failed, counts the failure and records why.
\<close>

theorem stuck_cell_fails:
  assumes "cs_LastTransitionTime row = Some t1" and "t1 \<noteq> 0" and "cs_GuestUID row = os_UID outer"
    and "cs_Phase row = stage (observation_of pool row outer (Some rd) t2)"
    and "0 < rung_budget (observation_of pool row outer (Some rd) t2) (cs_Phase row)"
    and "rung_budget (observation_of pool row outer (Some rd) t2) (cs_Phase row) < sub_time t2 t1"
  shows "cs_Phase (next_row pool name idx row outer (Some rd) t2) = CellPhaseFailed \<and>
    cs_FailureCount (next_row pool name idx row outer (Some rd) t2) = wrap32 (cs_FailureCount row + 1) \<and>
    cs_Reason (next_row pool name idx row outer (Some rd) t2) \<noteq> [] \<and>
    cs_LastTransitionTime (next_row pool name idx row outer (Some rd) t2) = Some t2"
proof -
  let ?obs = "observation_of pool row outer (Some rd) t2"
  have prev: "previous_row row outer = row"
    using assms(3) by (simp add: previous_row_def)
  have ph: "cs_Phase row \<noteq> PhaseUnset" "cs_Phase row \<noteq> CellPhaseFailed" "\<not> phase_leaving (cs_Phase row)"
    using assms(4,5) stage_not_terminal [of ?obs] by auto
  then have "budget_spent ?obs (stage ?obs) (rung_budget ?obs (stage ?obs))"
    using assms by (simp add: budget_spent_def transitionOr_def phaseOr_def)
  then have dec: "de_Phase (AdvanceCell ?obs) = CellPhaseFailed"
    using ph by (simp add: AdvanceCell_phase spec_phase_def)
  moreover have "de_Reason (AdvanceCell ?obs) \<noteq> []"
    using AdvanceCell_failed_reason [OF dec] ph by simp
  ultimately show ?thesis
    using ph by (simp add: next_row_def prev Let_def)
qed

theorem stuck_cell_fails_witness:
  "cs_Phase (next_row sample_pool ''p-0'' 0 (sample_row ''p-0'' 0 CellPhaseAllocatingGPU)
     (zero_OuterState\<lparr>os_UID := ''u'', os_Exists := True\<rparr>)
     (Some \<lparr>in_Node = zero_NodeState, in_Health = None, in_Devices = None\<rparr>) (2 + 15 * Minute)) = CellPhaseFailed"
  using stuck_cell_fails [of "sample_row ''p-0'' 0 CellPhaseAllocatingGPU" 1
      "zero_OuterState\<lparr>os_UID := ''u'', os_Exists := True\<rparr>" sample_pool
      "\<lparr>in_Node = zero_NodeState, in_Health = None, in_Devices = None\<rparr>" "2 + 15 * Minute" "''p-0''" 0]
  by (simp add: sample_row_def stage_cases zero_OuterState_def zero_NodeState_def sample_pool_def durationOr_def
      sub_time_def Minute_def Second_def)

text \<open>
  A teardown is sticky: as long as the guest is the same, no reading of either cluster takes a
  draining row out of Draining, resets its clock or changes its failure count.
\<close>

theorem draining_is_sticky:
  assumes "cs_Phase row = CellPhaseDraining" and "cs_LastTransitionTime row = Some t1"
    and "cs_GuestUID row = os_UID outer"
  shows "cs_Phase (next_row pool name idx row outer inner now) = CellPhaseDraining \<and>
    cs_LastTransitionTime (next_row pool name idx row outer inner now) = Some t1 \<and>
    cs_FailureCount (next_row pool name idx row outer inner now) = cs_FailureCount row \<and>
    cs_Reason (next_row pool name idx row outer inner now) = cs_Reason row"
proof -
  have prev: "previous_row row outer = row"
    using assms(3) by (simp add: previous_row_def)
  show ?thesis
    using assms by (simp add: next_row_def prev Let_def AdvanceCell_def phaseOr_def)
qed

theorem draining_is_sticky_witness:
  "cs_Phase (next_row sample_pool ''p-0'' 0 (sample_row ''p-0'' 0 CellPhaseDraining)
     (zero_OuterState\<lparr>os_UID := ''u'', os_Failed := True\<rparr>) None 9) = CellPhaseDraining"
  using draining_is_sticky [of "sample_row ''p-0'' 0 CellPhaseDraining" 1
      "zero_OuterState\<lparr>os_UID := ''u'', os_Failed := True\<rparr>" sample_pool "''p-0''" 0 None 9]
  by (simp add: sample_row_def)

text \<open>
  The recorded cause of a failure does not survive an outage: one pass over a Failed cell while
  the workload cluster is unreachable replaces its reason by Unreachable, and the passes after it,
  with the cluster reachable again, keep that; so a cell that failed since its Node never
  registered is then no longer counted by the suspect-credential guard.
\<close>

theorem failed_reason_lost_on_outage:
  assumes "cs_Phase row = CellPhaseFailed" and "cs_GuestUID row = os_UID outer" and "\<not> os_Failed outer"
  shows "let row1 = next_row pool name idx row outer None t1;
             row2 = next_row pool name idx row1 outer (Some rd) t2
         in cs_Phase row2 = CellPhaseFailed \<and> cs_Reason row1 = ReasonUnreachable \<and>
            cs_Reason row2 = ReasonUnreachable \<and> suspectCredentialFailures [row2] = 0"
proof -
  have same: "previous_row r outer = r" if "cs_GuestUID r = os_UID outer" for r
    using that by (simp add: previous_row_def)
  let ?row1 = "next_row pool name idx row outer None t1"
  have "AdvanceCell (observation_of pool row outer None t1) =
      \<lparr>de_Phase = CellPhaseFailed, de_Reason = ReasonUnreachable,
       de_Message = ''workload cluster unreachable; cell state is frozen at its last observation'',
       de_ReapStaleNode = False\<rparr>"
    using assms by (simp add: AdvanceCell_def phaseOr_def)
  then have row1: "cs_Phase ?row1 = CellPhaseFailed" "cs_Reason ?row1 = ReasonUnreachable"
    "cs_GuestUID ?row1 = os_UID outer"
    using assms by (simp_all add: next_row_def same Let_def)
  moreover have "AdvanceCell (observation_of pool ?row1 outer (Some rd) t2) =
      \<lparr>de_Phase = CellPhaseFailed, de_Reason = [], de_Message = [], de_ReapStaleNode = False\<rparr>"
    using assms row1(1) by (simp add: AdvanceCell_def phaseOr_def)
  then have "cs_Phase (next_row pool name idx ?row1 outer (Some rd) t2) = CellPhaseFailed"
    "cs_Reason (next_row pool name idx ?row1 outer (Some rd) t2) = ReasonUnreachable"
    using row1 by (simp_all add: next_row_def [of _ _ _ ?row1] same Let_def)
  ultimately show ?thesis by (simp add: Let_def)
qed

theorem failed_reason_lost_on_outage_witness:
  "cs_Reason (sample_row ''p-0'' 0 CellPhaseFailed\<lparr>cs_Reason := ReasonNodeNeverRegistered\<rparr>) = ReasonNodeNeverRegistered \<and>
   cs_Reason (next_row sample_pool ''p-0'' 0
     (sample_row ''p-0'' 0 CellPhaseFailed\<lparr>cs_Reason := ReasonNodeNeverRegistered\<rparr>)
     (zero_OuterState\<lparr>os_UID := ''u'', os_Exists := True\<rparr>) None 9) = ReasonUnreachable"
  using failed_reason_lost_on_outage [of "sample_row ''p-0'' 0 CellPhaseFailed\<lparr>cs_Reason := ReasonNodeNeverRegistered\<rparr>"
      "zero_OuterState\<lparr>os_UID := ''u'', os_Exists := True\<rparr>" sample_pool "''p-0''" 0 9]
  by (simp add: sample_row_def zero_OuterState_def Let_def)

end
