(* ===== verification/Status.thy ===== *)
theory Status
  imports Scaling Rollout CellRow
begin

text \<open>
  What the pool publishes: \<^verbatim>\<open>internal/controller/status.go\<close> (counts, capacity, conditions), the
  gauges of \<^verbatim>\<open>internal/controller/metrics.go\<close> and \<^verbatim>\<open>writeStatus\<close> of \<^verbatim>\<open>controller.go\<close>. apimachinery's
  \<^verbatim>\<open>meta.SetStatusCondition\<close> is an argument of \<open>ApplyConditions\<close>. A gauge is the metric's name, its
  label values after pool and namespace, and the integer whose \<^verbatim>\<open>float64\<close> it is set to.
\<close>

section \<open>Counts and capacity\<close>

record CellCounts =
  co_total :: i32
  co_ready :: i32
  co_creating :: i32
  co_draining :: i32
  co_failed :: i32

definition count_step :: "CellStatus \<Rightarrow> CellCounts \<Rightarrow> CellCounts" where
  "count_step c n =
     (let n = n\<lparr>co_total := wrap32 (co_total n + 1)\<rparr> in
      case cs_Phase c of
        CellPhaseReady \<Rightarrow> n\<lparr>co_ready := wrap32 (co_ready n + 1)\<rparr>
      | CellPhaseFailed \<Rightarrow> n\<lparr>co_failed := wrap32 (co_failed n + 1)\<rparr>
      | CellPhaseDraining \<Rightarrow> n\<lparr>co_draining := wrap32 (co_draining n + 1)\<rparr>
      | CellPhaseDeleting \<Rightarrow> n\<lparr>co_draining := wrap32 (co_draining n + 1)\<rparr>
      | _ \<Rightarrow> n\<lparr>co_creating := wrap32 (co_creating n + 1)\<rparr>)"

definition CountCells :: "CellStatus list \<Rightarrow> CellCounts" where
  "CountCells cells = fold count_step cells
     \<lparr>co_total = 0, co_ready = 0, co_creating = 0, co_draining = 0, co_failed = 0\<rparr>"

abbreviation mib :: int where "mib \<equiv> 1048576"

definition memoryCapacity :: "i64 \<Rightarrow> i64 \<Rightarrow> MemoryCapacity" where
  "memoryCapacity totalMiB allocatedMiB =
     \<lparr>mc_Total = wrap64 (totalMiB * mib), mc_Allocated = wrap64 (allocatedMiB * mib),
      mc_Available = wrap64 (wrap64 (totalMiB - allocatedMiB) * mib)\<rparr>"

definition computeCapacity :: "i64 \<Rightarrow> i64 \<Rightarrow> ComputeCapacity" where
  \<comment> \<open>the composite literal that \<^verbatim>\<open>WorkloadCapacityStatus\<close> writes twice\<close>
  "computeCapacity tot allocated =
     \<lparr>cc_Total = wrap32 tot, cc_Allocated = wrap32 allocated,
      cc_Available = wrap32 (wrap64 (tot - allocated))\<rparr>"

definition modelCapacityStatus :: "ModelCapacity \<Rightarrow> ModelCapacityStatus" where
  "modelCapacityStatus m =
     \<lparr>ms_Model = mo_Model m, ms_Devices = wrap32 (mo_Devices m),
      ms_Memory = memoryCapacity (mo_MemoryTotalMiB m) (mo_MemoryAllocatedMiB m),
      ms_Compute = computeCapacity (mo_ComputeTotal m) (mo_ComputeAllocated m)\<rparr>"

definition workloadCapacityStatus :: "string \<Rightarrow> string \<Rightarrow> Capacity \<Rightarrow> gotime \<Rightarrow> WorkloadCapacityStatus" where
  "workloadCapacityStatus provider mode c observed =
     \<lparr>wk_Provider = provider, wk_Mode = mode, wk_GPUDevices = wrap32 (cy_Devices c),
      wk_Homogeneous = cy_Homogeneous c,
      wk_GPUMemory = memoryCapacity (cy_MemoryTotalMiB c) (cy_MemoryAllocatedMiB c),
      wk_GPUCompute = (if cy_Homogeneous c
                       then Some (computeCapacity (cy_ComputeTotal c) (cy_ComputeAllocated c)) else None),
      wk_ByModel = map modelCapacityStatus (cy_ByModel c),
      wk_LastObserved = Some observed\<rparr>"

section \<open>Conditions\<close>

record ConditionInput =
  ci_Generation :: i64
  ci_Desired :: i32
  ci_Ready :: i32
  ci_WorkloadReachable :: bool
  ci_WorkloadReason :: string
  ci_WorkloadMessage :: string
  ci_ProviderHealth :: Health
  ci_CapacityKnown :: bool
  ci_Capacity :: Capacity
  ci_FreeGPUs :: "goint option"
  ci_CellsWaitingForGPU :: goint
  ci_Membership :: MembershipPlan
  ci_Progressing :: bool
  ci_Rollout :: RolloutDecision
  ci_Autoscaling :: bool
  ci_Scale :: ScaleDecision
  ci_DemandKnown :: bool

abbreviation ConditionTrue :: string where "ConditionTrue \<equiv> ''True''"
abbreviation ConditionFalse :: string where "ConditionFalse \<equiv> ''False''"

definition set_condition :: "i64 \<Rightarrow> string \<Rightarrow> bool \<Rightarrow> string \<Rightarrow> string \<Rightarrow> Condition" where
  \<comment> \<open>the closure \<^verbatim>\<open>set\<close> of \<^verbatim>\<open>ComputeConditions\<close>\<close>
  "set_condition gen t ok reason msg =
     \<lparr>cn_Type = t, cn_Status = (if ok then ConditionTrue else ConditionFalse), cn_Reason = reason,
      cn_Message = msg, cn_ObservedGeneration = gen, cn_LastTransitionTime = None\<rparr>"

definition emptyByDesign :: "ConditionInput \<Rightarrow> bool" where
  "emptyByDesign inp \<longleftrightarrow> ci_Desired inp = 0 \<and> ci_Ready inp = 0"

definition deref :: "goint option \<Rightarrow> goint" where
  "deref p = (case p of None \<Rightarrow> 0 | Some n \<Rightarrow> n)"

definition reachable_condition :: "ConditionInput \<Rightarrow> Condition" where
  "reachable_condition inp =
     set_condition (ci_Generation inp) ConditionWorkloadClusterReachable (ci_WorkloadReachable inp)
       (if ci_WorkloadReason inp = [] then ReasonConnected else ci_WorkloadReason inp)
       (ci_WorkloadMessage inp)"

definition provider_condition :: "ConditionInput \<Rightarrow> Condition" where
  "provider_condition inp =
     set_condition (ci_Generation inp) ConditionCapacityProviderReady (he_Ready (ci_ProviderHealth inp))
       (if he_Reason (ci_ProviderHealth inp) = [] then ReasonHAMiDetected else he_Reason (ci_ProviderHealth inp))
       (he_Message (ci_ProviderHealth inp))"

definition physical_condition :: "ConditionInput \<Rightarrow> Condition" where
  "physical_condition inp =
     (let wantsGPU = 0 < ci_CellsWaitingForGPU inp \<or> mp_Reason (ci_Membership inp) = ReasonInsufficientGPUs;
          put = set_condition (ci_Generation inp) ConditionPhysicalGPUsAvailable
      in case ci_FreeGPUs inp of
           None \<Rightarrow> put True ReasonCapacityUnknown ''free GPU count could not be read from the infrastructure cluster''
         | Some free \<Rightarrow>
             if free \<le> 0 \<and> wantsGPU then
               put False ReasonInsufficientGPUs
                 (if 0 < ci_CellsWaitingForGPU inp
                  then itoa (ci_CellsWaitingForGPU inp) @ '' cell(s) waiting and no free GPU in the infrastructure cluster''
                  else ''the pool wants more cells and no free GPU is available in the infrastructure cluster'')
             else put True ReasonFreeDevices
               (itoa (deref (ci_FreeGPUs inp)) @ '' free GPU(s) in the infrastructure cluster''))"

definition capacity_condition :: "ConditionInput \<Rightarrow> Condition" where
  "capacity_condition inp =
     (let c = ci_Capacity inp; put = set_condition (ci_Generation inp) ConditionCapacityAvailable in
      if \<not> ci_CapacityKnown inp then
        put False ReasonCapacityUnknown ''capacity could not be read; the last known values are retained''
      else if \<not> cy_Homogeneous c then
        put (cy_MemoryAllocatedMiB c < cy_MemoryTotalMiB c) ReasonHeterogeneous
          ''pool holds more than one GPU model; per-model capacity is authoritative and the pool-wide compute aggregate is omitted''
      else if cy_Devices c = 0 \<and> emptyByDesign inp then
        put False ReasonScaledToZero
          (''the pool holds no cells, so it advertises no GPU capacity; '' @
           ''a pending request that one cell can satisfy will create one'')
      else if cy_Devices c = 0 then
        put False ReasonCapacityUnknown ''no GPU devices are advertised by the capacity provider yet''
      else if cy_MemoryTotalMiB c \<le> cy_MemoryAllocatedMiB c \<or> cy_ComputeTotal c \<le> cy_ComputeAllocated c then
        put False ReasonSaturated ''every advertised GPU is fully allocated''
      else put True ReasonCapacityFree [])"

definition progressing_condition :: "ConditionInput \<Rightarrow> Condition" where
  "progressing_condition inp =
     (let progressing = ci_Progressing inp \<and> \<not> mp_Stalled (ci_Membership inp);
          put = set_condition (ci_Generation inp) ConditionProgressing progressing
      in if mp_Stalled (ci_Membership inp) then put (mp_Reason (ci_Membership inp)) (mp_Message (ci_Membership inp))
         else if progressing then put ReasonCellCreating (mp_Message (ci_Membership inp))
         else put ReasonIdle [])"

definition ready_condition_of :: "ConditionInput \<Rightarrow> Condition" where
  "ready_condition_of inp =
     (let ready = (ci_Ready inp = ci_Desired inp); put = set_condition (ci_Generation inp) ConditionReady in
      if \<not> ci_WorkloadReachable inp then put False ReasonUnreachable ''workload cluster unreachable''
      else if \<not> he_Ready (ci_ProviderHealth inp) then
        put False (he_Reason (ci_ProviderHealth inp)) (he_Message (ci_ProviderHealth inp))
      else if emptyByDesign inp then
        put ready ReasonScaledToZero ''the pool holds no cells by design (desired 0)''
      else if \<not> ready then
        put ready ReasonCellsNotReady
          (itoa (ci_Ready inp) @ '' of '' @ itoa (ci_Desired inp) @ '' cells are Ready'')
      else put ready ReasonAllCellsReady [])"

definition ComputeConditions :: "ConditionInput \<Rightarrow> Condition list" where
  "ComputeConditions inp =
     [reachable_condition inp, provider_condition inp, physical_condition inp, capacity_condition inp,
      progressing_condition inp] @
     (if ci_Autoscaling inp
      then [set_condition (ci_Generation inp) ConditionScalingActive (ci_DemandKnown inp)
              (sd_Reason (ci_Scale inp)) (sd_Message (ci_Scale inp))]
      else []) @
     [set_condition (ci_Generation inp) ConditionUpdated (rr_UpToDate (ci_Rollout inp))
        (rr_Reason (ci_Rollout inp)) (rr_Message (ci_Rollout inp)),
      ready_condition_of inp]"

definition ApplyConditions ::
  "(Condition list \<Rightarrow> Condition \<Rightarrow> Condition list) \<Rightarrow> Condition list \<Rightarrow> Condition list \<Rightarrow> Condition list" where
  "ApplyConditions setStatusCondition existing computed = foldl setStatusCondition existing computed"

section \<open>Gauges\<close>

definition allCellPhases :: "CellPhase list" where
  "allCellPhases = [CellPhasePending, CellPhaseAllocatingGPU, CellPhaseGuestProvisioning, CellPhaseBooting,
     CellPhaseJoining, CellPhaseAwaitingGPUCapacity, CellPhaseReady, CellPhaseDraining, CellPhaseDeleting,
     CellPhaseFailed]"

fun phase_label :: "CellPhase \<Rightarrow> string" where
  "phase_label PhaseUnset = []"
| "phase_label CellPhasePending = ''Pending''"
| "phase_label CellPhaseAllocatingGPU = ''AllocatingGPU''"
| "phase_label CellPhaseGuestProvisioning = ''GuestProvisioning''"
| "phase_label CellPhaseBooting = ''Booting''"
| "phase_label CellPhaseJoining = ''Joining''"
| "phase_label CellPhaseAwaitingGPUCapacity = ''AwaitingGPUCapacity''"
| "phase_label CellPhaseReady = ''Ready''"
| "phase_label CellPhaseDraining = ''Draining''"
| "phase_label CellPhaseDeleting = ''Deleting''"
| "phase_label CellPhaseFailed = ''Failed''"

datatype metric = CellsDesired | Cells | CellStartupSeconds | CellTransitionsTotal | PhysicalGPUs
  | CapacityGPUDevices | CapacityGPUMemoryBytes | CapacityGPUComputePercent | WorkloadClusterReachable
  | CapacityScrapeErrorsTotal | ScaleDecisionsTotal | ReconcileErrorsTotal

fun metric_labels :: "metric \<Rightarrow> string list" where
  "metric_labels CellsDesired = [''pool'', ''namespace'']"
| "metric_labels Cells = [''pool'', ''namespace'', ''phase'']"
| "metric_labels CellStartupSeconds = [''pool'', ''namespace'']"
| "metric_labels CellTransitionsTotal = [''pool'', ''namespace'', ''from'', ''to'']"
| "metric_labels PhysicalGPUs = [''pool'', ''namespace'', ''state'']"
| "metric_labels CapacityGPUDevices = [''pool'', ''namespace'']"
| "metric_labels CapacityGPUMemoryBytes = [''pool'', ''namespace'', ''state'']"
| "metric_labels CapacityGPUComputePercent = [''pool'', ''namespace'', ''state'']"
| "metric_labels WorkloadClusterReachable = [''pool'', ''namespace'']"
| "metric_labels CapacityScrapeErrorsTotal = [''pool'', ''namespace'', ''reason'']"
| "metric_labels ScaleDecisionsTotal = [''pool'', ''namespace'', ''reason'', ''scaled_up'']"
| "metric_labels ReconcileErrorsTotal = [''pool'', ''namespace'']"

definition WithLabelValues_ok :: "metric \<Rightarrow> string list \<Rightarrow> bool" where
  \<comment> \<open>client_golang panics unless there is one value per label\<close>
  "WithLabelValues_ok m labels \<longleftrightarrow> length labels = length (metric_labels m)"

type_synonym gauge = "metric \<times> string list \<times> int"

definition held_devices :: "CellStatus list \<Rightarrow> goint" where
  "held_devices cells = fold (\<lambda>c n. wrap64 (n + int (length (cs_Devices c)))) cells 0"

definition publishMetrics ::
  "CellStatus list \<Rightarrow> ScaleDecision \<Rightarrow> goint option \<Rightarrow> Capacity \<Rightarrow> bool \<Rightarrow> gauge list" where
  "publishMetrics cells scale freeGPUs cap0 capacityKnown =
     [(CellsDesired, [], sd_Desired scale)] @
     map (\<lambda>p. (Cells, [phase_label p], int (length (filter (\<lambda>c. cs_Phase c = p) cells)))) allCellPhases @
     [(PhysicalGPUs, [''held''], held_devices cells)] @
     (case freeGPUs of None \<Rightarrow> [] | Some f \<Rightarrow> [(PhysicalGPUs, [''free''], f)]) @
     (if \<not> capacityKnown then []
      else
        [(CapacityGPUDevices, [], cy_Devices cap0),
         (CapacityGPUMemoryBytes, [''total''], wrap64 (cy_MemoryTotalMiB cap0 * mib)),
         (CapacityGPUMemoryBytes, [''allocated''], wrap64 (cy_MemoryAllocatedMiB cap0 * mib)),
         (CapacityGPUMemoryBytes, [''available''],
            wrap64 (wrap64 (cy_MemoryTotalMiB cap0 - cy_MemoryAllocatedMiB cap0) * mib))] @
        (if cy_Homogeneous cap0
         then [(CapacityGPUComputePercent, [''total''], cy_ComputeTotal cap0),
               (CapacityGPUComputePercent, [''allocated''], cy_ComputeAllocated cap0),
               (CapacityGPUComputePercent, [''available''],
                  wrap64 (cy_ComputeTotal cap0 - cy_ComputeAllocated cap0))]
         else []))"

section \<open>Writing the status\<close>

definition cells_waiting :: "CellStatus list \<Rightarrow> goint" where
  "cells_waiting cells =
     int (length (filter (\<lambda>c. cs_Phase c = CellPhaseAllocatingGPU \<or> cs_Phase c = CellPhasePending) cells))"

definition status_input ::
  "GPUCellPool \<Rightarrow> CellStatus list \<Rightarrow> MembershipPlan \<Rightarrow> ScaleDecision \<Rightarrow> RolloutDecision \<Rightarrow> bool \<Rightarrow>
   goint option \<Rightarrow> Health \<Rightarrow> Capacity \<Rightarrow> bool \<Rightarrow> bool \<Rightarrow> string \<Rightarrow> string \<Rightarrow> ConditionInput" where
  \<comment> \<open>the \<^verbatim>\<open>ConditionInput\<close> literal of \<^verbatim>\<open>writeStatus\<close>\<close>
  "status_input pool cells plan scale rollout demandKnown freeGPUs health cap0 capacityKnown
     reachable reachReason reachMsg =
     (let n = CountCells cells in
      \<lparr>ci_Generation = po_Generation pool, ci_Desired = sd_Desired scale, ci_Ready = co_ready n,
       ci_WorkloadReachable = reachable, ci_WorkloadReason = reachReason, ci_WorkloadMessage = reachMsg,
       ci_ProviderHealth = health, ci_CapacityKnown = capacityKnown, ci_Capacity = cap0,
       ci_FreeGPUs = freeGPUs, ci_CellsWaitingForGPU = cells_waiting cells, ci_Membership = plan,
       ci_Progressing = (0 < co_creating n \<or> 0 < co_draining n \<or> 0 < length (mp_Create plan)),
       ci_Rollout = rollout, ci_Autoscaling = autoscalingEnabled pool, ci_Scale = scale,
       ci_DemandKnown = demandKnown\<rparr>)"

definition writeStatus ::
  "(Condition list \<Rightarrow> Condition \<Rightarrow> Condition list) \<Rightarrow> gotime \<Rightarrow> GPUCellPool \<Rightarrow> CellStatus list \<Rightarrow>
   MembershipPlan \<Rightarrow> ScaleDecision \<Rightarrow> RolloutDecision \<Rightarrow> Demand \<Rightarrow> bool \<Rightarrow> goint option \<Rightarrow> Health \<Rightarrow>
   Capacity \<Rightarrow> bool \<Rightarrow> bool \<Rightarrow> string \<Rightarrow> string \<Rightarrow> GPUCellPool" where
  "writeStatus setStatusCondition now pool cells plan scale rollout demand demandKnown freeGPUs health
     cap0 capacityKnown reachable reachReason reachMsg =
     (let n = CountCells cells;
          st = (po_Status pool)\<lparr>st_ObservedGeneration := po_Generation pool, st_Replicas := co_total n,
            st_ReadyCells := co_ready n, st_CreatingCells := co_creating n,
            st_DrainingCells := co_draining n, st_FailedCells := co_failed n, st_Cells := cells,
            st_DesiredReplicas := sd_Desired scale\<rparr>;
          st = (if autoscalingEnabled pool \<and> demandKnown
                then st\<lparr>st_Demand := Some \<lparr>ds_PendingRequests = wrap32 (dm_PendingRequests demand),
                       ds_SatisfiableByOneCell = wrap32 (dm_SatisfiableByOneCell demand),
                       ds_LastObserved = Some now\<rparr>\<rparr>
                else st);
          st = st\<lparr>st_PhysicalCapacity := Some \<lparr>pc_GPUs = wrap32 (held_devices cells),
                  pc_FreeGPUsInCluster = map_option wrap32 freeGPUs,
                  pc_Model = (case cy_ByModel cap0 of [] \<Rightarrow> [] | m # _ \<Rightarrow> mo_Model m)\<rparr>\<rparr>;
          st = (if capacityKnown
                then st\<lparr>st_WorkloadCapacity :=
                       Some (workloadCapacityStatus (providerName pool) (hamiMode pool) cap0 now)\<rparr>
                else st)
      in pool\<lparr>po_Status := st\<lparr>st_Conditions :=
            ApplyConditions setStatusCondition (st_Conditions st)
              (ComputeConditions (status_input pool cells plan scale rollout demandKnown freeGPUs health cap0
                 capacityKnown reachable reachReason reachMsg))\<rparr>\<rparr>)"

section \<open>Facts\<close>

definition creating_row :: "CellStatus \<Rightarrow> bool" where
  "creating_row c \<longleftrightarrow> cs_Phase c \<notin> {CellPhaseReady, CellPhaseFailed, CellPhaseDraining, CellPhaseDeleting}"

definition rows :: "(CellStatus \<Rightarrow> bool) \<Rightarrow> CellStatus list \<Rightarrow> int" where
  "rows P cells = int (length (filter P cells))"

lemma rows_simps [simp]:
  "rows P [] = 0" "rows P (c # cs) = (if P c then 1 else 0) + rows P cs" "0 \<le> rows P cs" "rows P cs \<le> int (length cs)"
  by (simp_all add: rows_def)

lemma count_step_simps:
  "co_total (count_step c n) = wrap32 (co_total n + 1)"
  "co_ready (count_step c n) = (if cs_Phase c = CellPhaseReady then wrap32 (co_ready n + 1) else co_ready n)"
  "co_failed (count_step c n) = (if cs_Phase c = CellPhaseFailed then wrap32 (co_failed n + 1) else co_failed n)"
  "co_draining (count_step c n) = (if phase_leaving (cs_Phase c) then wrap32 (co_draining n + 1) else co_draining n)"
  "co_creating (count_step c n) = (if creating_row c then wrap32 (co_creating n + 1) else co_creating n)"
  by (cases "cs_Phase c"; simp add: count_step_def creating_row_def Let_def)+

text \<open>A counter that a fold steps by one on some rows counts them, as long as it cannot wrap.\<close>

lemma fold_counter:
  assumes "\<And>c n. f (step c n) = (if P c then wrap32 (f n + 1) else f n)"
    and "0 \<le> f n" and "f n + int (length cells) < 2147483648"
  shows "f (fold step cells n) = f n + rows P cells"
  using assms(2,3)
  by (induction cells arbitrary: n) (simp_all add: assms(1) wrap32_id in_i32_def)

lemma CountCells_rows:
  assumes "length cells < 2147483648"
  shows "co_total (CountCells cells) = int (length cells)"
    "co_ready (CountCells cells) = rows (\<lambda>c. cs_Phase c = CellPhaseReady) cells"
    "co_failed (CountCells cells) = rows (\<lambda>c. cs_Phase c = CellPhaseFailed) cells"
    "co_draining (CountCells cells) = rows (\<lambda>c. phase_leaving (cs_Phase c)) cells"
    "co_creating (CountCells cells) = rows creating_row cells"
proof -
  show "co_total (CountCells cells) = int (length cells)"
    using assms fold_counter [where f = co_total and step = count_step and P = "\<lambda>_. True"]
    by (simp add: CountCells_def count_step_simps rows_def)
qed (use assms in \<open>simp_all add: CountCells_def count_step_simps
    fold_counter [where f = co_ready and P = "\<lambda>c. cs_Phase c = CellPhaseReady"]
    fold_counter [where f = co_failed and P = "\<lambda>c. cs_Phase c = CellPhaseFailed"]
    fold_counter [where f = co_draining and P = "\<lambda>c. phase_leaving (cs_Phase c)"]
    fold_counter [where f = co_creating and P = creating_row]\<close>)

lemma rows_partition:
  "rows (\<lambda>c. cs_Phase c = CellPhaseReady) cells + rows creating_row cells +
   rows (\<lambda>c. phase_leaving (cs_Phase c)) cells + rows (\<lambda>c. cs_Phase c = CellPhaseFailed) cells = int (length cells)"
  by (induction cells) (auto simp: creating_row_def phase_leaving_iff)

lemma set_condition_simps [simp]:
  "cn_Type (set_condition g t ok r m) = t" "cn_Reason (set_condition g t ok r m) = r"
  "cn_Status (set_condition g t ok r m) = (if ok then ConditionTrue else ConditionFalse)"
  by (simp_all add: set_condition_def)

lemma condition_types [simp]:
  "cn_Type (reachable_condition inp) = ConditionWorkloadClusterReachable"
  "cn_Type (provider_condition inp) = ConditionCapacityProviderReady"
  "cn_Type (physical_condition inp) = ConditionPhysicalGPUsAvailable"
  "cn_Type (capacity_condition inp) = ConditionCapacityAvailable"
  "cn_Type (progressing_condition inp) = ConditionProgressing"
  "cn_Type (ready_condition_of inp) = ConditionReady"
  by (simp_all add: reachable_condition_def provider_condition_def physical_condition_def capacity_condition_def
      progressing_condition_def ready_condition_of_def Let_def split: option.split)

text \<open>Reasons are never empty: the API server rejects a condition without one.\<close>

lemma DecideScale_reason: "sd_Reason (DecideScale inp) \<noteq> []"
  by (cases "si_Autoscaling inp") (simp_all add: scale_defs)

lemma PlanRollout_reason: "rr_Reason (PlanRollout inp) \<noteq> []"
  by (simp add: PlanRollout_def rollout_blocked_def Let_def split: option.split)

lemma failed_pass_reason: "failed_pass inp cs plan = Inl p \<Longrightarrow> mp_Reason p \<noteq> []"
  by (induction cs arbitrary: plan) (auto simp: Let_def split: if_splits option.splits)

lemma failed_pass_stalled_Inr: "failed_pass inp cs plan = Inr p \<Longrightarrow> mp_Stalled p = mp_Stalled plan"
  by (induction cs arbitrary: plan) (fastforce simp: Let_def split: if_splits option.splits)+

lemma plan_create_stalled_reason:
  "\<not> mp_Stalled plan \<Longrightarrow> mp_Stalled (plan_create inp t plan) \<Longrightarrow> mp_Reason (plan_create inp t plan) \<noteq> []"
  by (auto simp: plan_create_def Let_def split: if_splits option.splits)

lemma PlanMembership_stalled_reason:
  assumes "mp_Stalled (PlanMembership inp)"
  shows "mp_Reason (PlanMembership inp) \<noteq> []"
proof -
  let ?n = "normal_input inp" and ?t = "tally (mi_Cells (normal_input inp))"
  show ?thesis
  proof (cases "failed_pass ?n (mt_failed ?t) zero_MembershipPlan")
    case (Inl p)
    with assms failed_pass_reason [OF Inl] show ?thesis
      by (auto simp: PlanMembership_def plan_scale_down_def zero_MembershipPlan_def Let_def
          simp flip: normal_input_def split: if_splits)
  next
    case (Inr p)
    then have "\<not> mp_Stalled p"
      using failed_pass_stalled_Inr [OF Inr] by (simp add: zero_MembershipPlan_def)
    with assms Inr plan_create_stalled_reason [of p ?n ?t] show ?thesis
      by (auto simp: PlanMembership_def plan_scale_down_def zero_MembershipPlan_def Let_def
          simp flip: normal_input_def split: if_splits)
  qed
qed

subsection \<open>Merging conditions\<close>

definition condition_of :: "Condition list \<Rightarrow> string \<Rightarrow> Condition option" where
  "condition_of cs t = find (\<lambda>c. cn_Type c = t) cs"

text \<open>
  What \<^verbatim>\<open>meta.SetStatusCondition\<close> documents: the condition of that type becomes the given one, its
  transition time being kept when the status does not change, and other types are untouched.
\<close>

definition sets_condition :: "(Condition list \<Rightarrow> Condition \<Rightarrow> Condition list) \<Rightarrow> bool" where
  "sets_condition f \<longleftrightarrow>
     (\<forall>cs c. \<exists>lt. condition_of (f cs c) (cn_Type c) = Some (c\<lparr>cn_LastTransitionTime := lt\<rparr>) \<and>
        (\<forall>old. condition_of cs (cn_Type c) = Some old \<and> cn_Status old = cn_Status c \<longrightarrow>
           lt = cn_LastTransitionTime old)) \<and>
     (\<forall>cs c t. t \<noteq> cn_Type c \<longrightarrow> condition_of (f cs c) t = condition_of cs t)"

lemma foldl_foreign_condition:
  assumes "sets_condition f" and "t \<notin> cn_Type ` set computed"
  shows "condition_of (foldl f cs computed) t = condition_of cs t"
  using assms(2)
proof (induction computed arbitrary: cs)
  case (Cons c computed)
  then show ?case using assms(1) by (simp add: sets_condition_def)
qed simp

lemma foldl_own_condition:
  assumes "sets_condition f" and "distinct (map cn_Type computed)" and "c \<in> set computed"
  shows "\<exists>lt. condition_of (foldl f cs computed) (cn_Type c) = Some (c\<lparr>cn_LastTransitionTime := lt\<rparr>) \<and>
    (\<forall>old. condition_of cs (cn_Type c) = Some old \<and> cn_Status old = cn_Status c \<longrightarrow>
       lt = cn_LastTransitionTime old)"
  using assms(2,3)
proof (induction computed arbitrary: cs)
  case (Cons x computed)
  show ?case
  proof (cases "x = c")
    case True
    then have "cn_Type c \<notin> cn_Type ` set computed" using Cons.prems by auto
    with True assms(1) foldl_foreign_condition [OF assms(1)] show ?thesis
      by (simp add: sets_condition_def)
  next
    case False
    with Cons.prems have mem: "c \<in> set computed" by simp
    have "cn_Type x \<notin> cn_Type ` set computed" using Cons.prems(1) by simp
    with mem have c: "c \<in> set computed" "cn_Type c \<noteq> cn_Type x" by (simp, metis imageI)
    with assms(1) have "condition_of (f cs x) (cn_Type c) = condition_of cs (cn_Type c)"
      by (simp add: sets_condition_def)
    with Cons c show ?thesis by (metis distinct.simps(2) foldl_Cons list.simps(9))
  qed
qed simp

lemma memoryCapacity_conserves:
  assumes "0 \<le> a" and "a \<le> m" and "m < 8796093022208"
  shows "mc_Total (memoryCapacity m a) = mc_Allocated (memoryCapacity m a) + mc_Available (memoryCapacity m a)"
    "mc_Total (memoryCapacity m a) = m * 1024 * 1024" "0 \<le> mc_Available (memoryCapacity m a)"
proof -
  have "wrap64 (m * mib) = m * mib" "wrap64 (a * mib) = a * mib" "wrap64 (m - a) = m - a"
    "wrap64 ((m - a) * mib) = m * mib - a * mib"
    using assms by (auto intro!: wrap64_id simp: in_i64_def left_diff_distrib)
  then have "memoryCapacity m a = \<lparr>mc_Total = m * mib, mc_Allocated = a * mib, mc_Available = m * mib - a * mib\<rparr>"
    by (simp only: memoryCapacity_def)
  with assms show "mc_Total (memoryCapacity m a) = mc_Allocated (memoryCapacity m a) + mc_Available (memoryCapacity m a)"
    "mc_Total (memoryCapacity m a) = m * 1024 * 1024" "0 \<le> mc_Available (memoryCapacity m a)"
    by simp_all
qed

lemma ComputeConditions_distinct: "distinct (map cn_Type (ComputeConditions inp))"
  by (simp add: ComputeConditions_def)

section \<open>Properties\<close>

text \<open>
  The counts partition the cells: ready, creating, draining and failed are the numbers of rows
  in those phases and add up to the total, which is the number of rows; no counter wraps below two
  billion cells.
\<close>

theorem CountCells_partition:
  assumes "length cells < 2147483648"
  shows "co_total (CountCells cells) = int (length cells) \<and>
    co_ready (CountCells cells) + co_creating (CountCells cells) + co_draining (CountCells cells) +
      co_failed (CountCells cells) = co_total (CountCells cells) \<and>
    co_ready (CountCells cells) = int (length (filter (\<lambda>c. cs_Phase c = CellPhaseReady) cells)) \<and>
    co_failed (CountCells cells) = int (length (filter (\<lambda>c. cs_Phase c = CellPhaseFailed) cells)) \<and>
    co_draining (CountCells cells) = int (length (filter (\<lambda>c. phase_leaving (cs_Phase c)) cells))"
  using CountCells_rows [OF assms] rows_partition [of cells] by (simp add: rows_def)

theorem CountCells_partition_witness:
  "co_ready (CountCells [sample_row ''p-0'' 0 CellPhaseReady, sample_row ''p-1'' 1 CellPhaseDeleting]) = 1 \<and>
   co_draining (CountCells [sample_row ''p-0'' 0 CellPhaseReady, sample_row ''p-1'' 1 CellPhaseDeleting]) = 1"
  using CountCells_partition [of "[sample_row ''p-0'' 0 CellPhaseReady, sample_row ''p-1'' 1 CellPhaseDeleting]"]
  by (simp add: sample_row_def)

text \<open>
  Published capacity is conserved and compute is never mixed: for readings whose byte counts
  fit 64 bits, total memory is what is allocated plus what is available, in the whole pool; and
  the pool-wide compute figure is present exactly when the reading is homogeneous, per-model
  figures always, in order.
\<close>

theorem workloadCapacityStatus_conserves:
  assumes "0 \<le> cy_MemoryAllocatedMiB c" and "cy_MemoryAllocatedMiB c \<le> cy_MemoryTotalMiB c"
    and "cy_MemoryTotalMiB c < 8796093022208"
  shows "let w = workloadCapacityStatus provider mode c now in
    mc_Total (wk_GPUMemory w) = mc_Allocated (wk_GPUMemory w) + mc_Available (wk_GPUMemory w) \<and>
    mc_Total (wk_GPUMemory w) = cy_MemoryTotalMiB c * 1024 * 1024 \<and> 0 \<le> mc_Available (wk_GPUMemory w) \<and>
    (wk_GPUCompute w \<noteq> None \<longleftrightarrow> cy_Homogeneous c) \<and>
    map ms_Model (wk_ByModel w) = map mo_Model (cy_ByModel c)"
  using memoryCapacity_conserves [OF assms]
  by (simp add: workloadCapacityStatus_def modelCapacityStatus_def Let_def)

theorem workloadCapacityStatus_conserves_witness:
  "mc_Total (wk_GPUMemory (workloadCapacityStatus ''HAMi'' ''DRA''
     (zero_Capacity\<lparr>cy_MemoryTotalMiB := 8, cy_MemoryAllocatedMiB := 3\<rparr>) 7)) = 8 * 1024 * 1024"
  using workloadCapacityStatus_conserves [of "zero_Capacity\<lparr>cy_MemoryTotalMiB := 8, cy_MemoryAllocatedMiB := 3\<rparr>" "''HAMi''" "''DRA''" 7]
  by (simp add: zero_Capacity_def Let_def)

text \<open>
  Every condition the reconciler computes from its own plan, scaling and rollout decisions has
  a reason, as the API server demands, provided a provider that is not ready in a reachable
  cluster says why; and no two conditions share a type.
\<close>

theorem ComputeConditions_valid:
  assumes "ci_Membership inp = PlanMembership m" and "ci_Scale inp = DecideScale s" and "ci_Rollout inp = PlanRollout r"
    and "ci_WorkloadReachable inp \<longrightarrow> he_Ready (ci_ProviderHealth inp) \<or> he_Reason (ci_ProviderHealth inp) \<noteq> []"
  shows "(\<forall>c \<in> set (ComputeConditions inp). cn_Reason c \<noteq> []) \<and> distinct (map cn_Type (ComputeConditions inp))"
proof -
  have "cn_Reason (reachable_condition inp) \<noteq> []" "cn_Reason (provider_condition inp) \<noteq> []"
    "cn_Reason (capacity_condition inp) \<noteq> []" "cn_Reason (physical_condition inp) \<noteq> []"
    by (simp_all add: reachable_condition_def provider_condition_def capacity_condition_def physical_condition_def
        Let_def split: option.split)
  moreover have "cn_Reason (progressing_condition inp) \<noteq> []"
    using PlanMembership_stalled_reason [of m] by (simp add: progressing_condition_def assms(1) Let_def)
  moreover have "cn_Reason (ready_condition_of inp) \<noteq> []"
    using assms(4) by (auto simp: ready_condition_of_def Let_def)
  ultimately have "\<forall>c \<in> set (ComputeConditions inp). cn_Reason c \<noteq> []"
    using DecideScale_reason PlanRollout_reason by (simp add: ComputeConditions_def assms(2,3))
  with ComputeConditions_distinct show ?thesis by blast
qed

definition sample_conditions :: ConditionInput where
  "sample_conditions = \<lparr>ci_Generation = 1, ci_Desired = 1, ci_Ready = 1, ci_WorkloadReachable = True,
     ci_WorkloadReason = [], ci_WorkloadMessage = [],
     ci_ProviderHealth = \<lparr>he_Ready = True, he_Reason = [], he_Message = []\<rparr>,
     ci_CapacityKnown = True, ci_Capacity = zero_Capacity, ci_FreeGPUs = Some 1, ci_CellsWaitingForGPU = 0,
     ci_Membership = PlanMembership (sample_input 1 [sample_row ''p-0'' 0 CellPhaseReady]),
     ci_Progressing = False, ci_Rollout = PlanRollout (sample_rollout []), ci_Autoscaling = True,
     ci_Scale = DecideScale (sample_scale 1 0 []), ci_DemandKnown = True\<rparr>"

theorem ComputeConditions_valid_witness:
  "\<forall>c \<in> set (ComputeConditions sample_conditions). cn_Reason c \<noteq> []"
  using ComputeConditions_valid [of sample_conditions "sample_input 1 [sample_row ''p-0'' 0 CellPhaseReady]"
      "sample_scale 1 0 []" "sample_rollout []"]
  by (simp add: sample_conditions_def)

text \<open>
  C31. The published Ready condition means what it says: after a status write it is True exactly
  when the workload cluster was reachable, the capacity provider usable and the number of rows in
  phase Ready is the count the scaler aims for; and conditions of other controllers are untouched.
  The hypothesis is what \<^verbatim>\<open>meta.SetStatusCondition\<close> documents.
\<close>

theorem writeStatus_Ready_truthful:
  assumes "sets_condition f" and "length cells < 2147483648"
  shows "let pool' = writeStatus f now pool cells plan scale rollout demand demandKnown freeGPUs health cap0
               capacityKnown reachable reachReason reachMsg
    in (\<exists>c. condition_of (st_Conditions (po_Status pool')) ConditionReady = Some c \<and>
         (cn_Status c = ConditionTrue \<longleftrightarrow> reachable \<and> he_Ready health \<and>
            int (length (filter (\<lambda>c. cs_Phase c = CellPhaseReady) cells)) = sd_Desired scale)) \<and>
       (\<forall>t. t \<notin> {ConditionWorkloadClusterReachable, ConditionCapacityProviderReady,
             ConditionPhysicalGPUsAvailable, ConditionCapacityAvailable, ConditionProgressing,
             ConditionScalingActive, ConditionUpdated, ConditionReady} \<longrightarrow>
          condition_of (st_Conditions (po_Status pool')) t = condition_of (st_Conditions (po_Status pool)) t)"
proof -
  let ?p = "writeStatus f now pool cells plan scale rollout demand demandKnown freeGPUs health cap0
      capacityKnown reachable reachReason reachMsg"
  define inp where "inp = status_input pool cells plan scale rollout demandKnown freeGPUs health cap0
      capacityKnown reachable reachReason reachMsg"
  have inp: "ci_Ready inp = co_ready (CountCells cells)" "ci_Desired inp = sd_Desired scale"
      "ci_WorkloadReachable inp = reachable" "ci_ProviderHealth inp = health"
    by (simp_all add: inp_def status_input_def Let_def)
  have conds: "st_Conditions (po_Status ?p) =
      foldl f (st_Conditions (po_Status pool)) (ComputeConditions inp)"
    by (simp add: writeStatus_def ApplyConditions_def inp_def Let_def)
  have mem: "ready_condition_of inp \<in> set (ComputeConditions inp)"
    by (simp add: ComputeConditions_def)
  have st: "cn_Status (ready_condition_of inp) = ConditionTrue \<longleftrightarrow>
      reachable \<and> he_Ready health \<and> co_ready (CountCells cells) = sd_Desired scale"
    by (auto simp: ready_condition_of_def inp emptyByDesign_def Let_def)
  obtain c where c: "condition_of (st_Conditions (po_Status ?p)) ConditionReady = Some c"
      "cn_Status c = cn_Status (ready_condition_of inp)"
    using foldl_own_condition [OF assms(1) ComputeConditions_distinct mem, of "st_Conditions (po_Status pool)"]
    unfolding conds by auto
  have frame: "condition_of (st_Conditions (po_Status ?p)) t = condition_of (st_Conditions (po_Status pool)) t"
    if "t \<notin> {ConditionWorkloadClusterReachable, ConditionCapacityProviderReady, ConditionPhysicalGPUsAvailable,
      ConditionCapacityAvailable, ConditionProgressing, ConditionScalingActive, ConditionUpdated, ConditionReady}" for t
    unfolding conds using that
    by (intro foldl_foreign_condition [OF assms(1)]) (auto simp: ComputeConditions_def split: if_splits)
  have r: "co_ready (CountCells cells) = int (length (filter (\<lambda>c. cs_Phase c = CellPhaseReady) cells))"
    using CountCells_rows(2) [OF assms(2)] by (simp add: rows_def)
  show ?thesis
    unfolding Let_def using c st r frame by (intro conjI exI [of _ c] allI impI) simp_all
qed

text \<open>An instance of the documented behaviour of \<^verbatim>\<open>meta.SetStatusCondition\<close>.\<close>

fun sample_set_condition :: "Condition list \<Rightarrow> Condition \<Rightarrow> Condition list" where
  "sample_set_condition [] c = [c]"
| "sample_set_condition (x # xs) c =
     (if cn_Type x = cn_Type c
      then c\<lparr>cn_LastTransitionTime := if cn_Status x = cn_Status c then cn_LastTransitionTime x
              else cn_LastTransitionTime c\<rparr> # xs
      else x # sample_set_condition xs c)"

lemma sample_set_condition_ok: "sets_condition sample_set_condition"
proof -
  have "\<exists>lt. condition_of (sample_set_condition cs c) (cn_Type c) = Some (c\<lparr>cn_LastTransitionTime := lt\<rparr>) \<and>
      (\<forall>old. condition_of cs (cn_Type c) = Some old \<and> cn_Status old = cn_Status c \<longrightarrow>
         lt = cn_LastTransitionTime old)" for cs c
    by (induction cs) (auto simp: condition_of_def intro: exI [of _ "cn_LastTransitionTime c"])
  moreover have "t \<noteq> cn_Type c \<Longrightarrow> condition_of (sample_set_condition cs c) t = condition_of cs t" for cs c t
    by (induction cs) (auto simp: condition_of_def)
  ultimately show ?thesis unfolding sets_condition_def by blast
qed

theorem writeStatus_Ready_truthful_witness:
  "\<exists>c. condition_of (st_Conditions (po_Status (writeStatus sample_set_condition 5 sample_pool
      [sample_row ''p-0'' 0 CellPhaseReady] zero_MembershipPlan (DecideScale (sample_scale 1 0 []))
      (PlanRollout (sample_rollout [])) zero_Demand True None \<lparr>he_Ready = True, he_Reason = [], he_Message = []\<rparr>
      zero_Capacity True True [] []))) ConditionReady = Some c \<and> cn_Status c = ConditionTrue"
proof -
  have "sd_Desired (DecideScale (sample_scale 1 0 [])) = 1"
    by (simp add: scale_defs scale_eval)
  then show ?thesis
    using writeStatus_Ready_truthful [OF sample_set_condition_ok, of "[sample_row ''p-0'' 0 CellPhaseReady]" 5
        sample_pool zero_MembershipPlan "DecideScale (sample_scale 1 0 [])" "PlanRollout (sample_rollout [])"
        zero_Demand True None "\<lparr>he_Ready = True, he_Reason = [], he_Message = []\<rparr>" zero_Capacity True True "[]" "[]"]
    by (auto simp: sample_row_def Let_def)
qed

text \<open>
  With the workload cluster unreachable the reconciler has no provider verdict, and the zero
  verdict it passes on is published as a False CapacityProviderReady whose reason is HAMiDetected.
\<close>

theorem unreachable_provider_condition:
  "ci_ProviderHealth inp = \<lparr>he_Ready = False, he_Reason = [], he_Message = []\<rparr> \<Longrightarrow>
   cn_Status (provider_condition inp) = ConditionFalse \<and> cn_Reason (provider_condition inp) = ReasonHAMiDetected"
  by (simp add: provider_condition_def)

theorem unreachable_provider_condition_witness:
  "cn_Reason (provider_condition (sample_conditions\<lparr>ci_WorkloadReachable := False,
     ci_ProviderHealth := \<lparr>he_Ready = False, he_Reason = [], he_Message = []\<rparr>\<rparr>)) = ReasonHAMiDetected"
  using unreachable_provider_condition [of "sample_conditions\<lparr>ci_WorkloadReachable := False,
     ci_ProviderHealth := \<lparr>he_Ready = False, he_Reason = [], he_Message = []\<rparr>\<rparr>"]
  by (simp add: sample_conditions_def)

text \<open>
  The per-phase gauges are complete: every phase a row can have after a pass has its own gauge,
  with the number of rows in that phase, so the gauges of one write add up to the number of cells;
  and no phase is written twice.
\<close>

theorem publishMetrics_phases:
  assumes "\<forall>c \<in> set cells. cs_Phase c \<noteq> PhaseUnset"
  shows "sum_list (map (snd \<circ> snd) (filter (\<lambda>g. fst g = Cells)
      (publishMetrics cells scale freeGPUs cap0 capacityKnown))) = int (length cells) \<and>
    distinct (map (fst \<circ> snd) (filter (\<lambda>g. fst g = Cells) (publishMetrics cells scale freeGPUs cap0 capacityKnown)))"
proof -
  have "filter (\<lambda>g. fst g = Cells) (publishMetrics cells scale freeGPUs cap0 capacityKnown) =
      map (\<lambda>p. (Cells, [phase_label p], int (length (filter (\<lambda>c. cs_Phase c = p) cells)))) allCellPhases"
    by (simp add: publishMetrics_def allCellPhases_def split: option.split)
  moreover have "(\<Sum>p \<leftarrow> allCellPhases. int (length (filter (\<lambda>c. cs_Phase c = p) cells))) = int (length cells)"
    using assms
  proof (induction cells)
    case (Cons c cells)
    then show ?case by (cases "cs_Phase c") (simp_all add: allCellPhases_def)
  qed (simp add: allCellPhases_def)
  ultimately show ?thesis
    by (simp add: comp_def allCellPhases_def)
qed

theorem publishMetrics_phases_witness:
  "sum_list (map (snd \<circ> snd) (filter (\<lambda>g. fst g = Cells)
      (publishMetrics [sample_row ''p-0'' 0 CellPhaseReady] (DecideScale (sample_scale 1 0 [])) None zero_Capacity False))) = 1"
  using publishMetrics_phases [of "[sample_row ''p-0'' 0 CellPhaseReady]" "DecideScale (sample_scale 1 0 [])" None
      zero_Capacity False]
  by (simp add: sample_row_def)

end
