(* ===== verification/CapacityContract.thy ===== *)
theory CapacityContract
  imports Scaling
begin

text \<open>
  What the reconciler relies on from a capacity provider (the interface \<^verbatim>\<open>Provider\<close> of
  \<^verbatim>\<open>internal/capacity/provider.go\<close>), as a locale: \<open>holder n\<close> says that something the provider can
  see holds a share of the GPU of node \<open>n\<close>. The lemmas are what the drain gate, the idleness scan
  and the scaler get from any such provider; \<open>HamiDra\<close> interprets the locale on the HAMi provider.
\<close>

locale capacity_provider =
  fixes allocations :: "string \<Rightarrow> Allocations result"
    and capacity :: "string list \<Rightarrow> Capacity result"
    and pending_demand :: "Device option \<Rightarrow> Demand result"
    and holder :: "string \<Rightarrow> bool"
  assumes allocations_empty: "allocations n = Inr a \<Longrightarrow> Empty a \<longleftrightarrow> \<not> holder n"
    and demand_bounds:
      "pending_demand ref = Inr d \<Longrightarrow>
       0 \<le> dm_SatisfiableByOneCell d \<and> dm_SatisfiableByOneCell d \<le> dm_PendingRequests d"
    and demand_no_shape: "pending_demand None = Inr d \<Longrightarrow> dm_SatisfiableByOneCell d = 0"
    and capacity_homogeneous: "capacity ns = Inr c \<Longrightarrow> cy_Homogeneous c \<longleftrightarrow> length (cy_ByModel c) \<le> 1"
    and capacity_models: "capacity ns = Inr c \<Longrightarrow> distinct (map mo_Model (cy_ByModel c))"
    and capacity_devices:
      "capacity ns = Inr c \<Longrightarrow> m \<in> set (cy_ByModel c) \<Longrightarrow> 0 < mo_Devices m"
    and capacity_count:
      "capacity ns = Inr c \<Longrightarrow> cy_Devices c = sum_list (map mo_Devices (cy_ByModel c))"
begin

lemma idle_not_held:
  assumes "n \<in> set (idleCells allocations cells)"
  shows "\<exists>c \<in> set cells. cs_Name c = n \<and> cs_Phase c = CellPhaseReady \<and> cs_NodeName c \<noteq> [] \<and>
    \<not> holder (cs_NodeName c)"
  using assms allocations_empty by (auto simp: idleCells_iff)

text \<open>The drain gate on a provider reading: an unreadable one never lets an automatic drain proceed.\<close>

lemma drain_not_held:
  assumes "dd_Proceed (AdvanceDrain
      (case allocations n of Inl e \<Rightarrow> zero_Allocations | Inr a \<Rightarrow> a)
      (case allocations n of Inl e \<Rightarrow> False | Inr a \<Rightarrow> True) False force since now timeout)"
  shows "\<not> holder n"
  using assms allocations_empty [of n]
  by (auto simp: AdvanceDrain_def Let_def split: sum.splits if_splits)

lemma unknown_shape_never_grows:
  assumes "pending_demand None = Inr (si_Demand inp)"
  shows "\<not> sd_ScaledUp (DecideScale inp)"
proof (cases "si_Autoscaling inp")
  case None
  then show ?thesis by (simp add: DecideScale_def hold_at_def)
next
  case (Some spec)
  then show ?thesis
    using DecideScale_flags(1) [OF Some] DecideScale_off [of inp spec] demand_no_shape [OF assms]
    by (cases "as_Enabled spec") (simp_all add: grow_ok_def hold_at_def)
qed

lemma reference_device_iff:
  assumes "capacity ns = Inr c"
  shows "ReferenceDevice c \<noteq> None \<longleftrightarrow> 0 < cy_Devices c"
proof (cases "cy_ByModel c")
  case Nil
  with capacity_count [OF assms] show ?thesis by (simp add: ReferenceDevice_def)
next
  case (Cons m ms)
  have pos: "0 < mo_Devices x" if "x \<in> set (cy_ByModel c)" for x
    using capacity_devices [OF assms that] .
  then have "0 \<le> sum_list (map mo_Devices ms)"
    using Cons by (intro sum_list_nonneg) (auto simp: less_imp_le)
  with Cons pos [of m] capacity_count [OF assms] show ?thesis
    by (simp add: ReferenceDevice_def)
qed

end

end
