(* ===== verification/Resources.thy ===== *)
theory Resources
  imports Api
begin

text \<open>
  The objects of Kubernetes' \<^verbatim>\<open>resource.k8s.io\<close> API that the DRA readers use (\<^verbatim>\<open>hami_dra.go\<close> in the
  workload cluster, \<^verbatim>\<open>inventory.go\<close> in the infrastructure cluster), with the fields they read: a
  device's capacities as the integers \<^verbatim>\<open>Quantity.Value()\<close>, its attributes \<^verbatim>\<open>productName\<close> and
  \<^verbatim>\<open>vfioReady\<close> where they hold a value of the right type.
\<close>

record SliceDevice =
  sl_Name :: string
  sl_Capacity :: "(string \<times> i64) list"
  sl_ProductName :: "string option"
  sl_VFIOReady :: "bool option"

record ResourceSlice =
  rs_Driver :: string
  rs_Pool :: string
  rs_Devices :: "SliceDevice list"

record AllocationResult =
  ar_Driver :: string
  ar_Pool :: string
  ar_Device :: string
  ar_Consumed :: "(string \<times> i64) list"

record ExactRequest =
  er_DeviceClassName :: string
  er_Count :: i64
  er_AllocationMode :: string
  er_Capacity :: "(string \<times> i64) list option"
  er_Selectors :: "string list"

text \<open>A device request is exact or a list of alternatives, of which only the selectors are read.\<close>

record DeviceRequest =
  dq_Exactly :: "ExactRequest option"
  dq_FirstAvailable :: "string list list"

record ResourceClaim =
  rc_Requests :: "DeviceRequest list"
  rc_Allocation :: "AllocationResult list option"
  rc_ReservedFor :: "string list"

end
