(* ===== verification/HamiProvider.thy ===== *)
theory HamiProvider
  imports CapacityContract Resources
begin

text \<open>
  The HAMi capacity provider in DevicePlugin mode: \<^verbatim>\<open>internal/capacity/hami_provider.go\<close> and
  \<^verbatim>\<open>hami_demand.go\<close>. The functions \<open>dp_*\<close> are what the provider's methods do once their test for DRA
  mode has failed; \<open>HamiDra\<close> has the other branch and the methods themselves. The workload
  cluster's API client is a record of the reads the provider makes, each an arbitrary function to a
  result. A Go map is an association list with one entry per key. Counters of
  objects that are held in memory (pods, devices) cannot reach the end of \<^verbatim>\<open>int\<close> and are not wrapped;
  sums of reported quantities are.
\<close>

section \<open>What the provider reads\<close>

record PodCondition =
  qc_Type :: string
  qc_Status :: string
  qc_Reason :: string

text \<open>A resource list maps a resource name to the integer \<^verbatim>\<open>Quantity.Value()\<close>.\<close>

record Container =
  ct_Limits :: "(string \<times> i64) list"
  ct_Requests :: "(string \<times> i64) list"

record Pod =
  pd_Name :: string
  pd_Namespace :: string
  pd_NodeName :: string
  pd_Phase :: string
  pd_Annotations :: smap
  pd_Conditions :: "PodCondition list"
  pd_Containers :: "Container list"

record HAMiClient =
  cl_node :: "string \<Rightarrow> Node result"
  cl_pods_on :: "string \<Rightarrow> Pod list result"
  cl_pending :: "Pod list result"
  cl_slices :: "ResourceSlice list result"
  cl_class :: "string \<Rightarrow> unit result"
  cl_claims :: "ResourceClaim list result"

record HAMiProvider =
  hp_Client :: HAMiClient
  hp_Mode :: string
  hp_GateLabel :: string
  hp_DeviceClass :: string

definition NewHAMiProvider :: "HAMiClient \<Rightarrow> string \<Rightarrow> string \<Rightarrow> HAMiProvider" where
  "NewHAMiProvider cs mode deviceClass =
     \<lparr>hp_Client = cs, hp_Mode = (if mode = [] then HAMiModeDevicePlugin else mode),
      hp_GateLabel = NodeLabelGate, hp_DeviceClass = deviceClass\<rparr>"

abbreviation PodSucceeded :: string where "PodSucceeded \<equiv> ''Succeeded''"
abbreviation PodFailed :: string where "PodFailed \<equiv> ''Failed''"
abbreviation PodScheduled :: string where "PodScheduled \<equiv> ''PodScheduled''"
abbreviation PodReasonUnschedulable :: string where "PodReasonUnschedulable \<equiv> ''Unschedulable''"
abbreviation ResourceGPU :: string where "ResourceGPU \<equiv> ''nvidia.com/gpu''"
abbreviation ResourceGPUMemory :: string where "ResourceGPUMemory \<equiv> ''nvidia.com/gpumem''"
abbreviation ResourceGPUCores :: string where "ResourceGPUCores \<equiv> ''nvidia.com/gpucores''"

section \<open>Health and devices\<close>

definition hami_detected :: Health where
  "hami_detected = \<lparr>he_Ready = True, he_Reason = ReasonHAMiDetected, he_Message = []\<rparr>"

fun health_loop :: "HAMiProvider \<Rightarrow> string list \<Rightarrow> goint \<Rightarrow> Health result" where
  "health_loop p [] detected =
     Inr (if detected = 0
          then \<lparr>he_Ready = False, he_Reason = ReasonHAMiNotDetected,
                he_Message = ''no cell node carries a HAMi device registration '' @
                  ''(is HAMi installed in the workload cluster, and do its DaemonSets tolerate the pool's taints?)''\<rparr>
          else hami_detected)"
| "health_loop p (name # names) detected =
     (case cl_node (hp_Client p) name of
        Inl e \<Rightarrow> if IsNotFound e then health_loop p names detected
                 else Inl (Wrapped (''reading node '' @ name) e)
      | Inr node \<Rightarrow>
          (case ParseNodeRegistration (nd_Annotations node) of
             BadRegistration e \<Rightarrow>
               Inr \<lparr>he_Ready = False, he_Reason = ReasonRegistrationUnparseable, he_Message = error_text e\<rparr>
           | NotRegistered \<Rightarrow> health_loop p names detected
           | Registered _ \<Rightarrow>
               if map_of (nd_Labels node) (hp_GateLabel p) = None then
                 Inr \<lparr>he_Ready = False, he_Reason = ReasonHAMiNotDetected,
                      he_Message = ''node '' @ name @ '' has a HAMi registration but no '' @ go_quote (hp_GateLabel p) @
                        '' label: '' @ ''HAMi's scheduler will not place GPU workloads on it '' @
                        ''(declare it in spec.workloadCluster.node.labels)''\<rparr>
               else health_loop p names (detected + 1)))"

definition dp_Health :: "HAMiProvider \<Rightarrow> string list \<Rightarrow> Health result" where
  "dp_Health p nodes = (if length nodes = 0 then Inr hami_detected else health_loop p nodes 0)"

definition dp_Devices :: "HAMiClient \<Rightarrow> string \<Rightarrow> goint result" where
  "dp_Devices cl name =
     (case cl_node cl name of
        Inl e \<Rightarrow> if IsNotFound e then Inr 0 else Inl (Wrapped (''reading node '' @ name) e)
      | Inr node \<Rightarrow>
          (case ParseNodeRegistration (nd_Annotations node) of
             BadRegistration e \<Rightarrow> Inl e
           | NotRegistered \<Rightarrow> Inr 0
           | Registered devices \<Rightarrow> Inr (int (length (HealthyDevices devices)))))"

section \<open>Allocations\<close>

type_synonym by_uuid = "(string \<times> Allocation) list"

definition zero_Allocation :: Allocation where
  "zero_Allocation = \<lparr>an_UUID = [], an_Vendor = [], an_MemoryMiB = 0, an_CorePercent = 0\<rparr>"

definition alloc_step :: "Allocation \<Rightarrow> Allocations \<times> by_uuid \<Rightarrow> Allocations \<times> by_uuid" where
  "alloc_step a st =
     (let (out, byUUID) = st;
          out = out\<lparr>al_MemoryMiB := wrap64 (al_MemoryMiB out + an_MemoryMiB a),
                    al_CorePercent := wrap64 (al_CorePercent out + an_CorePercent a)\<rparr>;
          agg = (case map_of byUUID (an_UUID a) of None \<Rightarrow> zero_Allocation | Some x \<Rightarrow> x);
          agg = agg\<lparr>an_UUID := an_UUID a, an_MemoryMiB := wrap64 (an_MemoryMiB agg + an_MemoryMiB a),
                    an_CorePercent := wrap64 (an_CorePercent agg + an_CorePercent a)\<rparr>
      in (out, AList.update (an_UUID a) agg byUUID))"

definition pod_error :: "Pod \<Rightarrow> go_error \<Rightarrow> go_error" where
  "pod_error pod e = Wrapped (''pod '' @ pd_Namespace pod @ ''/'' @ pd_Name pod) e"

definition pod_step :: "string \<Rightarrow> Pod \<Rightarrow> Allocations \<times> by_uuid \<Rightarrow> (Allocations \<times> by_uuid) result" where
  "pod_step node pod st =
     (if pd_NodeName pod \<noteq> node then Inr st
      else if pd_Phase pod = PodSucceeded \<or> pd_Phase pod = PodFailed then Inr st
      else case ParseAllocations (smap_get (pd_Annotations pod) AnnotationDevicesAllocated) of
        Inl e \<Rightarrow> Inl (pod_error pod e)
      | Inr allocated \<Rightarrow>
          (case ParseAllocations (smap_get (pd_Annotations pod) AnnotationDevicesToAllocate) of
             Inl e \<Rightarrow> Inl (pod_error pod e)
           | Inr inFlight \<Rightarrow>
               if length allocated = 0 \<and> length inFlight = 0 then Inr st
               else
                 let (out, byUUID) = st;
                     out = (if 0 < length inFlight then out\<lparr>al_InFlight := True\<rparr> else out);
                     out = out\<lparr>al_Consumers := al_Consumers out + 1\<rparr>
                 in Inr (fold alloc_step (allocated @ inFlight) (out, byUUID))))"

definition nodeAllocations :: "HAMiClient \<Rightarrow> string \<Rightarrow> (Allocations \<times> by_uuid) result" where
  "nodeAllocations cl node =
     (case cl_pods_on cl node of
        Inl e \<Rightarrow> Inl (Wrapped (''listing pods on node '' @ node) e)
      | Inr pods \<Rightarrow> fold_result (pod_step node) pods (zero_Allocations, []))"

definition dp_Allocations :: "HAMiClient \<Rightarrow> string \<Rightarrow> Allocations result" where
  "dp_Allocations cl node = map_sum id fst (nodeAllocations cl node)"

section \<open>Capacity\<close>

type_synonym by_model = "(string \<times> ModelCapacity) list"

definition zero_ModelCapacity :: "string \<Rightarrow> ModelCapacity" where
  "zero_ModelCapacity model = \<lparr>mo_Model = model, mo_Devices = 0, mo_MemoryTotalMiB = 0,
     mo_MemoryAllocatedMiB = 0, mo_ComputeTotal = 0, mo_ComputeAllocated = 0\<rparr>"

definition model_entry :: "by_model \<Rightarrow> string \<Rightarrow> ModelCapacity" where
  "model_entry bm model = (case map_of bm model of None \<Rightarrow> zero_ModelCapacity model | Some m \<Rightarrow> m)"

definition device_step :: "Device \<Rightarrow> by_model \<times> Capacity \<Rightarrow> by_model \<times> Capacity" where
  "device_step d st =
     (let (bm, out) = st; m = model_entry bm (dv_Model d)
      in (AList.update (dv_Model d)
            (m\<lparr>mo_Devices := mo_Devices m + 1,
               mo_MemoryTotalMiB := wrap64 (mo_MemoryTotalMiB m + dv_MemoryMiB d),
               mo_ComputeTotal := wrap64 (mo_ComputeTotal m + dv_CorePercent d)\<rparr>) bm,
          out\<lparr>cy_Devices := cy_Devices out + 1,
              cy_MemoryTotalMiB := wrap64 (cy_MemoryTotalMiB out + dv_MemoryMiB d),
              cy_ComputeTotal := wrap64 (cy_ComputeTotal out + dv_CorePercent d)\<rparr>))"

definition attribute_step :: "(string \<times> string) list \<Rightarrow> string \<times> Allocation \<Rightarrow> by_model \<Rightarrow> by_model" where
  "attribute_step modelOf ua bm =
     (let model = smap_get modelOf (fst ua); a = snd ua in
      case map_of bm model of
        None \<Rightarrow> bm
      | Some m \<Rightarrow>
          AList.update model
            (m\<lparr>mo_MemoryAllocatedMiB := wrap64 (mo_MemoryAllocatedMiB m + an_MemoryMiB a),
               mo_ComputeAllocated := wrap64 (mo_ComputeAllocated m + an_CorePercent a)\<rparr>) bm)"

definition model_of :: "Device list \<Rightarrow> (string \<times> string) list" where
  "model_of devices = fold (\<lambda>d m. AList.update (dv_UUID d) (dv_Model d) m) devices []"

definition capacity_step :: "HAMiClient \<Rightarrow> string \<Rightarrow> by_model \<times> Capacity \<Rightarrow> (by_model \<times> Capacity) result" where
  "capacity_step cl name st =
     (case cl_node cl name of
        Inl e \<Rightarrow> if IsNotFound e then Inr st else Inl (Wrapped (''reading node '' @ name) e)
      | Inr node \<Rightarrow>
          (case ParseNodeRegistration (nd_Annotations node) of
             BadRegistration e \<Rightarrow> Inl e
           | NotRegistered \<Rightarrow> Inr st
           | Registered devices \<Rightarrow>
               let (bm, out) = fold device_step (HealthyDevices devices) st in
               (case nodeAllocations cl name of
                  Inl e \<Rightarrow> Inl e
                | Inr (alloc, allocByUUID) \<Rightarrow>
                    Inr (fold (attribute_step (model_of devices)) allocByUUID bm,
                         out\<lparr>cy_MemoryAllocatedMiB := wrap64 (cy_MemoryAllocatedMiB out + al_MemoryMiB alloc),
                             cy_ComputeAllocated := wrap64 (cy_ComputeAllocated out + al_CorePercent alloc)\<rparr>))))"

definition dp_Capacity :: "HAMiClient \<Rightarrow> string list \<Rightarrow> Capacity result" where
  "dp_Capacity cl nodes =
     (case fold_result (capacity_step cl) nodes ([], zero_Capacity) of
        Inl e \<Rightarrow> Inl e
      | Inr (bm, out) \<Rightarrow>
          Inr (out\<lparr>cy_ByModel := sort_key mo_Model (map snd bm), cy_Homogeneous := length bm \<le> 1\<rparr>))"

section \<open>Demand\<close>

record gpuReq =
  gr_devices :: i64
  gr_memoryMiB :: i64
  gr_cores :: i64

fun unschedulable_in :: "PodCondition list \<Rightarrow> bool" where
  "unschedulable_in [] = False"
| "unschedulable_in (c # cs) =
     (if qc_Type c = PodScheduled
      then qc_Status c = ''False'' \<and> (qc_Reason c = PodReasonUnschedulable \<or> qc_Reason c = ''SchedulerError'')
      else unschedulable_in cs)"

definition unschedulable :: "Pod \<Rightarrow> bool" where
  "unschedulable pod = unschedulable_in (pd_Conditions pod)"

definition add_list :: "(string \<times> i64) list \<Rightarrow> gpuReq \<times> bool \<Rightarrow> gpuReq \<times> bool" where
  \<comment> \<open>one round of the inner loop of \<^verbatim>\<open>gpuRequest\<close>\<close>
  "add_list rl st =
     (let add = (\<lambda>res f (out, found). case map_of rl res of None \<Rightarrow> (out, found) | Some q \<Rightarrow> (f q out, True)) in
      add ResourceGPUCores (\<lambda>q out. out\<lparr>gr_cores := wrap64 (gr_cores out + q)\<rparr>)
        (add ResourceGPUMemory (\<lambda>q out. out\<lparr>gr_memoryMiB := wrap64 (gr_memoryMiB out + q)\<rparr>)
          (add ResourceGPU (\<lambda>q out. out\<lparr>gr_devices := wrap64 (gr_devices out + q)\<rparr>) st)))"

definition container_step :: "Container \<Rightarrow> gpuReq \<times> bool \<Rightarrow> gpuReq \<times> bool" where
  "container_step c st =
     (let st1 = add_list (ct_Limits c) st in if snd st1 then st1 else add_list (ct_Requests c) st1)"

definition gpuRequest :: "Pod \<Rightarrow> gpuReq \<times> bool" where
  "gpuRequest pod = fold container_step (pd_Containers pod)
     (\<lparr>gr_devices = 0, gr_memoryMiB = 0, gr_cores = 0\<rparr>, False)"

definition fitsOneCell :: "gpuReq \<Rightarrow> Device \<Rightarrow> bool" where
  "fitsOneCell req ref =
     (if 1 < gr_devices req then False
      else if dv_MemoryMiB ref < gr_memoryMiB req then False
      else if dv_CorePercent ref < gr_cores req then False
      else True)"

definition gpuReq_String :: "gpuReq \<Rightarrow> string" where
  "gpuReq_String r = ''devices='' @ FormatInt (gr_devices r) @ '' memoryMiB='' @ FormatInt (gr_memoryMiB r) @
     '' cores='' @ FormatInt (gr_cores r)"

definition count_request :: "Device option \<Rightarrow> gpuReq \<Rightarrow> Demand \<Rightarrow> Demand" where
  \<comment> \<open>the tail both demand loops share\<close>
  "count_request ref req out =
     (let out = out\<lparr>dm_PendingRequests := dm_PendingRequests out + 1\<rparr> in
      case ref of
        None \<Rightarrow> out
      | Some r \<Rightarrow> if fitsOneCell req r
                  then out\<lparr>dm_SatisfiableByOneCell := dm_SatisfiableByOneCell out + 1\<rparr> else out)"

definition demand_step :: "Device option \<Rightarrow> Pod \<Rightarrow> Demand \<Rightarrow> Demand" where
  "demand_step ref pod out =
     (if pd_NodeName pod \<noteq> [] \<or> \<not> unschedulable pod then out
      else if \<not> snd (gpuRequest pod) then out
      else count_request ref (fst (gpuRequest pod)) out)"

definition dp_PendingDemand :: "HAMiClient \<Rightarrow> Device option \<Rightarrow> Demand result" where
  "dp_PendingDemand cl ref =
     (case cl_pending cl of
        Inl e \<Rightarrow> Inl (Wrapped ''listing pending pods'' e)
      | Inr pods \<Rightarrow> Inr (fold (demand_step ref) pods zero_Demand))"

section \<open>Facts on allocations\<close>

definition holds_gpu :: "string \<Rightarrow> Pod \<Rightarrow> bool" where
  \<comment> \<open>a pod on the node that is not finished and has a share, or one being bound\<close>
  "holds_gpu node pod \<longleftrightarrow> pd_NodeName pod = node \<and> pd_Phase pod \<noteq> PodSucceeded \<and> pd_Phase pod \<noteq> PodFailed \<and>
     (ParseAllocations (smap_get (pd_Annotations pod) AnnotationDevicesAllocated) \<noteq> Inr [] \<or>
      ParseAllocations (smap_get (pd_Annotations pod) AnnotationDevicesToAllocate) \<noteq> Inr [])"

lemma fold_alloc_step_frame:
  "al_Consumers (fst (fold alloc_step as st)) = al_Consumers (fst st)"
  "al_InFlight (fst (fold alloc_step as st)) = al_InFlight (fst st)"
  by (induction as arbitrary: st) (simp_all add: alloc_step_def Let_def split: prod.splits)

lemma pod_step_holds:
  assumes "pod_step node pod st = Inr st'"
  shows "al_Consumers (fst st') = al_Consumers (fst st) + (if holds_gpu node pod then 1 else 0)"
    and "al_InFlight (fst st') \<Longrightarrow> al_InFlight (fst st) \<or> holds_gpu node pod"
  using assms
  by (auto simp: pod_step_def holds_gpu_def fold_alloc_step_frame Let_def split: if_splits sum.splits prod.splits)

lemma fold_pod_step:
  assumes "fold_result (pod_step node) pods st = Inr st'"
  shows "al_Consumers (fst st') = al_Consumers (fst st) + int (length (filter (holds_gpu node) pods)) \<and>
    (al_InFlight (fst st') \<longrightarrow> al_InFlight (fst st) \<or> (\<exists>pod \<in> set pods. holds_gpu node pod))"
  using assms
proof (induction pods arbitrary: st)
  case (Cons pod pods)
  then obtain st1 where st1: "pod_step node pod st = Inr st1" "fold_result (pod_step node) pods st1 = Inr st'"
    by (auto split: sum.splits)
  from Cons.IH [OF st1(2)] pod_step_holds [OF st1(1)] show ?case by auto
qed simp

lemma nodeAllocations_holds:
  assumes "nodeAllocations cl node = Inr (a, bu)"
  shows "\<exists>pods. cl_pods_on cl node = Inr pods \<and> al_Consumers a = int (length (filter (holds_gpu node) pods)) \<and>
    (al_InFlight a \<longrightarrow> (\<exists>pod \<in> set pods. holds_gpu node pod))"
  using assms fold_pod_step [where st = "(zero_Allocations, [])"]
  by (fastforce simp: nodeAllocations_def zero_Allocations_def split: sum.splits)

definition dp_holder :: "HAMiClient \<Rightarrow> string \<Rightarrow> bool" where
  "dp_holder cl node \<longleftrightarrow>
     (case cl_pods_on cl node of Inl e \<Rightarrow> False | Inr pods \<Rightarrow> list_ex (holds_gpu node) pods)"

lemma dp_Allocations_empty:
  assumes "dp_Allocations cl node = Inr a"
  shows "Empty a \<longleftrightarrow> \<not> dp_holder cl node"
proof -
  obtain bu where "nodeAllocations cl node = Inr (a, bu)"
    using assms by (auto simp: dp_Allocations_def)
  then obtain pods where "cl_pods_on cl node = Inr pods"
    "al_Consumers a = int (length (filter (holds_gpu node) pods))"
    "al_InFlight a \<longrightarrow> (\<exists>pod \<in> set pods. holds_gpu node pod)"
    using nodeAllocations_holds by blast
  then show ?thesis by (auto simp: Empty_def dp_holder_def list_ex_iff filter_empty_conv)
qed

section \<open>Facts on demand\<close>

lemma fitsOneCell_iff:
  "fitsOneCell req r \<longleftrightarrow>
     gr_devices req \<le> 1 \<and> gr_memoryMiB req \<le> dv_MemoryMiB r \<and> gr_cores req \<le> dv_CorePercent r"
  by (auto simp: fitsOneCell_def)

lemma count_request_bounds:
  assumes "0 \<le> dm_SatisfiableByOneCell d" and "dm_SatisfiableByOneCell d \<le> dm_PendingRequests d"
  shows "0 \<le> dm_SatisfiableByOneCell (count_request ref req d)"
    "dm_SatisfiableByOneCell (count_request ref req d) \<le> dm_PendingRequests (count_request ref req d)"
    "dm_SatisfiableByOneCell (count_request None req d) = dm_SatisfiableByOneCell d"
  using assms by (auto simp: count_request_def Let_def split: option.split)

text \<open>What both demand loops keep: the counters are ordered, and nothing fits an unknown shape.\<close>

definition demand_inv :: "Device option \<Rightarrow> Demand \<Rightarrow> bool" where
  "demand_inv ref d \<longleftrightarrow> 0 \<le> dm_SatisfiableByOneCell d \<and> dm_SatisfiableByOneCell d \<le> dm_PendingRequests d \<and>
     (ref = None \<longrightarrow> dm_SatisfiableByOneCell d = 0)"

lemma demand_inv_zero: "demand_inv ref zero_Demand"
  by (simp add: demand_inv_def zero_Demand_def)

lemma demand_inv_count: "demand_inv ref d \<Longrightarrow> demand_inv ref (count_request ref req d)"
  by (auto simp: demand_inv_def count_request_bounds)

lemma fold_invariant: "(\<And>x s. P s \<Longrightarrow> P (f x s)) \<Longrightarrow> P s \<Longrightarrow> P (fold f xs s)"
  by (induction xs arbitrary: s) simp_all

lemma dp_PendingDemand_inv: "dp_PendingDemand cl ref = Inr d \<Longrightarrow> demand_inv ref d"
  by (auto simp: dp_PendingDemand_def demand_step_def intro!: fold_invariant [where P = "demand_inv ref"]
      demand_inv_zero demand_inv_count split: sum.splits)

text \<open>
  What the scheduler has said of a pod, and what the pod asks for, apart from the loops that find out.
\<close>

definition judged :: "Pod \<Rightarrow> bool" where
  "judged pod \<longleftrightarrow> (case filter (\<lambda>c. qc_Type c = ''PodScheduled'') (pd_Conditions pod) of
     [] \<Rightarrow> False
   | c # _ \<Rightarrow> qc_Status c = ''False'' \<and> qc_Reason c \<in> {''Unschedulable'', ''SchedulerError''})"

definition names_gpu :: "(string \<times> i64) list \<Rightarrow> bool" where
  "names_gpu rl \<longleftrightarrow> (\<exists>res \<in> {''nvidia.com/gpu'', ''nvidia.com/gpumem'', ''nvidia.com/gpucores''}. map_of rl res \<noteq> None)"

fun gpu_asks :: "Container list \<Rightarrow> (string \<times> i64) list list" where
  "gpu_asks [] = []"
| "gpu_asks (c # cs) =
     (if names_gpu (ct_Limits c) then map ct_Limits (c # cs)
      else if names_gpu (ct_Requests c) then ct_Requests c # map ct_Limits cs
      else gpu_asks cs)"

definition amount :: "string \<Rightarrow> (string \<times> i64) list \<Rightarrow> int" where
  "amount res rl = (case map_of rl res of None \<Rightarrow> 0 | Some q \<Rightarrow> q)"

definition asked :: "string \<Rightarrow> Pod \<Rightarrow> i64" where
  "asked res pod = wrap64 (sum_list (map (amount res) (gpu_asks (pd_Containers pod))))"

lemma unschedulable_judged: "unschedulable pod = judged pod"
proof -
  have "unschedulable_in cs \<longleftrightarrow> (case filter (\<lambda>c. qc_Type c = ''PodScheduled'') cs of
     [] \<Rightarrow> False | c # _ \<Rightarrow> qc_Status c = ''False'' \<and> qc_Reason c \<in> {''Unschedulable'', ''SchedulerError''})" for cs
    by (induction cs) auto
  then show ?thesis by (simp add: unschedulable_def judged_def)
qed

text \<open>The request as the three running sums, each in 64-bit arithmetic.\<close>

definition sums :: "(string \<times> i64) list list \<Rightarrow> gpuReq" where
  "sums rls = \<lparr>gr_devices = wrap64 (sum_list (map (amount ResourceGPU) rls)),
     gr_memoryMiB = wrap64 (sum_list (map (amount ResourceGPUMemory) rls)),
     gr_cores = wrap64 (sum_list (map (amount ResourceGPUCores) rls))\<rparr>"

lemma add_list_sums: "add_list rl (sums rls, f) = (sums (rls @ [rl]), f \<or> names_gpu rl)"
  by (auto simp: add_list_def sums_def amount_def names_gpu_def Let_def split: option.split)

lemma sums_skip: "\<not> names_gpu rl \<Longrightarrow> sums (rls @ [rl]) = sums rls"
  by (simp add: sums_def amount_def names_gpu_def)

lemma gpuRequest_asks: "gpuRequest pod = (sums (gpu_asks (pd_Containers pod)), gpu_asks (pd_Containers pod) \<noteq> [])"
proof -
  have step: "container_step c (sums rls, f) =
      (if f \<or> names_gpu (ct_Limits c) then (sums (rls @ [ct_Limits c]), True) else (sums (rls @ [ct_Requests c]), names_gpu (ct_Requests c)))" for c rls f
    by (auto simp: container_step_def add_list_sums sums_skip Let_def)
  have found: "fold container_step cs (sums rls, True) = (sums (rls @ map ct_Limits cs), True)" for cs rls
    by (induction cs arbitrary: rls) (simp_all add: step)
  have "fold container_step cs (sums [], False) = (sums (gpu_asks cs), gpu_asks cs \<noteq> [])" for cs
    by (induction cs) (auto simp: step found sums_skip [of _ "[]", simplified])
  moreover have "sums [] = \<lparr>gr_devices = 0, gr_memoryMiB = 0, gr_cores = 0\<rparr>" by (simp add: sums_def wrap64_def)
  ultimately show ?thesis by (simp add: gpuRequest_def)
qed

section \<open>Facts on capacity\<close>

text \<open>
  The per-model map over the models of the devices seen so far: one entry per model, named by it
  and counting its devices.
\<close>

definition model_inv :: "string list \<Rightarrow> by_model \<Rightarrow> bool" where
  "model_inv models bm \<longleftrightarrow> distinct (map fst bm) \<and> fst ` set bm = set models \<and>
     (\<forall>k m. map_of bm k = Some m \<longrightarrow> mo_Model m = k \<and> mo_Devices m = int (count_list models k))"

lemma model_inv_Nil [simp]: "model_inv [] []"
  by (simp add: model_inv_def)

lemma model_inv_domain: "model_inv models bm \<Longrightarrow> map_of bm k = None \<longleftrightarrow> k \<notin> set models"
  by (simp add: model_inv_def map_of_eq_None_iff)

lemma model_inv_entry:
  assumes "model_inv models bm"
  shows "mo_Model (model_entry bm k) = k" "mo_Devices (model_entry bm k) = int (count_list models k)"
  using assms model_inv_domain [OF assms, of k]
  by (auto simp: model_entry_def zero_ModelCapacity_def model_inv_def count_list_0_iff split: option.splits)

lemma model_inv_add:
  assumes "model_inv models bm" and "mo_Model m = k" and "mo_Devices m = mo_Devices (model_entry bm k) + 1"
  shows "model_inv (models @ [k]) (AList.update k m bm)"
  using assms(1) assms(2,3) model_inv_entry [OF assms(1), of k]
  by (auto simp: model_inv_def update_conv distinct_update dom_update split: if_splits)

lemma model_inv_replace:
  assumes "model_inv models bm" and "map_of bm k = Some m" and "mo_Model m' = mo_Model m"
    and "mo_Devices m' = mo_Devices m"
  shows "model_inv models (AList.update k m' bm)"
proof -
  have "k \<in> set models" using assms(1,2) model_inv_domain [OF assms(1), of k] by auto
  with assms show ?thesis
    by (auto simp: model_inv_def update_conv distinct_update dom_update split: if_splits)
qed

lemma model_inv_result:
  assumes "model_inv models bm"
  shows "distinct (map mo_Model (sort_key mo_Model (map snd bm)))"
    "set (map mo_Model (sort_key mo_Model (map snd bm))) = set models"
    "sum_list (map mo_Devices (sort_key mo_Model (map snd bm))) = int (length models)"
    "\<And>m. m \<in> set (sort_key mo_Model (map snd bm)) \<Longrightarrow> 0 < mo_Devices m"
    "length bm = card (set models)"
proof -
  have dist: "distinct (map fst bm)" and keys: "fst ` set bm = set models"
    using assms by (simp_all add: model_inv_def)
  have entry: "mo_Model m = k \<and> mo_Devices m = int (count_list models k)" if "(k, m) \<in> set bm" for k m
    using assms map_of_is_SomeI [OF dist that] by (simp add: model_inv_def)
  have names: "map mo_Model (map snd bm) = map fst bm" and
    counts: "map mo_Devices (map snd bm) = map (\<lambda>k. int (count_list models k)) (map fst bm)"
    using entry by (auto intro: map_cong)
  have perm: "mset (sort_key mo_Model (map snd bm)) = mset (map snd bm)" by simp
  have "mset (map mo_Model (sort_key mo_Model (map snd bm))) = mset (map fst bm)"
    using perm names by (metis mset_map)
  then show "distinct (map mo_Model (sort_key mo_Model (map snd bm)))"
    "set (map mo_Model (sort_key mo_Model (map snd bm))) = set models"
    using dist keys by (metis mset_eq_imp_distinct_iff, metis mset_eq_setD set_map)
  have "mset (map mo_Devices (sort_key mo_Model (map snd bm))) =
      mset (map (\<lambda>k. int (count_list models k)) (map fst bm))"
    using perm counts by (metis mset_map)
  then have "sum_list (map mo_Devices (sort_key mo_Model (map snd bm))) =
      sum_list (map (\<lambda>k. int (count_list models k)) (map fst bm))"
    by (metis sum_mset_sum_list)
  also have "\<dots> = (\<Sum>k \<in> set models. int (count_list models k))"
    by (simp only: sum_list_distinct_conv_sum_set [OF dist] set_map keys)
  also have "\<dots> = int (length models)"
    using sum_count_set [of models "set models"] by (simp flip: of_nat_sum)
  finally show "sum_list (map mo_Devices (sort_key mo_Model (map snd bm))) = int (length models)" .
  show "0 < mo_Devices m" if mem: "m \<in> set (sort_key mo_Model (map snd bm))" for m
  proof -
    obtain k where k: "(k, m) \<in> set bm" using mem by auto
    then have "k \<in> set models" using keys by force
    then show ?thesis using entry [OF k] count_list_0_iff [of models k] by (cases "count_list models k") auto
  qed
  show "length bm = card (set models)"
    using dist keys distinct_card [OF dist] by simp
qed

text \<open>The sums over the devices of a model, and over all of them.\<close>

definition of_model :: "Device list \<Rightarrow> string \<Rightarrow> Device list" where
  "of_model ds k = filter (\<lambda>d. dv_Model d = k) ds"

definition cap_inv :: "Device list \<Rightarrow> by_model \<times> Capacity \<Rightarrow> bool" where
  "cap_inv ds st \<longleftrightarrow> model_inv (map dv_Model ds) (fst st) \<and>
     (\<forall>k m. map_of (fst st) k = Some m \<longrightarrow>
        mo_MemoryTotalMiB m = wrap64 (sum_list (map dv_MemoryMiB (of_model ds k))) \<and>
        mo_ComputeTotal m = wrap64 (sum_list (map dv_CorePercent (of_model ds k)))) \<and>
     cy_Devices (snd st) = int (length ds) \<and>
     cy_MemoryTotalMiB (snd st) = wrap64 (sum_list (map dv_MemoryMiB ds)) \<and>
     cy_ComputeTotal (snd st) = wrap64 (sum_list (map dv_CorePercent ds))"

lemma wrap64_0 [simp]: "wrap64 0 = 0"
  by (simp add: wrap64_def)

lemma cap_inv_device:
  assumes "cap_inv ds (bm, out)"
  shows "cap_inv (ds @ [d]) (device_step d (bm, out))"
proof -
  let ?k = "dv_Model d" and ?m = "model_entry bm (dv_Model d)"
  have inv: "model_inv (map dv_Model ds) bm" using assms by (simp add: cap_inv_def)
  have "of_model ds ?k = []" if "map_of bm ?k = None"
  proof -
    have "?k \<notin> dv_Model ` set ds" using that model_inv_domain [OF inv, of ?k] by simp
    then show ?thesis unfolding of_model_def by (intro filter_False) (metis imageI)
  qed
  then have sums: "mo_MemoryTotalMiB ?m = wrap64 (sum_list (map dv_MemoryMiB (of_model ds ?k)))"
    "mo_ComputeTotal ?m = wrap64 (sum_list (map dv_CorePercent (of_model ds ?k)))"
    using assms by (auto simp: cap_inv_def model_entry_def zero_ModelCapacity_def split: option.split)
  define m' where "m' = ?m\<lparr>mo_Devices := mo_Devices ?m + 1,
      mo_MemoryTotalMiB := wrap64 (mo_MemoryTotalMiB ?m + dv_MemoryMiB d),
      mo_ComputeTotal := wrap64 (mo_ComputeTotal ?m + dv_CorePercent d)\<rparr>"
  have "model_inv (map dv_Model ds @ [?k]) (AList.update ?k m' bm)"
    by (rule model_inv_add [OF inv]) (simp_all add: m'_def model_inv_entry [OF inv])
  then show ?thesis
    using assms sums by (auto simp: cap_inv_def device_step_def of_model_def update_conv Let_def simp flip: m'_def)
      (auto simp: m'_def of_model_def)
qed

lemma cap_inv_devices: "cap_inv ds st \<Longrightarrow> cap_inv (ds @ xs) (fold device_step xs st)"
proof (induction xs arbitrary: ds st)
  case (Cons x xs)
  then have "cap_inv (ds @ [x]) (device_step x st)"
    by (cases st) (simp add: cap_inv_device)
  from Cons.IH [OF this] show ?case by simp
qed simp

lemma cap_inv_attribute: "cap_inv ds (bm, out) \<Longrightarrow> cap_inv ds (attribute_step mo ua bm, out)"
proof (cases "map_of bm (smap_get mo (fst ua))")
  case (Some m)
  assume "cap_inv ds (bm, out)"
  moreover have "model_inv models bm \<Longrightarrow>
      model_inv models (AList.update (smap_get mo (fst ua))
        (m\<lparr>mo_MemoryAllocatedMiB := x, mo_ComputeAllocated := y\<rparr>) bm)" for models x y
    by (rule model_inv_replace [OF _ Some]) simp_all
  ultimately show ?thesis
    using Some by (auto simp: cap_inv_def attribute_step_def update_conv Let_def)
qed (simp add: attribute_step_def Let_def)

lemma cap_inv_attributes: "cap_inv ds (bm, out) \<Longrightarrow> cap_inv ds (fold (attribute_step mo) uas bm, out)"
  by (induction uas arbitrary: bm) (simp_all add: cap_inv_attribute)

lemma cap_inv_allocated:
  "cap_inv ds (bm, out) \<Longrightarrow> cap_inv ds (bm, out\<lparr>cy_MemoryAllocatedMiB := x, cy_ComputeAllocated := y\<rparr>)"
  by (simp add: cap_inv_def)

text \<open>The healthy devices a node advertises.\<close>

definition advertised :: "HAMiClient \<Rightarrow> string \<Rightarrow> Device list" where
  "advertised cl name =
     (case cl_node cl name of
        Inl e \<Rightarrow> []
      | Inr node \<Rightarrow>
          (case ParseNodeRegistration (nd_Annotations node) of
             Registered devices \<Rightarrow> HealthyDevices devices
           | _ \<Rightarrow> []))"

lemma capacity_step_inv:
  assumes "cap_inv ds st" and "capacity_step cl name st = Inr st'"
  shows "cap_inv (ds @ advertised cl name) st'"
proof (cases "advertised cl name = [] \<and> st' = st")
  case True
  with assms(1) show ?thesis by simp
next
  case False
  then obtain node devices alloc bu where reg: "cl_node cl name = Inr node"
      "ParseNodeRegistration (nd_Annotations node) = Registered devices"
      "nodeAllocations cl name = Inr (alloc, bu)"
    using assms(2)
    by (auto simp: capacity_step_def advertised_def Let_def
        split: sum.splits if_splits registration.splits prod.splits)
  obtain bm out where st1: "fold device_step (HealthyDevices devices) st = (bm, out)"
    by fastforce
  have "cap_inv (ds @ HealthyDevices devices) (bm, out)"
    using cap_inv_devices [OF assms(1), of "HealthyDevices devices"] by (simp add: st1)
  then show ?thesis
    using assms(2) reg
    by (auto simp: capacity_step_def advertised_def st1 intro!: cap_inv_allocated cap_inv_attributes)
qed

lemma capacity_fold_inv:
  assumes "cap_inv ds st" and "fold_result (capacity_step cl) nodes st = Inr st'"
  shows "cap_inv (ds @ concat (map (advertised cl) nodes)) st'"
  using assms
proof (induction nodes arbitrary: ds st)
  case (Cons n nodes)
  then obtain st1 where "capacity_step cl n st = Inr st1" "fold_result (capacity_step cl) nodes st1 = Inr st'"
    by (auto split: sum.splits)
  with Cons.IH [OF capacity_step_inv [OF Cons.prems(1)]] show ?case by simp
qed simp

lemma cap_inv_zero: "cap_inv [] ([], zero_Capacity)"
  by (simp add: cap_inv_def zero_Capacity_def)

lemma dp_Capacity_models:
  assumes "dp_Capacity cl nodes = Inr c"
  obtains bm out where "cap_inv (concat (map (advertised cl) nodes)) (bm, out)"
    "c = out\<lparr>cy_ByModel := sort_key mo_Model (map snd bm), cy_Homogeneous := length bm \<le> 1\<rparr>"
  using assms capacity_fold_inv [OF cap_inv_zero]
  by (fastforce simp: dp_Capacity_def split: sum.splits prod.splits)

text \<open>What a reading of capacity needs of a node.\<close>

definition readable_node :: "HAMiClient \<Rightarrow> string \<Rightarrow> bool" where
  "readable_node cl n \<longleftrightarrow>
     (case cl_node cl n of
        Inl e \<Rightarrow> IsNotFound e
      | Inr node \<Rightarrow>
          (case map_of (nd_Annotations node) AnnotationNodeRegistration of
             None \<Rightarrow> True
           | Some raw \<Rightarrow> TrimSpace raw = [] \<or> readable_registration raw \<and>
               (\<exists>pods. cl_pods_on cl n = Inr pods \<and>
                  (\<forall>pod \<in> set pods. pd_NodeName pod = n \<and> pd_Phase pod \<notin> {''Succeeded'', ''Failed''} \<longrightarrow>
                     readable_shares (smap_get (pd_Annotations pod) AnnotationDevicesAllocated) \<and>
                     readable_shares (smap_get (pd_Annotations pod) AnnotationDevicesToAllocate)))))"

lemma pod_step_readable:
  "(\<exists>st'. pod_step node pod st = Inr st') \<longleftrightarrow> (pd_NodeName pod = node \<and> pd_Phase pod \<notin> {''Succeeded'', ''Failed''} \<longrightarrow>
     readable_shares (smap_get (pd_Annotations pod) AnnotationDevicesAllocated) \<and>
     readable_shares (smap_get (pd_Annotations pod) AnnotationDevicesToAllocate))"
  unfolding ParseAllocations_readable [symmetric]
  by (auto simp: pod_step_def Let_def split: sum.splits prod.splits)

lemma capacity_step_readable: "(\<exists>st'. capacity_step cl n st = Inr st') \<longleftrightarrow> readable_node cl n"
proof (cases "cl_node cl n")
  case (Inr node)
  have allocs: "(\<exists>r. nodeAllocations cl n = Inr r) \<longleftrightarrow> (\<exists>pods. cl_pods_on cl n = Inr pods \<and>
      (\<forall>pod \<in> set pods. pd_NodeName pod = n \<and> pd_Phase pod \<notin> {''Succeeded'', ''Failed''} \<longrightarrow>
         readable_shares (smap_get (pd_Annotations pod) AnnotationDevicesAllocated) \<and>
         readable_shares (smap_get (pd_Annotations pod) AnnotationDevicesToAllocate)))"
    using fold_result_total [OF pod_step_readable, where s = "(zero_Allocations, [])"]
    by (cases "cl_pods_on cl n") (simp_all only: nodeAllocations_def sum.case sum.simps simp_thms ex_simps)
  show ?thesis
  proof (cases "ParseNodeRegistration (nd_Annotations node)")
    case NotRegistered
    then show ?thesis using ParseNodeRegistration_readable(2) [of "nd_Annotations node"]
      by (auto simp: capacity_step_def readable_node_def Inr split: option.split)
  next
    case (BadRegistration e)
    then show ?thesis using ParseNodeRegistration_readable(1) [of "nd_Annotations node"]
      by (auto simp: capacity_step_def readable_node_def Inr)
  next
    case (Registered ds)
    then obtain raw where raw: "map_of (nd_Annotations node) AnnotationNodeRegistration = Some raw" "TrimSpace raw \<noteq> []" "readable_registration raw"
      using ParseNodeRegistration_readable [of "nd_Annotations node"] by auto
    have "(\<exists>st'. capacity_step cl n st = Inr st') \<longleftrightarrow> (\<exists>r. nodeAllocations cl n = Inr r)"
      by (auto simp: capacity_step_def Inr Registered Let_def split: sum.splits prod.splits)
    with allocs raw show ?thesis by (simp add: readable_node_def Inr)
  qed
qed (simp add: capacity_step_def readable_node_def)

section \<open>Properties\<close>

definition sample_client :: "string \<Rightarrow> HAMiClient" where
  "sample_client alloc =
     \<lparr>cl_node = (\<lambda>n. if n = ''p-0''
        then Inr \<lparr>nd_Name = n, nd_Labels = [(NodeLabelGate, ''on'')],
               nd_Annotations = [(AnnotationNodeRegistration, sample_registration)], nd_Conditions = [],
               nd_Unschedulable = False, nd_Taints = []\<rparr>
        else Inl (ApiErr ErrNotFound ''not found'')),
      cl_pods_on = (\<lambda>n. Inr [\<lparr>pd_Name = ''job'', pd_Namespace = ''ns'', pd_NodeName = ''p-0'', pd_Phase = ''Running'',
        pd_Annotations = [(AnnotationDevicesAllocated, alloc)], pd_Conditions = [], pd_Containers = []\<rparr>]),
      cl_pending = Inr [\<lparr>pd_Name = ''big'', pd_Namespace = ''ns'', pd_NodeName = [], pd_Phase = ''Pending'',
        pd_Annotations = [],
        pd_Conditions = [\<lparr>qc_Type = PodScheduled, qc_Status = ''False'', qc_Reason = PodReasonUnschedulable\<rparr>],
        pd_Containers = [\<lparr>ct_Limits = [(ResourceGPU, 1), (ResourceGPUMemory, 4096)], ct_Requests = []\<rparr>]\<rparr>],
      cl_slices = Inr [], cl_class = (\<lambda>_. Inr ()), cl_claims = Inr []\<rparr>"

text \<open>
  C25. Capacity adds up: a successful reading counts exactly the healthy devices that registered on
  the nodes, its memory and compute totals are the sums over them (in 64-bit arithmetic), there is
  one row per model, sorted and with the count and sums of that model's devices, and the pool is
  homogeneous exactly when the devices have at most one model.
\<close>

theorem dp_Capacity_exact:
  assumes "dp_Capacity cl nodes = Inr c" and "ds = concat (map (advertised cl) nodes)"
  shows "cy_Devices c = int (length ds) \<and>
    cy_MemoryTotalMiB c = wrap64 (sum_list (map dv_MemoryMiB ds)) \<and>
    cy_ComputeTotal c = wrap64 (sum_list (map dv_CorePercent ds)) \<and>
    (cy_Homogeneous c \<longleftrightarrow> card (dv_Model ` set ds) \<le> 1) \<and>
    sorted (map mo_Model (cy_ByModel c)) \<and> distinct (map mo_Model (cy_ByModel c)) \<and>
    set (map mo_Model (cy_ByModel c)) = dv_Model ` set ds \<and>
    (\<forall>m \<in> set (cy_ByModel c).
       mo_Devices m = int (length (of_model ds (mo_Model m))) \<and>
       mo_MemoryTotalMiB m = wrap64 (sum_list (map dv_MemoryMiB (of_model ds (mo_Model m)))) \<and>
       mo_ComputeTotal m = wrap64 (sum_list (map dv_CorePercent (of_model ds (mo_Model m)))))"
proof -
  obtain bm out where inv: "cap_inv ds (bm, out)"
    and c: "c = out\<lparr>cy_ByModel := sort_key mo_Model (map snd bm), cy_Homogeneous := length bm \<le> 1\<rparr>"
    using dp_Capacity_models [OF assms(1)] assms(2) by metis
  have mi: "model_inv (map dv_Model ds) bm" using inv by (simp add: cap_inv_def)
  have count: "count_list (map dv_Model ds) k = length (of_model ds k)" for k
    by (induction ds) (auto simp: of_model_def)
  have rows: "mo_Devices m = int (length (of_model ds (mo_Model m))) \<and>
      mo_MemoryTotalMiB m = wrap64 (sum_list (map dv_MemoryMiB (of_model ds (mo_Model m)))) \<and>
      mo_ComputeTotal m = wrap64 (sum_list (map dv_CorePercent (of_model ds (mo_Model m))))"
    if mem: "m \<in> set (cy_ByModel c)" for m
  proof -
    obtain k where "(k, m) \<in> set bm" using mem c by auto
    then have k: "map_of bm k = Some m" using mi by (simp add: model_inv_def)
    then have "mo_Model m = k" "mo_Devices m = int (count_list (map dv_Model ds) k)"
      using mi by (simp_all add: model_inv_def)
    with k inv show ?thesis by (simp add: cap_inv_def count)
  qed
  have "sorted (map mo_Model (cy_ByModel c))" by (simp add: c)
  moreover have "distinct (map mo_Model (cy_ByModel c))" "set (map mo_Model (cy_ByModel c)) = dv_Model ` set ds"
    "length bm = card (dv_Model ` set ds)"
    using model_inv_result(1,2,5) [OF mi] by (simp_all add: c)
  ultimately show ?thesis
    using inv rows by (simp add: c cap_inv_def)
qed

theorem dp_Capacity_exact_witness:
  "\<exists>c. dp_Capacity (sample_client []) [''p-0'', ''gone''] = Inr c \<and> cy_Devices c = 1"
proof -
  have "\<exists>c. dp_Capacity (sample_client []) [''p-0'', ''gone''] = Inr c"
    by (simp add: dp_Capacity_def capacity_step_def sample_client_def sample_registration_parses nodeAllocations_def
        pod_step_def smap_get_def ParseAllocations_def IsNotFound_def Let_def split: prod.split)
  then obtain c where c: "dp_Capacity (sample_client []) [''p-0'', ''gone''] = Inr c" by blast
  with dp_Capacity_exact [OF c refl] show ?thesis
    by (simp add: advertised_def sample_client_def sample_registration_parses HealthyDevices_def sample_device_def)
qed

text \<open>
  C26. Nothing unreadable counts as nothing. In device-plugin mode a capacity reading is reported if and
  only if every node of the pool could be read: it does not exist yet, or has no registration, or has
  one that is a JSON array of devices, each with its id, memory, compute and health, and then the pods
  on the node were listed and in both annotations of every unfinished one of them each record has a
  uuid, a vendor and two numbers. Anything else is an error and not a zero.
\<close>

theorem dp_Capacity_no_silent_zero:
  "(\<exists>c. dp_Capacity cl nodes = Inr c) \<longleftrightarrow> (\<forall>n \<in> set nodes. readable_node cl n)"
proof -
  have "(\<exists>c. dp_Capacity cl nodes = Inr c) \<longleftrightarrow> (\<exists>st. fold_result (capacity_step cl) nodes ([], zero_Capacity) = Inr st)"
    by (auto simp: dp_Capacity_def split: sum.splits)
  then show ?thesis by (simp only: fold_result_total [OF capacity_step_readable])
qed

theorem dp_Capacity_no_silent_zero_witness:
  "(\<exists>c. dp_Capacity (sample_client []) [''p-0'', ''gone''] = Inr c) \<and>
   \<not> (\<exists>c. dp_Capacity (sample_client ''GPU-1,NVIDIA:;'') [''p-0'', ''gone''] = Inr c)"
proof -
  have reg: "TrimSpace sample_registration \<noteq> []" "readable_registration sample_registration"
    using ParseNodeRegistration_readable [of "[(AnnotationNodeRegistration, sample_registration)]"] sample_registration_parses by auto
  have shares: "readable_shares []" "\<not> readable_shares ''GPU-1,NVIDIA:;''"
  proof -
    have "ParseAllocations [] = Inr []" "isl (ParseAllocations ''GPU-1,NVIDIA:;'')" by code_simp+
    then show "readable_shares []" "\<not> readable_shares ''GPU-1,NVIDIA:;''"
      by (auto simp flip: ParseAllocations_readable)
  qed
  have "readable_node (sample_client []) n" if "n \<in> {''p-0'', ''gone''}" for n
    using that reg shares(1) by (auto simp: readable_node_def sample_client_def smap_get_def IsNotFound_def)
  moreover have "\<not> readable_node (sample_client ''GPU-1,NVIDIA:;'') ''p-0''"
    using reg shares(2) by (auto simp: readable_node_def sample_client_def smap_get_def)
  ultimately show ?thesis
    using dp_Capacity_no_silent_zero [of "sample_client []" "[''p-0'', ''gone'']"]
      dp_Capacity_no_silent_zero [of "sample_client ''GPU-1,NVIDIA:;''" "[''p-0'', ''gone'']"] by simp
qed

text \<open>
  C27. What counts as demand in device-plugin mode. A reading counts exactly the pods that are bound to no
  node, ask for a GPU, and whose first scheduling condition is False with reason Unschedulable or
  SchedulerError; a pod the scheduler has placed or not yet looked at is never demand. One fresh cell
  is said to serve exactly those whose asks add up to at most one device and to no more memory and
  cores than the reference device has, and none when there is no reference. What a pod asks for are
  the limits of its containers; the requests count only for the first container that names a GPU
  resource at all, and only if its limits name none.
\<close>

theorem dp_PendingDemand_exact:
  assumes "dp_PendingDemand cl ref = Inr d" and "cl_pending cl = Inr pods"
    and "wanting = filter (\<lambda>p. pd_NodeName p = [] \<and> judged p \<and> gpu_asks (pd_Containers p) \<noteq> []) pods"
  shows "dm_PendingRequests d = int (length wanting) \<and>
    dm_SatisfiableByOneCell d = (case ref of None \<Rightarrow> 0
      | Some r \<Rightarrow> int (length (filter (\<lambda>p. asked ''nvidia.com/gpu'' p \<le> 1 \<and>
          asked ''nvidia.com/gpumem'' p \<le> dv_MemoryMiB r \<and> asked ''nvidia.com/gpucores'' p \<le> dv_CorePercent r) wanting)))"
proof -
  let ?W = "\<lambda>p. pd_NodeName p = [] \<and> judged p \<and> gpu_asks (pd_Containers p) \<noteq> []"
  let ?F = "\<lambda>p. case ref of None \<Rightarrow> False | Some r \<Rightarrow> fitsOneCell (fst (gpuRequest p)) r"
  have "dm_PendingRequests (fold (demand_step ref) pods d0) = dm_PendingRequests d0 + int (length (filter ?W pods)) \<and>
      dm_SatisfiableByOneCell (fold (demand_step ref) pods d0) =
        dm_SatisfiableByOneCell d0 + int (length (filter ?F (filter ?W pods)))" for d0
    by (induction pods arbitrary: d0)
      (auto simp: demand_step_def count_request_def unschedulable_judged gpuRequest_asks Let_def split: option.splits)
  from this [of zero_Demand] show ?thesis
    using assms
    by (cases ref) (simp_all add: dp_PendingDemand_def zero_Demand_def fitsOneCell_iff gpuRequest_asks sums_def asked_def)
qed

theorem dp_PendingDemand_exact_witness:
  "\<exists>d. dp_PendingDemand (sample_client []) (Some sample_device) = Inr d \<and> dm_PendingRequests d = 1 \<and> dm_SatisfiableByOneCell d = 1"
proof -
  obtain d where d: "dp_PendingDemand (sample_client []) (Some sample_device) = Inr d"
    by (simp add: dp_PendingDemand_def sample_client_def)
  have "judged p \<and> gpu_asks (pd_Containers p) \<noteq> [] \<and> asked ''nvidia.com/gpu'' p = 1 \<and> asked ''nvidia.com/gpumem'' p = 4096 \<and>
      asked ''nvidia.com/gpucores'' p = 0" if "cl_pending (sample_client []) = Inr [p]" for p
    using that by (auto simp: sample_client_def judged_def asked_def amount_def names_gpu_def wrap64_def)
  with d dp_PendingDemand_exact [OF d _ refl, of "case cl_pending (sample_client []) of Inr p \<Rightarrow> p"] show ?thesis
    by (simp add: sample_client_def sample_device_def)
qed

end
