(* ===== verification/HamiDra.thy ===== *)
theory HamiDra
  imports HamiProvider
begin

text \<open>
  HAMi's DRA mode (\<^verbatim>\<open>internal/capacity/hami_dra.go\<close>) and the provider's methods, which choose the
  mode. Capacity comes from the driver's ResourceSlices, what is taken of it from the allocated
  ResourceClaims. \<^verbatim>\<open>draSlices\<close> indexes the slices by pool; here \<open>pool_slices\<close> is a lookup in that index.
\<close>

abbreviation DRADriverName :: string where "DRADriverName \<equiv> ''hami-core-gpu.project-hami.io''"
abbreviation draCapCores :: string where "draCapCores \<equiv> ''cores''"
abbreviation draCapMemory :: string where "draCapMemory \<equiv> ''memory''"
abbreviation DeviceAllocationModeAll :: string where "DeviceAllocationModeAll \<equiv> ''All''"
abbreviation dra_mib :: i64 where "dra_mib \<equiv> 1048576"

definition deviceClassName :: "HAMiProvider \<Rightarrow> string" where
  "deviceClassName p = (if hp_DeviceClass p \<noteq> [] then hp_DeviceClass p else DRADriverName)"

definition draSlices :: "HAMiProvider \<Rightarrow> (string \<times> ResourceSlice list) list result" where
  "draSlices p =
     (case cl_slices (hp_Client p) of
        Inl e \<Rightarrow> Inl (Wrapped ''listing ResourceSlices'' e)
      | Inr items \<Rightarrow>
          Inr (foldl (\<lambda>byPool s.
                 if rs_Driver s \<noteq> DRADriverName then byPool
                 else AList.update (rs_Pool s)
                        ((case map_of byPool (rs_Pool s) of None \<Rightarrow> [] | Some xs \<Rightarrow> xs) @ [s]) byPool) [] items))"

definition pool_slices :: "(string \<times> ResourceSlice list) list \<Rightarrow> string \<Rightarrow> ResourceSlice list" where
  "pool_slices byPool node = (case map_of byPool node of None \<Rightarrow> [] | Some xs \<Rightarrow> xs)"

definition node_devices :: "(string \<times> ResourceSlice list) list \<Rightarrow> string \<Rightarrow> (string \<times> SliceDevice) list" where
  \<comment> \<open>the devices the nested loops over a node's slices visit, with their pool\<close>
  "node_devices byPool node =
     concat (map (\<lambda>s. map (\<lambda>d. (rs_Pool s, d)) (rs_Devices s)) (pool_slices byPool node))"

definition draHealth :: "HAMiProvider \<Rightarrow> string list \<Rightarrow> Health result" where
  "draHealth p nodes =
     (case draSlices p of
        Inl e \<Rightarrow>
          if IsNotFound e then
            Inr \<lparr>he_Ready = False, he_Reason = ReasonDRAFeatureGateMissing,
                 he_Message = ''the resource.k8s.io/v1 API is not served by the workload cluster; '' @
                   ''HAMi DRA mode needs Kubernetes >= 1.34 with DynamicResourceAllocation enabled''\<rparr>
          else Inl e
      | Inr byPool \<Rightarrow>
          let class = deviceClassName p in
          case cl_class (hp_Client p) class of
            Inl e \<Rightarrow>
              if IsNotFound e then
                Inr \<lparr>he_Ready = False, he_Reason = ReasonDRADeviceClassMissing,
                     he_Message = ''DeviceClass '' @ class @ '' does not exist in the workload cluster; '' @
                       ''install Project-HAMi's DRA driver, or set capacity.hami.deviceClassName '' @
                       ''to the class your driver ships''\<rparr>
              else Inl (Wrapped (''reading DeviceClass '' @ class) e)
          | Inr _ \<Rightarrow>
              if length nodes = 0 then Inr hami_detected
              else
                let devices = concat (map (node_devices byPool) nodes);
                    detected = length devices;
                    withCapacity = length (filter (\<lambda>(_, d). 0 < length (sl_Capacity d)) devices)
                in if detected = 0 then
                     Inr \<lparr>he_Ready = False, he_Reason = ReasonHAMiNotDetected,
                          he_Message = ''no ResourceSlices published by driver '' @ DRADriverName @
                            '' for any cell node; is the DRA driver's DaemonSet running on the cells?''\<rparr>
                   else if withCapacity = 0 then
                     Inr \<lparr>he_Ready = False, he_Reason = ReasonDRAFeatureGateMissing,
                          he_Message = ''the DRA driver publishes devices with no capacity, which means the '' @
                            ''DRAConsumableCapacity feature gate is off (it is beta and on by default '' @
                            ''from Kubernetes 1.36; enable it explicitly on 1.34 and 1.35)''\<rparr>
                   else Inr hami_detected)"

definition draDevices :: "HAMiProvider \<Rightarrow> string \<Rightarrow> goint result" where
  "draDevices p node =
     (case draSlices p of
        Inl e \<Rightarrow> Inl e
      | Inr byPool \<Rightarrow> Inr (foldl (\<lambda>n s. n + int (length (rs_Devices s))) 0 (pool_slices byPool node)))"

section \<open>Claims\<close>

record draConsumed =
  dc_cores :: i64
  dc_memoryMiB :: i64
  dc_claims :: goint
  dc_unreserved :: goint

definition result_key :: "AllocationResult \<Rightarrow> string" where
  "result_key res = ar_Pool res @ ''/'' @ ar_Device res"

definition consume :: "ResourceClaim \<Rightarrow> AllocationResult \<Rightarrow> draConsumed \<Rightarrow> draConsumed" where
  "consume c res e =
     (let e = e\<lparr>dc_claims := dc_claims e + 1\<rparr>;
          e = (if length (rc_ReservedFor c) = 0 then e\<lparr>dc_unreserved := dc_unreserved e + 1\<rparr> else e);
          e = (case map_of (ar_Consumed res) draCapCores of
                 None \<Rightarrow> e | Some q \<Rightarrow> e\<lparr>dc_cores := wrap64 (dc_cores e + q)\<rparr>)
      in case map_of (ar_Consumed res) draCapMemory of
           None \<Rightarrow> e | Some q \<Rightarrow> e\<lparr>dc_memoryMiB := wrap64 (dc_memoryMiB e + quot q dra_mib)\<rparr>)"

definition zero_consumed :: draConsumed where
  "zero_consumed = \<lparr>dc_cores = 0, dc_memoryMiB = 0, dc_claims = 0, dc_unreserved = 0\<rparr>"

definition result_step ::
  "ResourceClaim \<Rightarrow> AllocationResult \<Rightarrow> (string \<times> draConsumed) list \<Rightarrow> (string \<times> draConsumed) list" where
  "result_step c res out =
     (if ar_Driver res \<noteq> DRADriverName then out
      else let key = result_key res;
               e = (case map_of out key of None \<Rightarrow> zero_consumed | Some e \<Rightarrow> e)
           in AList.update key (consume c res e) out)"

definition claim_step :: "ResourceClaim \<Rightarrow> (string \<times> draConsumed) list \<Rightarrow> (string \<times> draConsumed) list" where
  "claim_step c out = (case rc_Allocation c of None \<Rightarrow> out | Some results \<Rightarrow> fold (result_step c) results out)"

definition draAllocated :: "HAMiProvider \<Rightarrow> (string \<times> draConsumed) list result" where
  "draAllocated p =
     (case cl_claims (hp_Client p) of
        Inl e \<Rightarrow> Inl (Wrapped ''listing ResourceClaims'' e)
      | Inr claims \<Rightarrow> Inr (fold claim_step claims []))"

definition dra_alloc_step ::
  "(string \<times> draConsumed) list \<Rightarrow> string \<times> SliceDevice \<Rightarrow> Allocations \<Rightarrow> Allocations" where
  "dra_alloc_step consumed pd out =
     (case map_of consumed (fst pd @ ''/'' @ sl_Name (snd pd)) of
        None \<Rightarrow> out
      | Some e \<Rightarrow>
          let out = out\<lparr>al_Consumers := al_Consumers out + dc_claims e,
                al_CorePercent := wrap64 (al_CorePercent out + dc_cores e),
                al_MemoryMiB := wrap64 (al_MemoryMiB out + dc_memoryMiB e)\<rparr>
          in if 0 < dc_unreserved e then out\<lparr>al_InFlight := True\<rparr> else out)"

definition draAllocations :: "HAMiProvider \<Rightarrow> string \<Rightarrow> Allocations result" where
  "draAllocations p node =
     (case draSlices p of
        Inl e \<Rightarrow> Inl e
      | Inr byPool \<Rightarrow>
          (case draAllocated p of
             Inl e \<Rightarrow> Inl e
           | Inr consumed \<Rightarrow> Inr (fold (dra_alloc_step consumed) (node_devices byPool node) zero_Allocations)))"

section \<open>Capacity\<close>

definition draModel :: "SliceDevice \<Rightarrow> string" where
  "draModel d = (case sl_ProductName d of
     None \<Rightarrow> ''unknown'' | Some v \<Rightarrow> if v \<noteq> [] then v else ''unknown'')"

definition dra_device_step ::
  "(string \<times> draConsumed) list \<Rightarrow> string \<times> SliceDevice \<Rightarrow> by_model \<times> Capacity \<Rightarrow> by_model \<times> Capacity" where
  "dra_device_step consumed pd st =
     (let (bm, out) = st; d = snd pd; m = model_entry bm (draModel d);
          m = m\<lparr>mo_Devices := mo_Devices m + 1\<rparr>;
          m = (case map_of (sl_Capacity d) draCapCores of
                 None \<Rightarrow> m | Some q \<Rightarrow> m\<lparr>mo_ComputeTotal := wrap64 (mo_ComputeTotal m + q)\<rparr>);
          m = (case map_of (sl_Capacity d) draCapMemory of
                 None \<Rightarrow> m | Some q \<Rightarrow> m\<lparr>mo_MemoryTotalMiB := wrap64 (mo_MemoryTotalMiB m + quot q dra_mib)\<rparr>);
          m = (case map_of consumed (fst pd @ ''/'' @ sl_Name d) of
                 None \<Rightarrow> m
               | Some e \<Rightarrow> m\<lparr>mo_ComputeAllocated := wrap64 (mo_ComputeAllocated m + dc_cores e),
                   mo_MemoryAllocatedMiB := wrap64 (mo_MemoryAllocatedMiB m + dc_memoryMiB e)\<rparr>)
      in (AList.update (draModel d) m bm, out\<lparr>cy_Devices := cy_Devices out + 1\<rparr>))"

definition draCapacity :: "HAMiProvider \<Rightarrow> string list \<Rightarrow> Capacity result" where
  "draCapacity p nodes =
     (case draSlices p of
        Inl e \<Rightarrow> Inl e
      | Inr byPool \<Rightarrow>
          (case draAllocated p of
             Inl e \<Rightarrow> Inl e
           | Inr consumed \<Rightarrow>
               let (bm, out) = fold (dra_device_step consumed) (concat (map (node_devices byPool) nodes))
                                 ([], zero_Capacity);
                   models = sort_key mo_Model (map snd bm);
                   out = out\<lparr>cy_ByModel := models, cy_Homogeneous := length models \<le> 1\<rparr>;
                   out = foldl (\<lambda>o' m. o'\<lparr>cy_MemoryTotalMiB := wrap64 (cy_MemoryTotalMiB o' + mo_MemoryTotalMiB m),
                       cy_MemoryAllocatedMiB := wrap64 (cy_MemoryAllocatedMiB o' + mo_MemoryAllocatedMiB m)\<rparr>) out models
               in Inr (case models of
                         [m] \<Rightarrow> out\<lparr>cy_ComputeTotal := mo_ComputeTotal m, cy_ComputeAllocated := mo_ComputeAllocated m\<rparr>
                       | _ \<Rightarrow> out)))"

section \<open>Demand\<close>

fun draRequest_loop :: "string \<Rightarrow> DeviceRequest list \<Rightarrow> gpuReq \<times> bool \<Rightarrow> gpuReq \<times> bool" where
  "draRequest_loop class [] st = st"
| "draRequest_loop class (r # rs) (req, wants) =
     (case dq_Exactly r of
        None \<Rightarrow> draRequest_loop class rs (req, wants)
      | Some ex \<Rightarrow>
          if er_DeviceClassName ex \<noteq> class then draRequest_loop class rs (req, wants)
          else if er_AllocationMode ex = DeviceAllocationModeAll
            then (\<lparr>gr_devices = 2, gr_memoryMiB = 0, gr_cores = 0\<rparr>, True)
          else
            let n = (if er_Count ex \<le> 0 then 1 else er_Count ex);
                req = req\<lparr>gr_devices := wrap64 (gr_devices req + n)\<rparr>;
                req = (case er_Capacity ex of
                         None \<Rightarrow> req
                       | Some rl \<Rightarrow>
                           let req = (case map_of rl draCapCores of
                                        None \<Rightarrow> req | Some q \<Rightarrow> req\<lparr>gr_cores := wrap64 (gr_cores req + q)\<rparr>)
                           in case map_of rl draCapMemory of
                                None \<Rightarrow> req
                              | Some q \<Rightarrow> req\<lparr>gr_memoryMiB := wrap64 (gr_memoryMiB req + quot q dra_mib)\<rparr>)
            in draRequest_loop class rs (req, True))"

definition draRequest :: "ResourceClaim \<Rightarrow> string \<Rightarrow> gpuReq \<times> bool" where
  "draRequest c class =
     draRequest_loop class (rc_Requests c) (\<lparr>gr_devices = 0, gr_memoryMiB = 0, gr_cores = 0\<rparr>, False)"

definition dra_demand_step :: "string \<Rightarrow> Device option \<Rightarrow> ResourceClaim \<Rightarrow> Demand \<Rightarrow> Demand" where
  "dra_demand_step class ref c out =
     (if rc_Allocation c \<noteq> None then out
      else if \<not> snd (draRequest c class) then out
      else count_request ref (fst (draRequest c class)) out)"

definition draPendingDemand :: "HAMiProvider \<Rightarrow> Device option \<Rightarrow> Demand result" where
  "draPendingDemand p ref =
     (case cl_claims (hp_Client p) of
        Inl e \<Rightarrow> Inl (Wrapped ''listing ResourceClaims'' e)
      | Inr claims \<Rightarrow> Inr (fold (dra_demand_step (deviceClassName p) ref) claims zero_Demand))"

section \<open>The provider\<close>

definition provider_Health :: "HAMiProvider \<Rightarrow> string list \<Rightarrow> Health result" where
  "provider_Health p nodes = (if hp_Mode p = HAMiModeDRA then draHealth p nodes else dp_Health p nodes)"

definition provider_Devices :: "HAMiProvider \<Rightarrow> string \<Rightarrow> goint result" where
  "provider_Devices p name = (if hp_Mode p = HAMiModeDRA then draDevices p name else dp_Devices (hp_Client p) name)"

definition provider_Capacity :: "HAMiProvider \<Rightarrow> string list \<Rightarrow> Capacity result" where
  "provider_Capacity p nodes =
     (if hp_Mode p = HAMiModeDRA then draCapacity p nodes else dp_Capacity (hp_Client p) nodes)"

definition provider_Allocations :: "HAMiProvider \<Rightarrow> string \<Rightarrow> Allocations result" where
  "provider_Allocations p node =
     (if hp_Mode p = HAMiModeDRA then draAllocations p node else dp_Allocations (hp_Client p) node)"

definition provider_PendingDemand :: "HAMiProvider \<Rightarrow> Device option \<Rightarrow> Demand result" where
  "provider_PendingDemand p ref =
     (if hp_Mode p = HAMiModeDRA then draPendingDemand p ref else dp_PendingDemand (hp_Client p) ref)"

section \<open>Facts on claims\<close>

text \<open>The keys of the shares that allocated claims hold of this driver's devices.\<close>

definition result_keys :: "ResourceClaim \<Rightarrow> string set" where
  "result_keys c = (case rc_Allocation c of None \<Rightarrow> {}
     | Some results \<Rightarrow> result_key ` {res \<in> set results. ar_Driver res = DRADriverName})"

definition consumed_inv :: "string set \<Rightarrow> (string \<times> draConsumed) list \<Rightarrow> bool" where
  "consumed_inv keys out \<longleftrightarrow> dom (map_of out) = keys \<and>
     (\<forall>k e. map_of out k = Some e \<longrightarrow> 1 \<le> dc_claims e)"

lemma consume_claims: "dc_claims (consume c res e) = dc_claims e + 1"
  by (simp add: consume_def Let_def split: option.split)

lemma consumed_inv_result:
  assumes "consumed_inv keys out"
  shows "consumed_inv (keys \<union> (if ar_Driver res = DRADriverName then {result_key res} else {})) (result_step c res out)"
proof -
  have "0 \<le> dc_claims (case map_of out (result_key res) of None \<Rightarrow> zero_consumed | Some e \<Rightarrow> e)"
    using assms by (fastforce simp: consumed_inv_def zero_consumed_def split: option.split)
  then show ?thesis
    using assms by (auto simp: consumed_inv_def result_step_def consume_claims update_conv Let_def)
qed

lemma consumed_inv_results:
  "consumed_inv keys out \<Longrightarrow>
   consumed_inv (keys \<union> result_key ` {res \<in> set results. ar_Driver res = DRADriverName}) (fold (result_step c) results out)"
proof (induction results arbitrary: keys out)
  case (Cons r rs)
  have "keys \<union> (if ar_Driver r = DRADriverName then {result_key r} else {}) \<union>
      result_key ` {res \<in> set rs. ar_Driver res = DRADriverName} =
      keys \<union> result_key ` {res \<in> set (r # rs). ar_Driver res = DRADriverName}"
    by auto
  with Cons.IH [OF consumed_inv_result [OF Cons.prems, where res = r and c = c]] show ?case by simp
qed simp

lemma consumed_inv_claims:
  "consumed_inv keys out \<Longrightarrow> consumed_inv (keys \<union> (\<Union>c \<in> set claims. result_keys c)) (fold claim_step claims out)"
proof (induction claims arbitrary: keys out)
  case (Cons c cs)
  have "consumed_inv (keys \<union> result_keys c) (claim_step c out)"
    using Cons.prems consumed_inv_results
    by (auto simp: claim_step_def result_keys_def split: option.split)
  from Cons.IH [OF this] show ?case by (simp add: Un_assoc)
qed simp

lemma dra_alloc_step_empty:
  assumes "consumed_inv keys consumed" and "0 \<le> al_Consumers out"
  shows "0 \<le> al_Consumers (dra_alloc_step consumed pd out) \<and>
    (Empty (dra_alloc_step consumed pd out) \<longleftrightarrow> Empty out \<and> fst pd @ ''/'' @ sl_Name (snd pd) \<notin> keys)"
proof (cases "map_of consumed (fst pd @ ''/'' @ sl_Name (snd pd))")
  case None
  then have "fst pd @ ''/'' @ sl_Name (snd pd) \<notin> keys"
    using assms(1) by (auto simp: consumed_inv_def)
  with None assms(2) show ?thesis by (simp add: dra_alloc_step_def)
next
  case (Some e)
  then have "fst pd @ ''/'' @ sl_Name (snd pd) \<in> keys" "1 \<le> dc_claims e"
    using assms(1) by (auto simp: consumed_inv_def)
  with Some assms(2) show ?thesis by (simp add: dra_alloc_step_def Empty_def Let_def)
qed

lemma fold_dra_alloc_step:
  assumes "consumed_inv keys consumed" and "0 \<le> al_Consumers out"
  shows "Empty (fold (dra_alloc_step consumed) pds out) \<longleftrightarrow>
    Empty out \<and> (\<forall>pd \<in> set pds. fst pd @ ''/'' @ sl_Name (snd pd) \<notin> keys)"
  using assms(2)
proof (induction pds arbitrary: out)
  case (Cons pd pds)
  note step = dra_alloc_step_empty [OF assms(1) Cons.prems, of pd]
  with Cons.IH [of "dra_alloc_step consumed pd out"] show ?case by auto
qed simp

definition dra_holder :: "HAMiProvider \<Rightarrow> string \<Rightarrow> bool" where
  "dra_holder p node \<longleftrightarrow>
     (case draSlices p of
        Inl e \<Rightarrow> False
      | Inr byPool \<Rightarrow>
          (case cl_claims (hp_Client p) of
             Inl e \<Rightarrow> False
           | Inr claims \<Rightarrow>
               \<exists>pd \<in> set (node_devices byPool node). \<exists>c \<in> set claims. fst pd @ ''/'' @ sl_Name (snd pd) \<in> result_keys c))"

lemma draAllocations_empty:
  assumes "draAllocations p node = Inr a"
  shows "Empty a \<longleftrightarrow> \<not> dra_holder p node"
proof -
  obtain byPool claims where r: "draSlices p = Inr byPool" "cl_claims (hp_Client p) = Inr claims"
    "a = fold (dra_alloc_step (fold claim_step claims [])) (node_devices byPool node) zero_Allocations"
    using assms by (auto simp: draAllocations_def draAllocated_def split: sum.splits)
  have "consumed_inv ({} \<union> (\<Union>c \<in> set claims. result_keys c)) (fold claim_step claims [])"
    by (rule consumed_inv_claims) (simp add: consumed_inv_def)
  from fold_dra_alloc_step [OF this, of zero_Allocations "node_devices byPool node"] show ?thesis
    by (auto simp: r dra_holder_def zero_Allocations_def Empty_def)
qed

section \<open>Facts on DRA capacity and demand\<close>

lemma dra_device_step_inv:
  assumes "model_inv models (fst st)"
  shows "model_inv (models @ [draModel (snd pd)]) (fst (dra_device_step consumed pd st))"
    "cy_Devices (snd (dra_device_step consumed pd st)) = cy_Devices (snd st) + 1"
proof -
  obtain bm out where st: "st = (bm, out)" by fastforce
  have inv: "model_inv models bm" using assms st by simp
  show "model_inv (models @ [draModel (snd pd)]) (fst (dra_device_step consumed pd st))"
    unfolding dra_device_step_def Let_def st prod.case fst_conv
    by (rule model_inv_add [OF inv]) (simp_all add: model_inv_entry [OF inv] split: option.split)
  show "cy_Devices (snd (dra_device_step consumed pd st)) = cy_Devices (snd st) + 1"
    by (simp add: dra_device_step_def st Let_def)
qed

lemma fold_dra_device_step:
  assumes "model_inv models (fst st)"
  shows "model_inv (models @ map (draModel \<circ> snd) pds) (fst (fold (dra_device_step consumed) pds st)) \<and>
    cy_Devices (snd (fold (dra_device_step consumed) pds st)) = cy_Devices (snd st) + int (length pds)"
  using assms
proof (induction pds arbitrary: models st)
  case (Cons pd pds)
  note step = dra_device_step_inv [OF Cons.prems, where pd = pd and consumed = consumed]
  from Cons.IH [OF step(1)] step(2) show ?case by simp
qed simp

lemma foldl_totals_frame:
  "cy_Devices (foldl (\<lambda>o' m. o'\<lparr>cy_MemoryTotalMiB := f o' m, cy_MemoryAllocatedMiB := g o' m\<rparr>) out ms) = cy_Devices out"
  "cy_ByModel (foldl (\<lambda>o' m. o'\<lparr>cy_MemoryTotalMiB := f o' m, cy_MemoryAllocatedMiB := g o' m\<rparr>) out ms) = cy_ByModel out"
  "cy_Homogeneous (foldl (\<lambda>o' m. o'\<lparr>cy_MemoryTotalMiB := f o' m, cy_MemoryAllocatedMiB := g o' m\<rparr>) out ms) =
     cy_Homogeneous out"
  by (induction ms arbitrary: out) simp_all

text \<open>The shape both modes give a reading: the rows come from a per-model map over the devices.\<close>

definition from_models :: "string list \<Rightarrow> Capacity \<Rightarrow> bool" where
  "from_models models c \<longleftrightarrow>
     (\<exists>bm. model_inv models bm \<and> cy_ByModel c = sort_key mo_Model (map snd bm)) \<and>
     cy_Devices c = int (length models) \<and> (cy_Homogeneous c \<longleftrightarrow> length (cy_ByModel c) \<le> 1)"

lemma draCapacity_from_models:
  assumes "draCapacity p nodes = Inr c"
  shows "\<exists>models. from_models models c"
proof -
  obtain byPool consumed bm out where r: "draSlices p = Inr byPool" "draAllocated p = Inr consumed"
    "fold (dra_device_step consumed) (concat (map (node_devices byPool) nodes)) ([], zero_Capacity) = (bm, out)"
    using assms by (auto simp: draCapacity_def Let_def split: sum.splits prod.splits)
  let ?pds = "concat (map (node_devices byPool) nodes)"
  have "model_inv (map (draModel \<circ> snd) ?pds) bm" "cy_Devices out = int (length ?pds)"
    using fold_dra_device_step [where models = "[]" and st = "([], zero_Capacity)" and consumed = consumed and pds = ?pds]
    unfolding r(3) by (simp_all add: zero_Capacity_def)
  then show ?thesis
    using assms unfolding from_models_def
    by (intro exI [of _ "map (draModel \<circ> snd) ?pds"] conjI exI [of _ bm])
      (auto simp: draCapacity_def r foldl_totals_frame Let_def split: list.splits)
qed

lemma dp_Capacity_from_models:
  assumes "dp_Capacity cl nodes = Inr c"
  shows "\<exists>models. from_models models c"
proof -
  let ?ds = "concat (map (advertised cl) nodes)"
  obtain bm out where inv: "cap_inv ?ds (bm, out)"
    and c: "c = out\<lparr>cy_ByModel := sort_key mo_Model (map snd bm), cy_Homogeneous := length bm \<le> 1\<rparr>"
    using dp_Capacity_models [OF assms] by metis
  then show ?thesis
    unfolding from_models_def
    by (intro exI [of _ "map dv_Model ?ds"] conjI exI [of _ bm]) (auto simp: cap_inv_def)
qed

lemma provider_Capacity_from_models: "provider_Capacity p nodes = Inr c \<Longrightarrow> \<exists>models. from_models models c"
  by (auto simp: provider_Capacity_def intro: draCapacity_from_models dp_Capacity_from_models split: if_splits)

lemma draPendingDemand_inv: "draPendingDemand p ref = Inr d \<Longrightarrow> demand_inv ref d"
  by (auto simp: draPendingDemand_def dra_demand_step_def intro!: fold_invariant [where P = "demand_inv ref"]
      demand_inv_zero demand_inv_count split: sum.splits)

lemma provider_PendingDemand_inv: "provider_PendingDemand p ref = Inr d \<Longrightarrow> demand_inv ref d"
  by (auto simp: provider_PendingDemand_def intro: draPendingDemand_inv dp_PendingDemand_inv split: if_splits)

section \<open>The contract holds\<close>

definition provider_holder :: "HAMiProvider \<Rightarrow> string \<Rightarrow> bool" where
  "provider_holder p node \<longleftrightarrow>
     (if hp_Mode p = HAMiModeDRA then dra_holder p node else dp_holder (hp_Client p) node)"

interpretation hami: capacity_provider "provider_Allocations p" "provider_Capacity p" "provider_PendingDemand p"
    "provider_holder p" for p
proof
  fix n a
  assume "provider_Allocations p n = Inr a"
  then show "Empty a \<longleftrightarrow> \<not> provider_holder p n"
    by (auto simp: provider_Allocations_def provider_holder_def draAllocations_empty dp_Allocations_empty split: if_splits)
next
  fix ref d
  assume "provider_PendingDemand p ref = Inr d"
  then show "0 \<le> dm_SatisfiableByOneCell d \<and> dm_SatisfiableByOneCell d \<le> dm_PendingRequests d"
    using provider_PendingDemand_inv by (simp add: demand_inv_def)
next
  fix d
  assume "provider_PendingDemand p None = Inr d"
  then show "dm_SatisfiableByOneCell d = 0"
    using provider_PendingDemand_inv by (fastforce simp: demand_inv_def)
next
  fix ns c m
  assume "provider_Capacity p ns = Inr c"
  then obtain models bm where f: "model_inv models bm" "cy_ByModel c = sort_key mo_Model (map snd bm)"
    "cy_Devices c = int (length models)" "cy_Homogeneous c \<longleftrightarrow> length (cy_ByModel c) \<le> 1"
    using provider_Capacity_from_models unfolding from_models_def by blast
  note result = model_inv_result [OF f(1), folded f(2)]
  show "cy_Homogeneous c \<longleftrightarrow> length (cy_ByModel c) \<le> 1" by (rule f(4))
  show "distinct (map mo_Model (cy_ByModel c))" by (rule result(1))
  show "m \<in> set (cy_ByModel c) \<Longrightarrow> 0 < mo_Devices m" by (rule result(4))
  show "cy_Devices c = sum_list (map mo_Devices (cy_ByModel c))" using result(3) f(3) by simp
qed

section \<open>Properties\<close>

definition sample_dra_client :: HAMiClient where
  "sample_dra_client = (sample_client [])\<lparr>
     cl_slices := Inr [\<lparr>rs_Driver = DRADriverName, rs_Pool = ''p-0'',
       rs_Devices = [\<lparr>sl_Name = ''hami-gpu-0'', sl_Capacity = [(draCapCores, 100), (draCapMemory, 8589934592)],
                     sl_ProductName = Some ''L4'', sl_VFIOReady = None\<rparr>]\<rparr>,
       \<lparr>rs_Driver = DRADriverName, rs_Pool = ''p-1'',
       rs_Devices = [\<lparr>sl_Name = ''hami-gpu-0'', sl_Capacity = [(draCapCores, 100), (draCapMemory, 8589934592)],
                     sl_ProductName = Some ''L4'', sl_VFIOReady = None\<rparr>]\<rparr>],
     cl_claims := Inr [\<lparr>rc_Requests = [], rc_Allocation = Some [\<lparr>ar_Driver = DRADriverName, ar_Pool = ''p-0'',
       ar_Device = ''hami-gpu-0'', ar_Consumed = [(draCapCores, 30)]\<rparr>], rc_ReservedFor = [''pod'']\<rparr>]\<rparr>"

definition sample_dra :: HAMiProvider where
  "sample_dra = NewHAMiProvider sample_dra_client HAMiModeDRA []"

lemmas dra_eval = sample_dra_def sample_dra_client_def sample_client_def NewHAMiProvider_def draSlices_def
  draAllocated_def claim_step_def result_step_def result_key_def consume_def zero_consumed_def
  draAllocations_def node_devices_def pool_slices_def dra_alloc_step_def zero_Allocations_def Let_def

text \<open>
  An idle cell holds nothing, in both modes: a cell the scan lists is Ready, its allocations
  were read, and no live pod has or is being given a share of its GPU (DevicePlugin), nor does any
  allocated claim name one of its devices (DRA). A cell whose allocations cannot be read is not
  listed.
\<close>

theorem idleCells_hold_nothing:
  assumes "n \<in> set (idleCells (provider_Allocations p) cells)"
  shows "\<exists>c \<in> set cells. cs_Name c = n \<and> cs_Phase c = CellPhaseReady \<and> cs_NodeName c \<noteq> [] \<and>
    \<not> provider_holder p (cs_NodeName c)"
  using assms by (rule hami.idle_not_held)

theorem idleCells_hold_nothing_witness:
  "idleCells (provider_Allocations sample_dra)
     [sample_row ''p-0'' 0 CellPhaseReady\<lparr>cs_NodeName := ''p-0''\<rparr>,
      sample_row ''p-1'' 1 CellPhaseReady\<lparr>cs_NodeName := ''p-1''\<rparr>] = [''p-1''] \<and>
   \<not> provider_holder sample_dra ''p-1''"
proof -
  let ?cells = "[sample_row ''p-0'' 0 CellPhaseReady\<lparr>cs_NodeName := ''p-0''\<rparr>,
      sample_row ''p-1'' 1 CellPhaseReady\<lparr>cs_NodeName := ''p-1''\<rparr>]"
  have idle: "idleCells (provider_Allocations sample_dra) ?cells = [''p-1'']"
    by (simp add: sample_row_def provider_Allocations_def Empty_def dra_eval)
  then show ?thesis
    using idleCells_hold_nothing [of "''p-1''" sample_dra ?cells] by (auto simp: sample_row_def)
qed

text \<open>
  The drain gate on a real reading: with the pool not being deleted, a cell whose GPU something
  holds is never removed, whatever the policy and however long the drain has lasted, and neither
  is one whose allocations cannot be read.
\<close>

theorem drain_gate_spares_held_cells:
  assumes "provider_holder p node \<or> (\<exists>e. provider_Allocations p node = Inl e)"
  shows "\<not> dd_Proceed (AdvanceDrain
      (case provider_Allocations p node of Inl e \<Rightarrow> zero_Allocations | Inr a \<Rightarrow> a)
      (case provider_Allocations p node of Inl e \<Rightarrow> False | Inr a \<Rightarrow> True) False force since now timeout)"
proof (cases "provider_Allocations p node")
  case (Inl e)
  then show ?thesis by (simp add: AdvanceDrain_def Let_def)
next
  case (Inr a)
  with assms show ?thesis using hami.drain_not_held [of p node force since now timeout] by auto
qed

theorem drain_gate_spares_held_cells_witness:
  "\<not> dd_Proceed (AdvanceDrain
      (case provider_Allocations sample_dra ''p-0'' of Inl e \<Rightarrow> zero_Allocations | Inr a \<Rightarrow> a)
      (case provider_Allocations sample_dra ''p-0'' of Inl e \<Rightarrow> False | Inr a \<Rightarrow> True) False True 1 (10 * Minute) Minute)"
proof -
  have "provider_holder sample_dra ''p-0''"
    by (simp add: provider_holder_def dra_holder_def result_keys_def dra_eval image_iff)
  then show ?thesis by (intro drain_gate_spares_held_cells) simp
qed

text \<open>
  C28. A capacity reading is coherent in both modes: one row per model, each with at least one
  device, the device count is the sum over the rows, the pool is homogeneous exactly with at most
  one row, and a reference device for scaling can be derived exactly when some device is there.
\<close>

theorem provider_Capacity_coherent:
  assumes "provider_Capacity p nodes = Inr c"
  shows "distinct (map mo_Model (cy_ByModel c)) \<and> (\<forall>m \<in> set (cy_ByModel c). 0 < mo_Devices m) \<and>
    cy_Devices c = sum_list (map mo_Devices (cy_ByModel c)) \<and>
    (cy_Homogeneous c \<longleftrightarrow> length (cy_ByModel c) \<le> 1) \<and>
    (ReferenceDevice c \<noteq> None \<longleftrightarrow> 0 < cy_Devices c)"
  using hami.capacity_models [OF assms] hami.capacity_devices [OF assms] hami.capacity_count [OF assms]
    hami.capacity_homogeneous [OF assms] hami.reference_device_iff [OF assms] by blast

theorem provider_Capacity_coherent_witness:
  "\<exists>c. provider_Capacity sample_dra [''p-0'', ''p-1''] = Inr c \<and> cy_Devices c = sum_list (map mo_Devices (cy_ByModel c))"
proof -
  have "\<exists>c. provider_Capacity sample_dra [''p-0'', ''p-1''] = Inr c"
    by (simp add: provider_Capacity_def draCapacity_def dra_eval split: prod.split)
  then show ?thesis using provider_Capacity_coherent by blast
qed

text \<open>
  A pool that does not know its cells' shape never grows on demand: with no reference device
  nothing pending is called satisfiable, in either mode, and the scaler then does not scale up.
\<close>

theorem unknown_shape_no_growth:
  assumes "provider_PendingDemand p None = Inr (si_Demand inp)"
  shows "dm_SatisfiableByOneCell (si_Demand inp) = 0 \<and> \<not> sd_ScaledUp (DecideScale inp)"
  using hami.demand_no_shape [OF assms] hami.unknown_shape_never_grows [OF assms] by blast

theorem unknown_shape_no_growth_witness:
  "\<not> sd_ScaledUp (DecideScale ((sample_scale 1 0 [])\<lparr>si_Demand := zero_Demand\<rparr>))"
  using unknown_shape_no_growth [of sample_dra "(sample_scale 1 0 [])\<lparr>si_Demand := zero_Demand\<rparr>"]
  by (simp add: provider_PendingDemand_def draPendingDemand_def dra_demand_step_def dra_eval)

end
