(* ===== verification/Inventory.thy ===== *)
theory Inventory
  imports CellRow Resources
begin

text \<open>
  The physical GPU inventory of the infrastructure cluster, \<^verbatim>\<open>internal/inventory/inventory.go\<close>, and
  \<^verbatim>\<open>physicalInventory\<close> of \<^verbatim>\<open>controller.go\<close>, which picks the ledger. The reads are arguments. What the
  code takes out of an unstructured \<^verbatim>\<open>SwiftGPUNode\<close> is a record: \<open>None\<close> is a field that is missing or
  of the wrong type, which the code treats alike.
\<close>

abbreviation KubeSwiftDriver :: string where "KubeSwiftDriver \<equiv> ''gpu.kubeswift.io''"

record Counts =
  ic_Published :: goint
  ic_Ready :: goint
  ic_Allocated :: goint
  ic_Free :: goint
  ic_Known :: bool

definition zero_Counts :: Counts where
  "zero_Counts = \<lparr>ic_Published = 0, ic_Ready = 0, ic_Allocated = 0, ic_Free = 0, ic_Known = False\<rparr>"

section \<open>The DRA ledger\<close>

definition inv_device_step :: "string \<Rightarrow> SliceDevice \<Rightarrow> string list \<times> Counts \<Rightarrow> string list \<times> Counts" where
  "inv_device_step pool d st =
     (let (ready, counts) = st;
          counts = counts\<lparr>ic_Published := ic_Published counts + 1\<rparr>;
          key = pool @ ''/'' @ sl_Name d;
          vfio = (case sl_VFIOReady d of None \<Rightarrow> True | Some b \<Rightarrow> b)
      in if vfio then (List.insert key ready, counts\<lparr>ic_Ready := ic_Ready counts + 1\<rparr>) else (ready, counts))"

definition inv_slice_step :: "string \<Rightarrow> ResourceSlice \<Rightarrow> string list \<times> Counts \<Rightarrow> string list \<times> Counts" where
  "inv_slice_step driver s st =
     (if rs_Driver s \<noteq> driver then st else fold (inv_device_step (rs_Pool s)) (rs_Devices s) st)"

definition inv_result_step ::
  "string \<Rightarrow> string list \<Rightarrow> AllocationResult \<Rightarrow> string list \<times> Counts \<Rightarrow> string list \<times> Counts" where
  "inv_result_step driver ready res st =
     (let (held, counts) = st; key = ar_Pool res @ ''/'' @ ar_Device res in
      if ar_Driver res \<noteq> driver then st
      else if key \<in> set ready \<and> key \<notin> set held
        then (List.insert key held, counts\<lparr>ic_Allocated := ic_Allocated counts + 1\<rparr>)
      else st)"

definition inv_claim_step ::
  "string \<Rightarrow> string list \<Rightarrow> ResourceClaim \<Rightarrow> string list \<times> Counts \<Rightarrow> string list \<times> Counts" where
  "inv_claim_step driver ready c st =
     (case rc_Allocation c of None \<Rightarrow> st | Some results \<Rightarrow> fold (inv_result_step driver ready) results st)"

definition floor_free :: "Counts \<Rightarrow> Counts" where
  "floor_free counts =
     (let counts = counts\<lparr>ic_Free := ic_Ready counts - ic_Allocated counts\<rparr>
      in if ic_Free counts < 0 then counts\<lparr>ic_Free := 0\<rparr> else counts)"

definition FreeGPUs ::
  "ResourceSlice list result \<Rightarrow> ResourceClaim list result \<Rightarrow> string \<Rightarrow> Counts result" where
  "FreeGPUs listSlices listClaims driver0 =
     (let driver = (if driver0 = [] then KubeSwiftDriver else driver0) in
      case listSlices of
        Inl e \<Rightarrow> Inl (Wrapped ''listing ResourceSlices'' e)
      | Inr slices \<Rightarrow>
          let (ready, counts) = fold (inv_slice_step driver) slices ([], zero_Counts) in
          (case listClaims of
             Inl e \<Rightarrow> Inl (Wrapped ''listing ResourceClaims'' e)
           | Inr claims \<Rightarrow>
               let (held, counts) = fold (inv_claim_step driver ready) claims ([], counts);
                   counts = floor_free counts
               in Inr (counts\<lparr>ic_Known := 0 < ic_Published counts\<rparr>)))"

section \<open>The native ledger\<close>

record GPUEntry =
  ge_model :: "string option"
  ge_allocated :: "bool option"

record SwiftGPUNode =
  gx_vfioReady :: "bool option"
  gx_gpus :: "GPUEntry option list option"

definition native_gpu_step :: "string \<Rightarrow> bool \<Rightarrow> GPUEntry option \<Rightarrow> goint \<times> Counts \<Rightarrow> goint \<times> Counts" where
  "native_gpu_step model vfio raw st =
     (case raw of
        None \<Rightarrow> st
      | Some gpu \<Rightarrow>
          let (ledger, counts) = st; ledger = ledger + 1 in
          if model \<noteq> [] \<and> (case ge_model gpu of None \<Rightarrow> True | Some m \<Rightarrow> \<not> strings_Contains m model)
            then (ledger, counts)
          else
            let counts = counts\<lparr>ic_Published := ic_Published counts + 1\<rparr> in
            if \<not> vfio then (ledger, counts)
            else
              let counts = counts\<lparr>ic_Ready := ic_Ready counts + 1\<rparr> in
              if ge_allocated gpu = Some True
              then (ledger, counts\<lparr>ic_Allocated := ic_Allocated counts + 1\<rparr>) else (ledger, counts))"

definition native_node_step :: "string \<Rightarrow> SwiftGPUNode \<Rightarrow> goint \<times> Counts \<Rightarrow> goint \<times> Counts" where
  "native_node_step model node st =
     (let vfio = (case gx_vfioReady node of None \<Rightarrow> True | Some v \<Rightarrow> v) in
      case gx_gpus node of None \<Rightarrow> st | Some gpus \<Rightarrow> fold (native_gpu_step model vfio) gpus st)"

definition FreeGPUsNative :: "SwiftGPUNode list result \<Rightarrow> string \<Rightarrow> Counts result" where
  "FreeGPUsNative listNodes model =
     (case listNodes of
        Inl e \<Rightarrow> if IsNoMatchError e \<or> IsNotFound e then Inr zero_Counts
                 else Inl (Wrapped ''listing SwiftGPUNodes'' e)
      | Inr nodes \<Rightarrow>
          let (ledger, counts) = fold (native_node_step model) nodes (0, zero_Counts);
              counts = floor_free counts
          in Inr (counts\<lparr>ic_Known := 0 < ledger\<rparr>))"

definition NativeProfileModel ::
  "(string \<Rightarrow> string \<Rightarrow> string option result) \<Rightarrow> string \<Rightarrow> string \<Rightarrow> string result" where
  \<comment> \<open>\<open>getProfile\<close> yields the profile's \<^verbatim>\<open>spec.model\<close> where it is a string\<close>
  "NativeProfileModel getProfile ns name =
     (if name = [] then Inr []
      else case getProfile ns name of
        Inl e \<Rightarrow> if IsNoMatchError e \<or> IsNotFound e then Inr []
                 else Inl (Wrapped (''getting SwiftGPUProfile '' @ ns @ ''/'' @ name) e)
      | Inr None \<Rightarrow> Inr []
      | Inr (Some model) \<Rightarrow> Inr model)"

section \<open>Constrained requests\<close>

fun request_constrained :: "DeviceRequest list \<Rightarrow> bool" where
  "request_constrained [] = False"
| "request_constrained (r # rs) =
     (if (case dq_Exactly r of None \<Rightarrow> False | Some e \<Rightarrow> 0 < length (er_Selectors e)) then True
      else if list_ex (\<lambda>selectors. 0 < length selectors) (dq_FirstAvailable r) then True
      else request_constrained rs)"

definition DRARequestIsConstrained ::
  "(string \<Rightarrow> string \<Rightarrow> DeviceRequest list result) \<Rightarrow> (string \<Rightarrow> string \<Rightarrow> DeviceRequest list result) \<Rightarrow>
   string \<Rightarrow> string \<Rightarrow> string \<Rightarrow> bool result" where
  "DRARequestIsConstrained getTemplate getClaim ns templateName claimName =
     (if templateName \<noteq> [] then
        (case getTemplate ns templateName of
           Inl e \<Rightarrow> if IsNoMatchError e \<or> IsNotFound e then Inr False
                    else Inl (Wrapped (''getting ResourceClaimTemplate '' @ ns @ ''/'' @ templateName) e)
         | Inr requests \<Rightarrow> Inr (request_constrained requests))
      else if claimName \<noteq> [] then
        (case getClaim ns claimName of
           Inl e \<Rightarrow> if IsNoMatchError e \<or> IsNotFound e then Inr False
                    else Inl (Wrapped (''getting ResourceClaim '' @ ns @ ''/'' @ claimName) e)
         | Inr requests \<Rightarrow> Inr (request_constrained requests))
      else Inr False)"

section \<open>Choosing the ledger\<close>

text \<open>What \<^verbatim>\<open>physicalInventory\<close> reads of the infrastructure cluster.\<close>

record OuterReads =
  or_slices :: "ResourceSlice list result"
  or_claims :: "ResourceClaim list result"
  or_gpuNodes :: "SwiftGPUNode list result"
  or_profile :: "string \<Rightarrow> string \<Rightarrow> string option result"
  or_claimTemplate :: "string \<Rightarrow> string \<Rightarrow> DeviceRequest list result"
  or_claim :: "string \<Rightarrow> string \<Rightarrow> DeviceRequest list result"

definition physicalInventory :: "OuterReads \<Rightarrow> GPUCellPool \<Rightarrow> Counts result" where
  "physicalInventory rd pool =
     (let gpu = ce_GPU (sp_Cell (po_Spec pool)) in
      if gpuBackend pool = GPUBackendNative then
        (let profileName = (case gs_Native gpu of None \<Rightarrow> [] | Some n \<Rightarrow> gn_GPUProfileRef n) in
         case NativeProfileModel (or_profile rd) (po_Namespace pool) profileName of
           Inl e \<Rightarrow> Inl e
         | Inr model \<Rightarrow> FreeGPUsNative (or_gpuNodes rd) model)
      else
        case gs_DRA gpu of
          None \<Rightarrow> FreeGPUs (or_slices rd) (or_claims rd) []
        | Some dra \<Rightarrow>
            (case DRARequestIsConstrained (or_claimTemplate rd) (or_claim rd) (po_Namespace pool)
                    (gd_ResourceClaimTemplateName dra) (gd_ResourceClaimName dra) of
               Inl e \<Rightarrow> Inl e
             | Inr constrained \<Rightarrow>
                 if constrained then Inr zero_Counts else FreeGPUs (or_slices rd) (or_claims rd) []))"

definition free_of :: "Counts result \<Rightarrow> goint option" where
  \<comment> \<open>the reconciler's reading: an error and an unknown count are both \<^verbatim>\<open>nil\<close>\<close>
  "free_of r = (case r of Inl e \<Rightarrow> None | Inr c \<Rightarrow> if ic_Known c then Some (ic_Free c) else None)"

section \<open>What the ledgers say\<close>

lemma zero_Counts_simps [simp]:
  "ic_Published zero_Counts = 0" "ic_Ready zero_Counts = 0" "ic_Allocated zero_Counts = 0"
  "ic_Free zero_Counts = 0" "\<not> ic_Known zero_Counts"
  by (simp_all add: zero_Counts_def)

text \<open>The devices of a driver, the keys of those a VM can use, and the keys allocated claims hold.\<close>

definition driver_devices :: "string \<Rightarrow> ResourceSlice list \<Rightarrow> (string \<times> SliceDevice) list" where
  "driver_devices driver slices =
     concat (map (\<lambda>s. if rs_Driver s = driver then map (\<lambda>d. (rs_Pool s, d)) (rs_Devices s) else []) slices)"

definition usable :: "string \<times> SliceDevice \<Rightarrow> bool" where
  "usable pd \<longleftrightarrow> sl_VFIOReady (snd pd) \<noteq> Some False"

definition device_key :: "string \<times> SliceDevice \<Rightarrow> string" where
  "device_key pd = fst pd @ ''/'' @ sl_Name (snd pd)"

definition usable_keys :: "string \<Rightarrow> ResourceSlice list \<Rightarrow> string list" where
  "usable_keys driver slices = map device_key (filter usable (driver_devices driver slices))"

definition res_key :: "AllocationResult \<Rightarrow> string" where
  "res_key res = ar_Pool res @ ''/'' @ ar_Device res"

definition claim_keys :: "string \<Rightarrow> ResourceClaim \<Rightarrow> string set" where
  "claim_keys driver c = (case rc_Allocation c of None \<Rightarrow> {}
     | Some results \<Rightarrow> res_key ` {res \<in> set results. ar_Driver res = driver})"

definition held_keys :: "string \<Rightarrow> ResourceClaim list \<Rightarrow> string set" where
  "held_keys driver claims = (\<Union>c \<in> set claims. claim_keys driver c)"

lemma inv_device_steps:
  "set (fst (fold (inv_device_step pool) ds st)) =
     set (fst st) \<union> device_key ` set (filter usable (map (\<lambda>d. (pool, d)) ds)) \<and>
   ic_Published (snd (fold (inv_device_step pool) ds st)) = ic_Published (snd st) + int (length ds) \<and>
   ic_Ready (snd (fold (inv_device_step pool) ds st)) =
     ic_Ready (snd st) + int (length (filter usable (map (\<lambda>d. (pool, d)) ds))) \<and>
   ic_Allocated (snd (fold (inv_device_step pool) ds st)) = ic_Allocated (snd st)"
proof (induction ds arbitrary: st)
  case (Cons d ds)
  have step: "set (fst (inv_device_step pool d st)) = set (fst st) \<union> (if usable (pool, d) then {device_key (pool, d)} else {})"
    "ic_Published (snd (inv_device_step pool d st)) = ic_Published (snd st) + 1"
    "ic_Ready (snd (inv_device_step pool d st)) = ic_Ready (snd st) + (if usable (pool, d) then 1 else 0)"
    "ic_Allocated (snd (inv_device_step pool d st)) = ic_Allocated (snd st)"
    by (auto simp: inv_device_step_def usable_def device_key_def Let_def split: option.splits prod.splits)
  from Cons.IH [of "inv_device_step pool d st"] step show ?case by auto
qed simp

lemma inv_slice_steps:
  "set (fst (fold (inv_slice_step driver) slices st)) = set (fst st) \<union> set (usable_keys driver slices) \<and>
   ic_Published (snd (fold (inv_slice_step driver) slices st)) =
     ic_Published (snd st) + int (length (driver_devices driver slices)) \<and>
   ic_Ready (snd (fold (inv_slice_step driver) slices st)) =
     ic_Ready (snd st) + int (length (usable_keys driver slices)) \<and>
   ic_Allocated (snd (fold (inv_slice_step driver) slices st)) = ic_Allocated (snd st)"
proof (induction slices arbitrary: st)
  case (Cons s slices)
  have step: "set (fst (inv_slice_step driver s st)) = set (fst st) \<union> set (usable_keys driver [s])"
    "ic_Published (snd (inv_slice_step driver s st)) = ic_Published (snd st) + int (length (driver_devices driver [s]))"
    "ic_Ready (snd (inv_slice_step driver s st)) = ic_Ready (snd st) + int (length (usable_keys driver [s]))"
    "ic_Allocated (snd (inv_slice_step driver s st)) = ic_Allocated (snd st)"
    using inv_device_steps [of "rs_Pool s" "rs_Devices s" st]
    by (simp_all add: inv_slice_step_def usable_keys_def driver_devices_def)
  have split: "driver_devices driver (s # slices) = driver_devices driver [s] @ driver_devices driver slices"
    "usable_keys driver (s # slices) = usable_keys driver [s] @ usable_keys driver slices"
    by (simp_all add: driver_devices_def usable_keys_def)
  from Cons.IH [of "inv_slice_step driver s st"] step show ?case by (auto simp: split)
qed (simp add: driver_devices_def usable_keys_def)

text \<open>The claim loop counts the ready keys it has met, each once.\<close>

definition held_inv :: "string list \<Rightarrow> string set \<Rightarrow> string list \<times> Counts \<Rightarrow> bool" where
  "held_inv ready keys st \<longleftrightarrow> distinct (fst st) \<and> set (fst st) = set ready \<inter> keys \<and>
     ic_Allocated (snd st) = int (length (fst st))"

lemma held_inv_result:
  assumes "held_inv ready keys st"
  shows "held_inv ready (keys \<union> (if ar_Driver res = driver then {res_key res} else {}))
           (inv_result_step driver ready res st)"
    and "ic_Ready (snd (inv_result_step driver ready res st)) = ic_Ready (snd st)"
    and "ic_Published (snd (inv_result_step driver ready res st)) = ic_Published (snd st)"
proof -
  obtain held counts where st: "st = (held, counts)" by fastforce
  have inv: "distinct held" "set held = set ready \<inter> keys" "ic_Allocated counts = int (length held)"
    using assms by (simp_all add: held_inv_def st)
  have "inv_result_step driver ready res st =
      (if ar_Driver res = driver \<and> res_key res \<in> set ready - set held
       then (res_key res # held, counts\<lparr>ic_Allocated := ic_Allocated counts + 1\<rparr>) else st)"
    by (simp add: inv_result_step_def st res_key_def Let_def)
  then show "held_inv ready (keys \<union> (if ar_Driver res = driver then {res_key res} else {}))
      (inv_result_step driver ready res st)"
    "ic_Ready (snd (inv_result_step driver ready res st)) = ic_Ready (snd st)"
    "ic_Published (snd (inv_result_step driver ready res st)) = ic_Published (snd st)"
    using inv by (auto simp: held_inv_def st)
qed

lemma held_inv_results:
  assumes "held_inv ready keys st"
  shows "held_inv ready (keys \<union> res_key ` {res \<in> set results. ar_Driver res = driver})
           (fold (inv_result_step driver ready) results st) \<and>
    ic_Ready (snd (fold (inv_result_step driver ready) results st)) = ic_Ready (snd st) \<and>
    ic_Published (snd (fold (inv_result_step driver ready) results st)) = ic_Published (snd st)"
  using assms
proof (induction results arbitrary: keys st)
  case (Cons r rs)
  note step = held_inv_result [OF Cons.prems, where res = r and driver = driver]
  have "keys \<union> (if ar_Driver r = driver then {res_key r} else {}) \<union> res_key ` {res \<in> set rs. ar_Driver res = driver} =
      keys \<union> res_key ` {res \<in> set (r # rs). ar_Driver res = driver}"
    by auto
  with Cons.IH [OF step(1)] step(2,3) show ?case by simp
qed simp

lemma held_inv_claims:
  assumes "held_inv ready keys st"
  shows "held_inv ready (keys \<union> held_keys driver claims) (fold (inv_claim_step driver ready) claims st) \<and>
    ic_Ready (snd (fold (inv_claim_step driver ready) claims st)) = ic_Ready (snd st) \<and>
    ic_Published (snd (fold (inv_claim_step driver ready) claims st)) = ic_Published (snd st)"
  using assms
proof (induction claims arbitrary: keys st)
  case (Cons c cs)
  have keys: "keys \<union> held_keys driver (c # cs) = keys \<union> held_keys driver [c] \<union> held_keys driver cs"
    by (simp add: held_keys_def Un_assoc)
  have "held_inv ready (keys \<union> held_keys driver [c]) (inv_claim_step driver ready c st) \<and>
      ic_Ready (snd (inv_claim_step driver ready c st)) = ic_Ready (snd st) \<and>
      ic_Published (snd (inv_claim_step driver ready c st)) = ic_Published (snd st)"
    using Cons.prems held_inv_results [OF Cons.prems, where driver = driver]
    by (cases "rc_Allocation c") (simp_all add: inv_claim_step_def held_keys_def claim_keys_def)
  with Cons.IH [of "keys \<union> held_keys driver [c]" "inv_claim_step driver ready c st"] show ?case
    unfolding keys by simp
qed (simp add: held_keys_def)

subsection \<open>The native ledger, flat\<close>

definition ledger :: "SwiftGPUNode list \<Rightarrow> (bool \<times> GPUEntry) list" where
  "ledger nodes = concat (map (\<lambda>n. case gx_gpus n of None \<Rightarrow> []
     | Some gpus \<Rightarrow> map (\<lambda>g. (gx_vfioReady n \<noteq> Some False, g)) (map the (filter (\<lambda>x. x \<noteq> None) gpus))) nodes)"

definition matches_model :: "string \<Rightarrow> bool \<times> GPUEntry \<Rightarrow> bool" where
  \<comment> \<open>the predicate of KubeSwift's allocator\<close>
  "matches_model model vg \<longleftrightarrow> model = [] \<or> (\<exists>m. ge_model (snd vg) = Some m \<and> strings_Contains m model)"

definition allocated :: "bool \<times> GPUEntry \<Rightarrow> bool" where
  "allocated vg \<longleftrightarrow> ge_allocated (snd vg) = Some True"

definition native_tally :: "string \<Rightarrow> (bool \<times> GPUEntry) list \<Rightarrow> goint \<times> Counts \<Rightarrow> goint \<times> Counts \<Rightarrow> bool" where
  "native_tally model vgs st st' \<longleftrightarrow>
     fst st' = fst st + int (length vgs) \<and>
     ic_Published (snd st') = ic_Published (snd st) + int (length (filter (matches_model model) vgs)) \<and>
     ic_Ready (snd st') = ic_Ready (snd st) + int (length (filter (\<lambda>vg. matches_model model vg \<and> fst vg) vgs)) \<and>
     ic_Allocated (snd st') = ic_Allocated (snd st) +
       int (length (filter (\<lambda>vg. matches_model model vg \<and> fst vg \<and> allocated vg) vgs))"

lemma native_tally_Nil: "native_tally model [] st st"
  by (simp add: native_tally_def)

lemma native_tally_append:
  "native_tally model xs st st1 \<Longrightarrow> native_tally model ys st1 st2 \<Longrightarrow> native_tally model (xs @ ys) st st2"
  by (simp add: native_tally_def)

lemma native_gpu_step_tally:
  "native_tally model (case raw of None \<Rightarrow> [] | Some g \<Rightarrow> [(vfio, g)]) st (native_gpu_step model vfio raw st)"
proof (cases raw)
  case (Some g)
  have "matches_model model (vfio, g) \<longleftrightarrow>
      \<not> (model \<noteq> [] \<and> (case ge_model g of None \<Rightarrow> True | Some m \<Rightarrow> \<not> strings_Contains m model))"
    by (auto simp: matches_model_def split: option.split)
  then show ?thesis
    by (cases st) (simp add: Some native_tally_def native_gpu_step_def allocated_def Let_def)
qed (simp add: native_gpu_step_def native_tally_Nil)

lemma native_gpus_tally:
  "native_tally model (map (\<lambda>g. (vfio, g)) (map the (filter (\<lambda>x. x \<noteq> None) gpus))) st
     (fold (native_gpu_step model vfio) gpus st)"
proof (induction gpus arbitrary: st)
  case (Cons raw gpus)
  show ?case
    using native_tally_append [OF native_gpu_step_tally [where model = model and raw = raw and vfio = vfio and st = st] Cons.IH]
    by (cases raw) simp_all
qed (simp add: native_tally_Nil)

lemma native_nodes_tally: "native_tally model (ledger nodes) st (fold (native_node_step model) nodes st)"
proof (induction nodes arbitrary: st)
  case (Cons n nodes)
  have "native_tally model (ledger [n]) st (native_node_step model n st)"
    using native_gpus_tally [of model "gx_vfioReady n \<noteq> Some False"]
    by (cases "gx_gpus n"; cases "gx_vfioReady n")
      (auto simp: ledger_def native_node_step_def native_tally_Nil)
  moreover have "ledger (n # nodes) = ledger [n] @ ledger nodes"
    by (simp add: ledger_def)
  ultimately show ?case
    using native_tally_append [OF _ Cons.IH] by simp
qed (simp add: ledger_def native_tally_Nil)

lemma count_split:
  "length (filter P xs) = length (filter (\<lambda>x. P x \<and> Q x) xs) + length (filter (\<lambda>x. P x \<and> \<not> Q x) xs)"
  by (induction xs) auto

lemma FreeGPUsNative_known:
  assumes "FreeGPUsNative listNodes model = Inr c" and "ic_Known c"
  shows "0 \<le> ic_Free c \<and> (\<exists>nodes. listNodes = Inr nodes \<and> ledger nodes \<noteq> [])"
proof (cases listNodes)
  case (Inl e)
  with assms show ?thesis by (auto simp: FreeGPUsNative_def split: if_splits)
next
  case (Inr nodes)
  obtain l cs where f: "fold (native_node_step model) nodes (0, zero_Counts) = (l, cs)" by fastforce
  have "native_tally model (ledger nodes) (0, zero_Counts) (l, cs)"
    using native_nodes_tally [of model nodes "(0, zero_Counts)"] by (simp add: f)
  with assms Inr show ?thesis
    by (auto simp: FreeGPUsNative_def f floor_free_def native_tally_def Let_def)
qed

lemma FreeGPUs_known:
  assumes "FreeGPUs listSlices listClaims [] = Inr c" and "ic_Known c"
  shows "0 \<le> ic_Free c \<and> (\<exists>slices claims. listSlices = Inr slices \<and> listClaims = Inr claims \<and>
    driver_devices KubeSwiftDriver slices \<noteq> [])"
proof -
  obtain slices claims where in_ok: "listSlices = Inr slices" "listClaims = Inr claims"
    using assms(1) by (auto simp: FreeGPUs_def Let_def split: sum.splits prod.splits)
  obtain ready cs where r: "fold (inv_slice_step KubeSwiftDriver) slices ([], zero_Counts) = (ready, cs)" by fastforce
  obtain held cs' where h: "fold (inv_claim_step KubeSwiftDriver ready) claims ([], cs) = (held, cs')" by fastforce
  have cs: "ic_Published cs = int (length (driver_devices KubeSwiftDriver slices))" "ic_Allocated cs = 0"
    using inv_slice_steps [of KubeSwiftDriver slices "([], zero_Counts)"] by (simp_all add: r)
  have "ic_Published cs' = ic_Published cs"
    using held_inv_claims [of ready "{}" "([], cs)" KubeSwiftDriver claims] cs by (simp add: h held_inv_def)
  with assms cs show ?thesis
    by (auto simp: FreeGPUs_def in_ok r h floor_free_def Let_def split: if_splits)
qed

section \<open>Properties\<close>

text \<open>
  C29. The DRA count is exact, for the driver asked for or, as the reconciler asks for none, for
  \<^verbatim>\<open>gpu.kubeswift.io\<close>: what is published are the driver's devices, what is ready those
  whose node can pass a device to a VM, what is allocated the distinct ready devices that some
  allocated claim names, and what is free their difference, never negative. When no device is
  listed twice, that is the number of ready devices no allocated claim names. A driver that
  publishes nothing is unknown.
\<close>

theorem FreeGPUs_exact:
  assumes "FreeGPUs (Inr slices) (Inr claims) wanted = Inr c"
    and "driver = (if wanted = [] then ''gpu.kubeswift.io'' else wanted)"
  shows "ic_Published c = int (length (driver_devices driver slices)) \<and>
    ic_Ready c = int (length (usable_keys driver slices)) \<and>
    ic_Allocated c = int (card (set (usable_keys driver slices) \<inter> held_keys driver claims)) \<and>
    ic_Free c = ic_Ready c - ic_Allocated c \<and> 0 \<le> ic_Free c \<and>
    (distinct (usable_keys driver slices) \<longrightarrow>
       ic_Free c = int (card (set (usable_keys driver slices) - held_keys driver claims))) \<and>
    (ic_Known c \<longleftrightarrow> driver_devices driver slices \<noteq> [])"
proof -
  let ?U = "usable_keys driver slices" and ?H = "held_keys driver claims"
  obtain ready cs where r: "fold (inv_slice_step driver) slices ([], zero_Counts) = (ready, cs)" by fastforce
  then have ready: "set ready = set ?U" "ic_Published cs = int (length (driver_devices driver slices))"
    "ic_Ready cs = int (length ?U)" "ic_Allocated cs = 0"
    using inv_slice_steps [of driver slices "([], zero_Counts)"] by simp_all
  obtain held cs' where h: "fold (inv_claim_step driver ready) claims ([], cs) = (held, cs')" by fastforce
  have "held_inv ready {} ([], cs)" using ready by (simp add: held_inv_def)
  from held_inv_claims [OF this, of driver claims] have held: "distinct held" "set held = set ?U \<inter> ?H"
    "ic_Allocated cs' = int (length held)" "ic_Ready cs' = ic_Ready cs" "ic_Published cs' = ic_Published cs"
    by (auto simp: h held_inv_def ready)
  have alloc: "ic_Allocated cs' = int (card (set ?U \<inter> ?H))"
    using held(1-3) distinct_card [of held] by simp
  have "card (set ?U \<inter> ?H) \<le> card (set ?U)" by (rule card_mono) auto
  also have "\<dots> \<le> length ?U" by (rule card_length)
  finally have le: "card (set ?U \<inter> ?H) \<le> length ?U" .
  have diff: "distinct ?U \<Longrightarrow> card (set ?U - ?H) + card (set ?U \<inter> ?H) = length ?U"
    using card_Int_Diff [of "set ?U" ?H] distinct_card [of ?U] by simp
  have c: "c = (floor_free cs')\<lparr>ic_Known := 0 < ic_Published (floor_free cs')\<rparr>"
    using assms(1) by (simp add: FreeGPUs_def assms(2) [symmetric] r h Let_def)
  show ?thesis
    using alloc le diff held(4,5) ready(2,3) by (auto simp: c floor_free_def Let_def)
qed

definition sample_slices :: "ResourceSlice list" where
  "sample_slices = [\<lparr>rs_Driver = KubeSwiftDriver, rs_Pool = ''n1'',
     rs_Devices = [\<lparr>sl_Name = ''gpu-a'', sl_Capacity = [], sl_ProductName = None, sl_VFIOReady = None\<rparr>,
                   \<lparr>sl_Name = ''gpu-b'', sl_Capacity = [], sl_ProductName = None, sl_VFIOReady = Some False\<rparr>]\<rparr>]"

theorem FreeGPUs_exact_witness:
  "\<exists>c. FreeGPUs (Inr sample_slices) (Inr []) [] = Inr c \<and> ic_Known c \<and> ic_Ready c = 1 \<and> ic_Free c = 1"
proof -
  have "\<exists>c. FreeGPUs (Inr sample_slices) (Inr []) [] = Inr c"
    by (simp add: FreeGPUs_def Let_def split: prod.split)
  then obtain c where c: "FreeGPUs (Inr sample_slices) (Inr []) [] = Inr c" by blast
  with FreeGPUs_exact [OF c refl] show ?thesis
    by (simp add: usable_keys_def driver_devices_def sample_slices_def usable_def held_keys_def)
qed

text \<open>
  The native count is exact and uses the allocator's own predicate: among the devices of the
  ledger that match the pool's model (all of them for a pool without one), free are those on nodes
  ready for VFIO and not allocated; and whether the ledger is known depends on all its devices,
  matching or not, so a cluster with only foreign GPUs is known to have none.
\<close>

theorem FreeGPUsNative_exact:
  assumes "FreeGPUsNative (Inr nodes) model = Inr c"
  shows "ic_Free c = int (length (filter (\<lambda>vg. matches_model model vg \<and> fst vg \<and> \<not> allocated vg) (ledger nodes))) \<and>
    ic_Published c = int (length (filter (matches_model model) (ledger nodes))) \<and>
    (ic_Known c \<longleftrightarrow> ledger nodes \<noteq> [])"
proof -
  obtain l cs where f: "fold (native_node_step model) nodes (0, zero_Counts) = (l, cs)" by fastforce
  have tally: "native_tally model (ledger nodes) (0, zero_Counts) (l, cs)"
    using native_nodes_tally [of model nodes "(0, zero_Counts)"] by (simp add: f)
  have split: "length (filter (\<lambda>vg. matches_model model vg \<and> fst vg) (ledger nodes)) =
      length (filter (\<lambda>vg. matches_model model vg \<and> fst vg \<and> allocated vg) (ledger nodes)) +
      length (filter (\<lambda>vg. matches_model model vg \<and> fst vg \<and> \<not> allocated vg) (ledger nodes))"
    using count_split [of "\<lambda>vg. matches_model model vg \<and> fst vg" "ledger nodes" allocated] by (simp add: conj_assoc)
  show ?thesis
    using assms tally split
    by (auto simp: FreeGPUsNative_def f floor_free_def native_tally_def Let_def)
qed

theorem FreeGPUsNative_exact_witness:
  "\<exists>c. FreeGPUsNative (Inr [\<lparr>gx_vfioReady = None,
       gx_gpus = Some [Some \<lparr>ge_model = Some ''L4'', ge_allocated = None\<rparr>, None]\<rparr>]) ''H100'' = Inr c \<and>
     ic_Known c \<and> ic_Free c = 0"
proof -
  let ?nodes = "[\<lparr>gx_vfioReady = None, gx_gpus = Some [Some \<lparr>ge_model = Some ''L4'', ge_allocated = None\<rparr>, None]\<rparr>]"
  have "\<exists>c. FreeGPUsNative (Inr ?nodes) ''H100'' = Inr c"
    by (simp add: FreeGPUsNative_def Let_def split: prod.split)
  then obtain c where c: "FreeGPUsNative (Inr ?nodes) ''H100'' = Inr c" by blast
  have "\<not> strings_Contains ''L4'' ''H100''" by (simp add: strings_Contains_def sublist_code)
  then show ?thesis
    using c FreeGPUsNative_exact [OF c] by (simp add: ledger_def matches_model_def)
qed

text \<open>
  A failed or empty reading never stalls a pool as "no free GPU": the count the planner gets is
  known only when the ledger that belongs to the pool's backend was read and publishes a device;
  and it is then never negative.
\<close>

theorem physicalInventory_known:
  assumes "free_of (physicalInventory rd pool) = Some n"
  shows "0 \<le> n \<and>
    (if gpuBackend pool = GPUBackendNative
     then \<exists>nodes. or_gpuNodes rd = Inr nodes \<and> ledger nodes \<noteq> []
     else \<exists>slices claims. or_slices rd = Inr slices \<and> or_claims rd = Inr claims \<and>
        driver_devices KubeSwiftDriver slices \<noteq> [])"
proof -
  have native: "0 \<le> ic_Free c \<and> (\<exists>nodes. or_gpuNodes rd = Inr nodes \<and> ledger nodes \<noteq> [])"
    if "FreeGPUsNative (or_gpuNodes rd) model = Inr c" "ic_Known c" for model c
    using that FreeGPUsNative_known by blast
  have dra: "0 \<le> ic_Free c \<and> (\<exists>slices claims. or_slices rd = Inr slices \<and> or_claims rd = Inr claims \<and>
        driver_devices KubeSwiftDriver slices \<noteq> [])"
    if "FreeGPUs (or_slices rd) (or_claims rd) [] = Inr c" "ic_Known c" for c
    using that FreeGPUs_known by blast
  show ?thesis
    using assms native dra
    by (auto simp: free_of_def physicalInventory_def Let_def
        split: sum.splits if_splits option.splits)
qed

theorem physicalInventory_known_witness:
  "free_of (physicalInventory \<lparr>or_slices = Inr sample_slices, or_claims = Inr [], or_gpuNodes = Inr [],
       or_profile = (\<lambda>_ _. Inr None), or_claimTemplate = (\<lambda>_ _. Inr []), or_claim = (\<lambda>_ _. Inr [])\<rparr> sample_pool) = Some 1 \<and>
   driver_devices KubeSwiftDriver sample_slices \<noteq> []"
proof -
  let ?rd = "\<lparr>or_slices = Inr sample_slices, or_claims = Inr [], or_gpuNodes = Inr [],
       or_profile = (\<lambda>_ _. Inr None), or_claimTemplate = (\<lambda>_ _. Inr []), or_claim = (\<lambda>_ _. Inr [])\<rparr>"
  have "free_of (physicalInventory ?rd sample_pool) = Some 1"
    by (simp add: free_of_def physicalInventory_def gpuBackend_def sample_pool_def FreeGPUs_def sample_slices_def
        inv_slice_step_def inv_device_step_def floor_free_def zero_Counts_def Let_def)
  with physicalInventory_known [OF this] show ?thesis
    by (simp add: gpuBackend_def sample_pool_def)
qed

end
