(* ===== verification/Bootstrap.thy ===== *)
theory Bootstrap
  imports Prelude
begin

text \<open>
  Cloud-init rendering, \<^verbatim>\<open>internal/bootstrap/render.go\<close>. The regular expression
  \<^verbatim>\<open>\{\{\s*([A-Za-z][A-Za-z0-9]*)\s*\}\}\<close> is deterministic (its character classes are disjoint), so
  \<open>match_token\<close> is its match at one position and \<open>segments\<close> the left-to-right, non-overlapping
  scan of \<^verbatim>\<open>ReplaceAllStringFunc\<close>, on the bytes of the template.
\<close>

abbreviation KeyCellName :: string where "KeyCellName \<equiv> ''cellName''"
abbreviation KeyPoolName :: string where "KeyPoolName \<equiv> ''poolName''"
abbreviation KeyNodeLabels :: string where "KeyNodeLabels \<equiv> ''nodeLabels''"
abbreviation KeyNodeIPInterface :: string where "KeyNodeIPInterface \<equiv> ''nodeIPInterface''"
abbreviation KeyExpectedGPUs :: string where "KeyExpectedGPUs \<equiv> ''expectedGPUs''"
abbreviation SecretKey :: string where "SecretKey \<equiv> ''user-data''"
abbreviation CAPISecretKey :: string where "CAPISecretKey \<equiv> ''value''"

record Values =
  va_CellName :: string
  va_PoolName :: string
  va_NodeLabels :: string
  va_NodeIPInterface :: string
  va_ExpectedGPUs :: goint

section \<open>The token expression\<close>

definition re_space :: "char \<Rightarrow> bool" where
  \<comment> \<open>\<^verbatim>\<open>\s\<close> of RE2\<close>
  "re_space c \<longleftrightarrow> c \<in> {CHR 0x09, CHR 0x0A, CHR 0x0C, CHR 0x0D, CHR '' ''}"

definition re_alpha :: "char \<Rightarrow> bool" where
  "re_alpha c \<longleftrightarrow> (let n = (of_char c :: nat) in 65 \<le> n \<and> n \<le> 90 \<or> 97 \<le> n \<and> n \<le> 122)"

definition re_alnum :: "char \<Rightarrow> bool" where
  "re_alnum c \<longleftrightarrow> re_alpha c \<or> is_digit c"

definition match_token :: "string \<Rightarrow> (string \<times> string) option" where
  \<comment> \<open>the captured name and what follows the match\<close>
  "match_token s =
     (if take 2 s \<noteq> ''{{'' then None
      else
        let body = dropWhile re_space (drop 2 s);
            name = takeWhile re_alnum body;
            rest = dropWhile re_space (dropWhile re_alnum body)
        in if name \<noteq> [] \<and> re_alpha (hd name) \<and> take 2 rest = ''}}'' then Some (name, drop 2 rest) else None)"

datatype segment = Lit char | Tok string string
  \<comment> \<open>a byte that is copied, or a match with the name it captures\<close>

lemma match_token_shorter: "match_token s = Some (name, rest) \<Longrightarrow> length rest < length s"
proof -
  assume m: "match_token s = Some (name, rest)"
  then have "rest = drop 2 (dropWhile re_space (dropWhile re_alnum (dropWhile re_space (drop 2 s))))" "s \<noteq> []"
    by (auto simp: match_token_def Let_def split: if_splits)
  then have "length rest \<le> length s - 2"
    using length_dropWhile_le [of re_space "dropWhile re_alnum (dropWhile re_space (drop 2 s))"]
      length_dropWhile_le [of re_alnum "dropWhile re_space (drop 2 s)"]
      length_dropWhile_le [of re_space "drop 2 s"] by simp
  moreover have "0 < length s" using \<open>s \<noteq> []\<close> by simp
  ultimately show ?thesis by linarith
qed

function segments :: "string \<Rightarrow> segment list" where
  "segments s =
     (case match_token s of
        Some (name, rest) \<Rightarrow> Tok name (take (length s - length rest) s) # segments rest
      | None \<Rightarrow> (case s of [] \<Rightarrow> [] | c # cs \<Rightarrow> Lit c # segments cs))"
  by pat_completeness auto
termination by (relation "measure length") (auto dest: match_token_shorter)

declare segments.simps [simp del]

section \<open>Rendering\<close>

definition substitutions :: "Values \<Rightarrow> (string \<times> string) list" where
  "substitutions v = [(KeyCellName, va_CellName v), (KeyPoolName, va_PoolName v),
     (KeyNodeLabels, va_NodeLabels v), (KeyNodeIPInterface, va_NodeIPInterface v),
     (KeyExpectedGPUs, FormatInt (va_ExpectedGPUs v))]"

definition SupportedKeys :: "string list" where
  "SupportedKeys = [KeyCellName, KeyExpectedGPUs, KeyNodeIPInterface, KeyNodeLabels, KeyPoolName]"

fun dedupe_loop :: "string list \<Rightarrow> string list \<Rightarrow> string list" where
  "dedupe_loop seen [] = []"
| "dedupe_loop seen (s # ss) =
     (if s \<in> set seen then dedupe_loop seen ss else s # dedupe_loop (s # seen) ss)"

definition dedupe :: "string list \<Rightarrow> string list" where
  "dedupe ss = dedupe_loop [] ss"

fun replace_segment :: "(string \<times> string) list \<Rightarrow> segment \<Rightarrow> string" where
  "replace_segment subs (Lit c) = [c]"
| "replace_segment subs (Tok name raw) = (case map_of subs name of None \<Rightarrow> raw | Some v \<Rightarrow> v)"

fun unknown_of :: "(string \<times> string) list \<Rightarrow> segment \<Rightarrow> string list" where
  "unknown_of subs (Lit c) = []"
| "unknown_of subs (Tok name raw) = (case map_of subs name of None \<Rightarrow> [name] | Some v \<Rightarrow> [])"

definition Render :: "string \<Rightarrow> Values \<Rightarrow> string result" where
  "Render template v =
     (if length template = 0 then Inl (Errorf ''bootstrap template is empty'')
      else
        let subs = substitutions v;
            segs = segments template;
            unknown = concat (map (unknown_of subs) segs);
            out = concat (map (replace_segment subs) segs)
        in if 0 < length unknown then
             Inl (Errorf (''unknown substitution(s) '' @ join '', '' (dedupe (sort unknown)) @
               '' in the bootstrap template; supported: '' @ join '', '' SupportedKeys))
           else Inr out)"

definition NodeLabelArg :: "smap \<Rightarrow> string" where
  "NodeLabelArg labels =
     join '','' (map (\<lambda>k. k @ ''='' @ smap_get labels k) (sort (map fst labels)))"

section \<open>Facts\<close>

lemma segments_token:
  "match_token (t @ s) = Some (name, s) \<Longrightarrow> segments (t @ s) = Tok name t # segments s"
  by (simp add: segments.simps [of "t @ s"])

subsection \<open>Rendering as a relation on texts\<close>

text \<open>
  The specification: what a token is, what each name stands for, and how a template is rendered from
  left to right. It mentions neither the expression's matcher nor the table of substitutions.
\<close>

definition is_token :: "string \<Rightarrow> string \<Rightarrow> bool" where
  "is_token name tok \<longleftrightarrow> (\<exists>ws ws' c cs. tok = ''{{'' @ ws @ name @ ws' @ ''}}'' \<and> list_all re_space ws \<and> list_all re_space ws' \<and>
     name = c # cs \<and> re_alpha c \<and> list_all re_alnum cs)"

fun value_of :: "Values \<Rightarrow> string \<Rightarrow> string option" where
  "value_of v name =
     (if name = ''cellName'' then Some (va_CellName v)
      else if name = ''expectedGPUs'' then Some (FormatInt (va_ExpectedGPUs v))
      else if name = ''nodeIPInterface'' then Some (va_NodeIPInterface v)
      else if name = ''nodeLabels'' then Some (va_NodeLabels v)
      else if name = ''poolName'' then Some (va_PoolName v)
      else None)"

inductive renders_to :: "Values \<Rightarrow> string \<Rightarrow> string \<Rightarrow> bool" for v where
  empty: "renders_to v [] []"
| token: "is_token name tok \<Longrightarrow> value_of v name = Some x \<Longrightarrow> renders_to v rest out \<Longrightarrow> renders_to v (tok @ rest) (x @ out)"
| byte: "(\<And>name tok rest. c # cs = tok @ rest \<Longrightarrow> \<not> is_token name tok) \<Longrightarrow> renders_to v cs out \<Longrightarrow> renders_to v (c # cs) (c # out)"

lemma re_classes: "re_alpha c \<Longrightarrow> \<not> re_space c" "re_alnum c \<Longrightarrow> \<not> re_space c" "re_alpha c \<Longrightarrow> re_alnum c"
  "\<not> re_space (CHR ''}'')" "\<not> re_alnum (CHR ''}'')"
  by (auto simp: re_space_def re_alpha_def re_alnum_def is_digit_def Let_def)

lemma takeWhile_run: "list_all P xs \<Longrightarrow> (ys = [] \<or> \<not> P (hd ys)) \<Longrightarrow> takeWhile P (xs @ ys) = xs \<and> dropWhile P (xs @ ys) = ys"
  by (induction xs) (auto simp: list_all_iff intro: takeWhile_eq_Nil_iff [THEN iffD2] dropWhile_eq_self_iff [THEN iffD2])

lemma match_token_iff: "match_token s = Some (name, rest) \<longleftrightarrow> (\<exists>tok. s = tok @ rest \<and> is_token name tok)"
proof
  assume m: "match_token s = Some (name, rest)"
  let ?body = "dropWhile re_space (drop 2 s)"
  let ?rest = "dropWhile re_space (dropWhile re_alnum ?body)"
  let ?ws = "takeWhile re_space (drop 2 s)" and ?ws' = "takeWhile re_space (dropWhile re_alnum ?body)"
  have parts: "take 2 s = ''{{''" "name = takeWhile re_alnum ?body" "name \<noteq> []" "re_alpha (hd name)" "take 2 ?rest = ''}}''" "rest = drop 2 ?rest"
    using m by (auto simp: match_token_def Let_def split: if_splits)
  have "s = take 2 s @ ?ws @ takeWhile re_alnum ?body @ ?ws' @ take 2 ?rest @ drop 2 ?rest"
    by (simp only: append_take_drop_id takeWhile_dropWhile_id)
  then have "s = (''{{'' @ ?ws @ name @ ?ws' @ ''}}'') @ rest"
    using parts by simp
  moreover have "list_all re_alnum name" unfolding parts(2) by (auto simp: list_all_iff dest: set_takeWhileD)
  then have "list_all re_alnum (tl name)" by (cases name) simp_all
  then have "is_token name (''{{'' @ ?ws @ name @ ?ws' @ ''}}'')"
    using parts(3,4) unfolding is_token_def
    by (intro exI [of _ ?ws] exI [of _ ?ws'] exI [of _ "hd name"] exI [of _ "tl name"]) (auto simp: list_all_iff dest: set_takeWhileD)
  ultimately show "\<exists>tok. s = tok @ rest \<and> is_token name tok" by blast
next
  assume "\<exists>tok. s = tok @ rest \<and> is_token name tok"
  then obtain ws ws' c cs where s: "s = ''{{'' @ ws @ name @ ws' @ ''}}'' @ rest" and ok: "list_all re_space ws" "list_all re_space ws'"
      "name = c # cs" "re_alpha c" "list_all re_alnum cs"
    by (auto simp: is_token_def)
  have name: "list_all re_alnum name" using ok(3-5) re_classes(3) by simp
  have "hd (ws' @ ''}}'' @ rest) \<in> set ws' \<union> {CHR ''}''}" by (cases ws') auto
  then have stop: "\<not> re_alnum (hd (ws' @ ''}}'' @ rest))"
    using ok(2) re_classes(2,5) by (auto simp: list_all_iff)
  have "dropWhile re_space (ws @ name @ ws' @ ''}}'' @ rest) = name @ ws' @ ''}}'' @ rest"
    using takeWhile_run [OF ok(1), of "name @ ws' @ ''}}'' @ rest"] ok(3,4) re_classes(1) by simp
  moreover have "takeWhile re_alnum (name @ ws' @ ''}}'' @ rest) = name" "dropWhile re_alnum (name @ ws' @ ''}}'' @ rest) = ws' @ ''}}'' @ rest"
    using takeWhile_run [OF name, of "ws' @ ''}}'' @ rest"] stop by simp_all
  moreover have "dropWhile re_space (ws' @ ''}}'' @ rest) = ''}}'' @ rest"
    using takeWhile_run [OF ok(2), of "''}}'' @ rest"] re_classes(4) by simp
  ultimately show "match_token s = Some (name, rest)"
    using ok(3,4) by (simp add: match_token_def s)
qed

lemma substitutions_value: "map_of (substitutions v) name = value_of v name"
  by (simp add: substitutions_def)

lemma rendered_segments:
  "template \<noteq> [] \<and> concat (map (unknown_of (substitutions v)) (segments template)) = [] \<and>
     out = concat (map (replace_segment (substitutions v)) (segments template)) \<longleftrightarrow>
   template \<noteq> [] \<and> renders_to v template out"
proof -
  have forth: "renders_to v s (concat (map (replace_segment (substitutions v)) (segments s)))"
    if "concat (map (unknown_of (substitutions v)) (segments s)) = []" for s
    using that
  proof (induction s rule: segments.induct)
    case (1 s)
    show ?case
    proof (cases "match_token s")
      case None
      have byte: "\<not> is_token name tok" if "s = tok @ rest" for name tok rest
        using None match_token_iff [of s name rest] that by auto
      show ?thesis
      proof (cases s)
        case Nil
        then show ?thesis using None by (simp add: segments.simps [of "[]"] renders_to.empty)
      next
        case (Cons c cs)
        have segs: "segments s = Lit c # segments cs" using None by (subst segments.simps) (simp add: Cons)
        have "renders_to v cs (concat (map (replace_segment (substitutions v)) (segments cs)))"
          using 1(1) [OF None Cons] 1(3) by (simp add: segs)
        then show ?thesis unfolding segs using byte by (auto simp: Cons intro!: renders_to.byte)
      qed
    next
      case (Some p)
      obtain name rest where p: "p = (name, rest)" by fastforce
      obtain tok where tok: "s = tok @ rest" "is_token name tok" using Some match_token_iff p by auto
      then have segs: "segments s = Tok name tok # segments rest" using segments_token Some p by simp
      obtain x where x: "value_of v name = Some x"
        using 1(3) by (auto simp: segs substitutions_value simp del: value_of.simps split: option.splits)
      have "renders_to v rest (concat (map (replace_segment (substitutions v)) (segments rest)))"
        using 1(2) [OF Some p [symmetric]] 1(3) by (simp add: segs)
      from renders_to.token [OF tok(2) x this] show ?thesis
        unfolding segs tok(1) [symmetric] by (simp add: substitutions_value x del: value_of.simps)
    qed
  qed
  have converse: "concat (map (unknown_of (substitutions v)) (segments s)) = [] \<and>
      out = concat (map (replace_segment (substitutions v)) (segments s))" if "renders_to v s out" for s out
    using that
  proof (induction rule: renders_to.induct)
    case empty
    show ?case by (simp add: segments.simps [of "[]"] match_token_def)
  next
    case (token name tok x rest out)
    have "segments (tok @ rest) = Tok name tok # segments rest"
      by (rule segments_token) (use token.hyps(1) match_token_iff in blast)
    with token show ?case by (simp add: substitutions_value del: value_of.simps)
  next
    case (byte c cs out)
    have "match_token (c # cs) = None"
      using byte.hyps(1) match_token_iff [of "c # cs"] by (metis not_None_eq surj_pair)
    then have "segments (c # cs) = Lit c # segments cs" by (simp add: segments.simps [of "c # cs"])
    with byte.IH show ?case by simp
  qed
  from forth converse show ?thesis by blast
qed

lemma dedupe_loop_set: "set (dedupe_loop seen ss) = set ss - set seen \<and> distinct (dedupe_loop seen ss)"
  by (induction seen ss rule: dedupe_loop.induct) auto

lemma NodeLabelArg_sorted:
  assumes "distinct (map fst labels)"
  shows "NodeLabelArg labels = join '','' (map (\<lambda>(k, v). k @ ''='' @ v) (sort_key fst labels))"
proof -
  have "smap_get labels (fst kv) = snd kv" if "kv \<in> set labels" for kv
    using map_of_is_SomeI [OF assms, of "fst kv" "snd kv"] that by (simp add: smap_get_def)
  then have "map (\<lambda>k. k @ ''='' @ smap_get labels k) (map fst (sort_key fst labels)) =
      map (\<lambda>(k, v). k @ ''='' @ v) (sort_key fst labels)"
    by (auto simp: split_def)
  then show ?thesis by (simp only: NodeLabelArg_def sort_map_key)
qed

lemma sort_key_unique:
  assumes "mset xs = mset ys" and "distinct (map f xs)"
  shows "sort_key f xs = sort_key f ys"
proof -
  have "inj_on f (set xs)" using assms(2) by (simp add: distinct_map)
  then show ?thesis using assms(1) by (intro sort_key_inj_key_eq) simp_all
qed

section \<open>Properties\<close>

text \<open>
  C37. Rendering is exact: it succeeds with an output if and only if the template is not empty and the
  output is the template rendered, where a token is two braces around one of the five supported names
  with optional white space, each token at which the scan from the left arrives is replaced by the
  value of the name it holds, and every other byte is kept. So a token with any other name makes
  rendering fail, and nothing but the tokens is changed.
\<close>

theorem Render_exact:
  "Render template v = Inr out \<longleftrightarrow> template \<noteq> [] \<and> renders_to v template out"
proof -
  let ?segs = "segments template"
  have "Render template v = Inr out \<longleftrightarrow> template \<noteq> [] \<and> concat (map (unknown_of (substitutions v)) ?segs) = [] \<and>
      out = concat (map (replace_segment (substitutions v)) ?segs)"
    by (auto simp: Render_def Let_def)
  then show ?thesis by (simp only: rendered_segments)
qed

definition sample_values :: Values where
  "sample_values = \<lparr>va_CellName = ''p-0'', va_PoolName = ''p'', va_NodeLabels = ''a=b'',
     va_NodeIPInterface = ''eth1'', va_ExpectedGPUs = 1\<rparr>"

theorem Render_exact_witness:
  \<comment> \<open>a token is replaced, and a name in the wrong case has no rendering\<close>
  "renders_to sample_values ''n: {{ cellName }};'' ''n: p-0;'' \<and> \<not> (\<exists>out. renders_to sample_values ''n: {{ cellname }};'' out)"
proof -
  have "Render ''n: {{ cellName }};'' sample_values = Inr ''n: p-0;''" by code_simp
  then have "renders_to sample_values ''n: {{ cellName }};'' ''n: p-0;''"
    using Render_exact [of "''n: {{ cellName }};''" sample_values] by simp
  moreover have "isl (Render ''n: {{ cellname }};'' sample_values)" by code_simp
  then have "\<not> renders_to sample_values ''n: {{ cellname }};'' out" for out
    using Render_exact [of "''n: {{ cellname }};''" sample_values out] by auto
  ultimately show ?thesis by blast
qed

text \<open>
  The rendered node labels do not depend on the order in which a Go map is iterated, so a
  render that changes nothing yields the same Secret; and, for labels without commas, they are the
  labels, one per key, sorted.
\<close>

theorem NodeLabelArg_stable:
  assumes "distinct (map fst labels)" and "mset labels = mset labels'"
  shows "NodeLabelArg labels = NodeLabelArg labels' \<and>
    (labels \<noteq> [] \<and> (\<forall>(k, v) \<in> set labels. CHR '','' \<notin> set k \<union> set v) \<longrightarrow>
     split_on (CHR '','') (NodeLabelArg labels) = map (\<lambda>(k, v). k @ ''='' @ v) (sort_key fst labels))"
proof -
  have "mset (map fst labels) = mset (map fst labels')" using assms(2) by simp
  then have d': "distinct (map fst labels')" using assms(1) by (metis mset_eq_imp_distinct_iff)
  have "sort_key fst labels = sort_key fst labels'"
    by (rule sort_key_unique [OF assms(2,1)])
  then have "NodeLabelArg labels = NodeLabelArg labels'"
    by (simp add: NodeLabelArg_sorted [OF assms(1)] NodeLabelArg_sorted [OF d'])
  moreover have "split_on (CHR '','') (NodeLabelArg labels) = map (\<lambda>(k, v). k @ ''='' @ v) (sort_key fst labels)"
    if "labels \<noteq> []" "\<forall>(k, v) \<in> set labels. CHR '','' \<notin> set k \<union> set v"
    unfolding NodeLabelArg_sorted [OF assms(1)] using that
    by (intro split_on_join) (auto simp: split_def dest: arg_cong [of _ _ length])
  ultimately show ?thesis by blast
qed

theorem NodeLabelArg_stable_witness:
  "NodeLabelArg [(''b'', ''2''), (''a'', ''1'')] = NodeLabelArg [(''a'', ''1''), (''b'', ''2'')]"
  using NodeLabelArg_stable [of "[(''b'', ''2''), (''a'', ''1'')]" "[(''a'', ''1''), (''b'', ''2'')]"] by simp

end
