(* ===== verification/ClientCache.thy ===== *)
theory ClientCache
  imports Workload
begin

text \<open>
  The client cache of \<^verbatim>\<open>internal/workload/client.go\<close>: one client per kubeconfig Secret, rebuilt when
  the Secret's resource version changes. \<^verbatim>\<open>clientcmd.RESTConfigFromKubeConfig\<close> and the client
  constructor are parameters; the mutex makes each operation one step, so the operations are
  functions on the map of entries. A client stands for the API server it talks to.
\<close>

section \<open>The cache\<close>

record Secret =
  se_Namespace :: string
  se_Name :: string
  se_Labels :: smap
  se_Owners :: "OwnerReference list"
  se_Data :: smap
  se_ResourceVersion :: string

type_synonym client = string

record cacheEntry =
  ce_resourceVersion :: string
  ce_client :: client

type_synonym ClientCache = "(string \<times> cacheEntry) list"

abbreviation DefaultKubeconfigKey :: string where "DefaultKubeconfigKey \<equiv> ''value''"

definition NewClientCache :: ClientCache where
  "NewClientCache = []"

definition kubeconfig_bytes :: "Secret \<Rightarrow> string \<Rightarrow> string option" where
  \<comment> \<open>the defaulted key, and a missing or empty value\<close>
  "kubeconfig_bytes secret dataKey =
     (let k = (if dataKey = [] then DefaultKubeconfigKey else dataKey)
      in case map_of (se_Data secret) k of None \<Rightarrow> None | Some raw \<Rightarrow> if raw = [] then None else Some raw)"

definition For ::
  "(string \<Rightarrow> string result) \<Rightarrow> (string \<Rightarrow> client result) \<Rightarrow> string \<Rightarrow> Secret \<Rightarrow> string \<Rightarrow> ClientCache \<Rightarrow>
   client result \<times> ClientCache" where
  "For restConfig newClient key secret dataKey cache =
     (case kubeconfig_bytes secret dataKey of
        None \<Rightarrow> (Inl (Errorf (''secret '' @ key @ '' has no '' @
                  go_quote (if dataKey = [] then DefaultKubeconfigKey else dataKey) @
                  '' key holding a kubeconfig'')), cache)
      | Some raw \<Rightarrow>
          let build =
            (case restConfig raw of
               Inl e \<Rightarrow> (Inl (Wrapped (''parsing kubeconfig from secret '' @ key) e), cache)
             | Inr cfg \<Rightarrow>
                 (case newClient cfg of
                    Inl e \<Rightarrow> (Inl (Wrapped (''building workload client for '' @ key) e), cache)
                  | Inr cs \<Rightarrow>
                      (Inr cs, AList.update key
                         \<lparr>ce_resourceVersion = se_ResourceVersion secret, ce_client = cs\<rparr> cache)))
          in case map_of cache key of
               Some e \<Rightarrow> if ce_resourceVersion e = se_ResourceVersion secret then (Inr (ce_client e), cache) else build
             | None \<Rightarrow> build)"

definition Forget :: "string \<Rightarrow> ClientCache \<Rightarrow> ClientCache" where
  "Forget key cache = AList.delete key cache"

definition Len :: "ClientCache \<Rightarrow> nat" where
  "Len cache = length cache"

section \<open>The life of the cache\<close>

text \<open>A call of \<^verbatim>\<open>For\<close>: cache key, Secret as read, data key of the pool.\<close>

type_synonym cache_call = "string \<times> Secret \<times> string"

definition built_from :: "(string \<Rightarrow> string result) \<Rightarrow> (string \<Rightarrow> client result) \<Rightarrow> string \<Rightarrow> client \<Rightarrow> bool" where
  "built_from restConfig newClient raw cs \<longleftrightarrow> (\<exists>cfg. restConfig raw = Inr cfg \<and> newClient cfg = Inr cs)"

inductive cache_reach ::
  "(string \<Rightarrow> string result) \<Rightarrow> (string \<Rightarrow> client result) \<Rightarrow> cache_call list \<Rightarrow> ClientCache \<Rightarrow> bool"
  for restConfig newClient where
  start: "cache_reach restConfig newClient [] NewClientCache"
| get: "cache_reach restConfig newClient calls cache \<Longrightarrow>
    cache_reach restConfig newClient (calls @ [(key, secret, dataKey)])
      (snd (For restConfig newClient key secret dataKey cache))"
| forget: "cache_reach restConfig newClient calls cache \<Longrightarrow> cache_reach restConfig newClient calls (Forget key cache)"

definition entry_ok ::
  "(string \<Rightarrow> string result) \<Rightarrow> (string \<Rightarrow> client result) \<Rightarrow> cache_call list \<Rightarrow> string \<Rightarrow> cacheEntry \<Rightarrow> bool" where
  "entry_ok restConfig newClient calls key e \<longleftrightarrow>
     (\<exists>secret dataKey raw. (key, secret, dataKey) \<in> set calls \<and> ce_resourceVersion e = se_ResourceVersion secret \<and>
        kubeconfig_bytes secret dataKey = Some raw \<and> built_from restConfig newClient raw (ce_client e))"

lemma For_cases:
  assumes "For rc nc key secret dataKey cache = (r, cache')"
  obtains (refused) e where "r = Inl e" "cache' = cache"
  | (hit) e raw where "kubeconfig_bytes secret dataKey = Some raw" "map_of cache key = Some e"
      "ce_resourceVersion e = se_ResourceVersion secret" "r = Inr (ce_client e)" "cache' = cache"
  | (built) raw cs where "kubeconfig_bytes secret dataKey = Some raw" "built_from rc nc raw cs" "r = Inr cs"
      "cache' = AList.update key \<lparr>ce_resourceVersion = se_ResourceVersion secret, ce_client = cs\<rparr> cache"
proof -
  have "(\<exists>e. r = Inl e \<and> cache' = cache) \<or>
    (\<exists>e raw. kubeconfig_bytes secret dataKey = Some raw \<and> map_of cache key = Some e \<and>
       ce_resourceVersion e = se_ResourceVersion secret \<and> r = Inr (ce_client e) \<and> cache' = cache) \<or>
    (\<exists>raw cs. kubeconfig_bytes secret dataKey = Some raw \<and> built_from rc nc raw cs \<and> r = Inr cs \<and>
       cache' = AList.update key \<lparr>ce_resourceVersion = se_ResourceVersion secret, ce_client = cs\<rparr> cache)"
    using assms by (auto simp: For_def Let_def built_from_def split: option.splits if_splits sum.splits; metis)
  then show ?thesis using refused hit built by blast
qed

lemma For_entries:
  assumes "map_of (snd (For rc nc key secret dataKey cache)) k = Some e"
  shows "map_of cache k = Some e \<or> entry_ok rc nc [(key, secret, dataKey)] k e"
proof -
  obtain r cache' where eq: "For rc nc key secret dataKey cache = (r, cache')" by fastforce
  from eq show ?thesis
  proof (cases rule: For_cases)
    case (built raw cs)
    with assms eq show ?thesis
      by (auto simp: update_conv entry_ok_def split: if_splits)
  qed (use assms eq in auto)
qed

lemma entry_ok_mono: "entry_ok rc nc calls k e \<Longrightarrow> set calls \<subseteq> set calls' \<Longrightarrow> entry_ok rc nc calls' k e"
  unfolding entry_ok_def by blast

lemma cache_entries:
  "cache_reach rc nc calls cache \<Longrightarrow> map_of cache k = Some e \<Longrightarrow> entry_ok rc nc calls k e"
proof (induction arbitrary: k e rule: cache_reach.induct)
  case (get calls cache key secret dataKey)
  from For_entries [OF get.prems] show ?case
  proof
    assume "map_of cache k = Some e"
    then show ?thesis by (intro entry_ok_mono [OF get.IH]) auto
  qed (auto intro: entry_ok_mono)
next
  case (forget calls cache key)
  then show ?case by (auto simp: Forget_def delete_conv split: if_splits)
qed (simp add: NewClientCache_def)

lemma cache_distinct: "cache_reach rc nc calls cache \<Longrightarrow> distinct (map fst cache)"
proof (induction rule: cache_reach.induct)
  case (get calls cache key secret dataKey)
  obtain r cache' where eq: "For rc nc key secret dataKey cache = (r, cache')" by fastforce
  from eq show ?case
    by (cases rule: For_cases) (simp_all add: eq get.IH distinct_update)
qed (simp_all add: NewClientCache_def Forget_def distinct_delete)

section \<open>Properties\<close>

text \<open>
  C35. Whose credential a client has. After any sequence of lookups and forgets, a lookup that succeeds
  found a kubeconfig under its own data key, and returns a client built from the kubeconfig which a
  lookup for the same cache key, this one or an earlier one, found in the Secret at the very resource
  version the Secret has now. So a rotated Secret never yields a client of its older content; and the
  client is built from the lookup's own bytes unless an earlier one took other bytes out of the same
  version, under another data key. The client is then the only one cached for the key.
\<close>

theorem For_current:
  assumes "cache_reach rc nc calls cache" and "For rc nc key secret dataKey cache = (Inr cs, cache')"
  shows "\<exists>own raw s d. kubeconfig_bytes secret dataKey = Some own \<and>
    (key, s, d) \<in> set (calls @ [(key, secret, dataKey)]) \<and> se_ResourceVersion s = se_ResourceVersion secret \<and>
    kubeconfig_bytes s d = Some raw \<and> built_from rc nc raw cs \<and>
    ((\<forall>(k, s, d) \<in> set calls. k = key \<and> se_ResourceVersion s = se_ResourceVersion secret \<longrightarrow>
        kubeconfig_bytes s d = Some own) \<longrightarrow> raw = own) \<and>
    map_of cache' key = Some \<lparr>ce_resourceVersion = se_ResourceVersion secret, ce_client = cs\<rparr> \<and>
    distinct (map fst cache')"
proof -
  have dist: "distinct (map fst cache')"
    using cache_distinct [OF cache_reach.get [OF assms(1), of key secret dataKey]] assms(2) by simp
  from assms(2) show ?thesis
  proof (cases rule: For_cases)
    case (hit e own)
    from cache_entries [OF assms(1) hit(2)] obtain s d raw where
      s: "(key, s, d) \<in> set calls" "ce_resourceVersion e = se_ResourceVersion s"
         "kubeconfig_bytes s d = Some raw" "built_from rc nc raw (ce_client e)"
      by (auto simp: entry_ok_def)
    have "e = \<lparr>ce_resourceVersion = se_ResourceVersion secret, ce_client = cs\<rparr>"
      using hit(3,4) by (cases e) simp
    with hit s dist show ?thesis
      by (intro exI [of _ own] exI [of _ raw] exI [of _ s] exI [of _ d]) fastforce
  next
    case (built raw cs')
    with dist show ?thesis
      by (intro exI [of _ raw] exI [of _ raw] exI [of _ secret] exI [of _ dataKey]) (auto simp: update_conv)
  qed simp
qed

text \<open>
  The data key is not part of the cache key: a pool that takes another kubeconfig out of the same
  Secret is handed the client of the first pool, and so acts on the first pool's cluster.
\<close>

theorem For_ignores_data_key:
  fixes secret :: Secret
  defines "secret \<equiv> \<lparr>se_Namespace = ''ns'', se_Name = ''kc'', se_Labels = [], se_Owners = [],
     se_Data = [(''east'', ''E''), (''west'', ''W'')], se_ResourceVersion = ''7''\<rparr>"
  shows "fst (For Inr Inr ''ns/kc'' secret ''west'' (snd (For Inr Inr ''ns/kc'' secret ''east'' NewClientCache))) = Inr ''E''"
    and "fst (For Inr Inr ''ns/kc'' secret ''west'' NewClientCache) = Inr ''W''"
  by (simp_all add: secret_def For_def kubeconfig_bytes_def NewClientCache_def)

text \<open>A rotation: the Secret is looked up at version 7, and at version 8 yields the client of its new content.\<close>

definition rotated :: "string \<Rightarrow> string \<Rightarrow> Secret" where
  "rotated content version = \<lparr>se_Namespace = ''ns'', se_Name = ''kc'', se_Labels = [], se_Owners = [],
     se_Data = [(''value'', content)], se_ResourceVersion = version\<rparr>"

theorem For_current_witness:
  "\<exists>cache cache'. cache_reach Inr Inr [(''ns/kc'', rotated ''K'' ''7'', [])] cache \<and> cache \<noteq> [] \<and>
     For Inr Inr ''ns/kc'' (rotated ''L'' ''8'') [] cache = (Inr ''L'', cache') \<and>
     map_of cache' ''ns/kc'' = Some \<lparr>ce_resourceVersion = ''8'', ce_client = ''L''\<rparr>"
proof -
  let ?cache = "snd (For Inr Inr ''ns/kc'' (rotated ''K'' ''7'') [] NewClientCache)"
  have reach: "cache_reach Inr Inr [(''ns/kc'', rotated ''K'' ''7'', [])] ?cache"
    using cache_reach.get [OF cache_reach.start, of Inr Inr "''ns/kc''" "rotated ''K'' ''7''" "[]"] by simp
  obtain cs cache' where look: "For Inr Inr ''ns/kc'' (rotated ''L'' ''8'') [] ?cache = (Inr cs, cache')" "?cache \<noteq> []"
    by (simp add: For_def kubeconfig_bytes_def NewClientCache_def rotated_def)
  from For_current [OF reach look(1)] have "cs = ''L''" "map_of cache' ''ns/kc'' = Some \<lparr>ce_resourceVersion = ''8'', ce_client = cs\<rparr>"
    by (auto simp: rotated_def kubeconfig_bytes_def built_from_def)
  with reach look show ?thesis by blast
qed

end
