(* ===== verification/Effects.thy ===== *)
theory Effects
  imports Status HamiDra Inventory Bootstrap ClientCache Template "HOL-Library.State_Monad"
begin

text \<open>
  How the reconciler's calls to the two API servers are modelled. An operation is a computation of
  HOL-Library's state monad over a \<open>World\<close>: the trace of the calls made so far and the client
  cache. The servers are a parameter, an \<open>Env\<close> of functions from the trace to answers, so an answer
  may depend on everything done before and every error of every call is covered; nothing is assumed
  of them. A call appends an event with its answer. The clock of one pass is a constant.

  \<open>trip P m Q\<close> is the Hoare triple of a computation, with a rule per combinator and per call; the
  properties of the reconciler are triples whose assertions speak of the trace.
\<close>

section \<open>Events and answers\<close>

text \<open>
  A strategic merge patch of a Node, as far as the operator sends it: labels and annotations to set,
  the taint list, the unschedulable flag.
\<close>

record NodePatch =
  np_Labels :: smap
  np_Annotations :: smap
  np_Taints :: "Taint list option"
  np_Unschedulable :: "bool option"

definition zero_NodePatch :: NodePatch where
  "zero_NodePatch = \<lparr>np_Labels = [], np_Annotations = [], np_Taints = None, np_Unschedulable = None\<rparr>"

text \<open>
  A provisioner is called through its interface and in turn calls the API server. Both levels are
  in the trace: \<open>EvAsk\<close> is the moment the reconciler calls a provisioner, \<open>EvEnsure\<close>,
  \<open>EvClearDrainFinalizer\<close>, \<open>EvDelete\<close> and \<open>EvList\<close> are its return, and the requests it made on
  objects stand in between.
\<close>

datatype prov_call = AskEnsure CellRequest | AskClear CellRequest | AskDelete CellRequest

datatype event =
    EvRead string
  | EvNodeState client string "NodeState result"
  | EvPoolNodes client string "(string \<times> NodeState) list result"
  | EvGetNode client string "Node result"
  | EvPatchNode client string NodePatch "unit result"
  | EvDeleteNode client string "unit result"
  | EvAllocations client string "Allocations result"
  | EvGetSecret string string "Secret result"
  | EvCreateSecret Secret "unit result"
  | EvUpdateSecret Secret "unit result"
  | EvUpdatePool GPUCellPool "GPUCellPool result"
  | EvUpdateStatus GPUCellPool "unit result"
  | EvGetObject GroupVersionKind string string "Unstructured result"
  | EvListObjects GroupVersionKind string string "Unstructured list result"
  | EvCreateObject Unstructured "Unstructured result"
  | EvUpdateObject Unstructured "unit result"
  | EvDeleteObject GroupVersionKind string string "unit result"
  | EvAsk prov_call
  | EvList string "string list result"
  | EvEnsure CellRequest "OuterState result"
  | EvDelete CellRequest "bool result"
  | EvClearDrainFinalizer CellRequest "unit result"
  | EvEvent string string string
  | EvMetric metric "string list" int
  | EvGauges string string "gauge list"
  | EvForgetPool string string

record World =
  wo_trace :: "event list"
  wo_cache :: ClientCache

record Env =
  en_now :: gotime
  en_sha256 :: "string \<Rightarrow> string"
  en_dns1123 :: "string \<Rightarrow> string list"
  en_restConfig :: "string \<Rightarrow> string result"
  en_newClient :: "string \<Rightarrow> client result"
  en_setStatusCondition :: "Condition list \<Rightarrow> Condition \<Rightarrow> Condition list"
  en_GetPool :: "event list \<Rightarrow> GPUCellPool result"
  en_UpdatePool :: "event list \<Rightarrow> GPUCellPool \<Rightarrow> GPUCellPool result"
  en_UpdateStatus :: "event list \<Rightarrow> GPUCellPool \<Rightarrow> unit result"
  en_GetSecret :: "event list \<Rightarrow> string \<Rightarrow> string \<Rightarrow> Secret result"
  en_CreateSecret :: "event list \<Rightarrow> Secret \<Rightarrow> unit result"
  en_UpdateSecret :: "event list \<Rightarrow> Secret \<Rightarrow> unit result"
  en_Outer :: "event list \<Rightarrow> OuterReads"
  en_Probe :: "event list \<Rightarrow> client \<Rightarrow> unit result"
  en_HAMi :: "event list \<Rightarrow> client \<Rightarrow> HAMiClient"
  en_GetNode :: "event list \<Rightarrow> client \<Rightarrow> string \<Rightarrow> Node result"
  en_GetLease :: "event list \<Rightarrow> client \<Rightarrow> string \<Rightarrow> lease_read"
  en_ListNodes :: "event list \<Rightarrow> client \<Rightarrow> string \<Rightarrow> Node list result"
  en_PatchNode :: "event list \<Rightarrow> client \<Rightarrow> string \<Rightarrow> NodePatch \<Rightarrow> unit result"
  en_DeleteNode :: "event list \<Rightarrow> client \<Rightarrow> string \<Rightarrow> unit result"
  en_GetObject :: "event list \<Rightarrow> GroupVersionKind \<Rightarrow> string \<Rightarrow> string \<Rightarrow> Unstructured result"
  en_ListObjects :: "event list \<Rightarrow> GroupVersionKind \<Rightarrow> string \<Rightarrow> string \<Rightarrow> Unstructured list result"
  en_CreateObject :: "event list \<Rightarrow> Unstructured \<Rightarrow> Unstructured result"
  en_UpdateObject :: "event list \<Rightarrow> Unstructured \<Rightarrow> unit result"
  en_DeleteObject :: "event list \<Rightarrow> GroupVersionKind \<Rightarrow> string \<Rightarrow> string \<Rightarrow> unit result"

type_synonym 'a io = "(World, 'a) state"

abbreviation ret :: "'a \<Rightarrow> 'a io" where "ret \<equiv> State_Monad.return"

definition call :: "(event list \<Rightarrow> 'a) \<Rightarrow> ('a \<Rightarrow> event) \<Rightarrow> 'a io" where
  "call answer ev = State (\<lambda>w. let r = answer (wo_trace w) in (r, w\<lparr>wo_trace := wo_trace w @ [ev r]\<rparr>))"

definition emit :: "event \<Rightarrow> unit io" where
  "emit ev = call (\<lambda>_. ()) (\<lambda>_. ev)"

text \<open>Go's "if err != nil, return err", without and with a message around the error.\<close>

definition attempt :: "'a result io \<Rightarrow> ('a \<Rightarrow> 'b result io) \<Rightarrow> 'b result io" where
  "attempt m f = do { r \<leftarrow> m; case r of Inl e \<Rightarrow> ret (Inl e) | Inr x \<Rightarrow> f x }"

definition wrapping :: "string \<Rightarrow> 'a result io \<Rightarrow> 'a result io" where
  "wrapping msg m = do { r \<leftarrow> m; ret (case r of Inl e \<Rightarrow> Inl (Wrapped msg e) | Inr x \<Rightarrow> Inr x) }"

text \<open>A Go loop whose body returns an error value: it stops at the first error.\<close>

fun each :: "('a \<Rightarrow> 'b result io) \<Rightarrow> 'a list \<Rightarrow> 'b list result io" where
  "each f [] = ret (Inr [])"
| "each f (x # xs) = attempt (f x) (\<lambda>y. attempt (each f xs) (\<lambda>ys. ret (Inr (y # ys))))"

fun emit_all :: "event list \<Rightarrow> unit io" where
  "emit_all [] = ret ()"
| "emit_all (ev # evs) = do { emit ev; emit_all evs }"

text \<open>The cached client of a pool, and dropping it.\<close>

definition client_for :: "Env \<Rightarrow> string \<Rightarrow> Secret \<Rightarrow> string \<Rightarrow> client result io" where
  "client_for env key secret dataKey = State (\<lambda>w.
     let (r, cache) = For (en_restConfig env) (en_newClient env) key secret dataKey (wo_cache w)
     in (r, w\<lparr>wo_cache := cache\<rparr>))"

definition forget_client :: "string \<Rightarrow> unit io" where
  "forget_client key = State (\<lambda>w. ((), w\<lparr>wo_cache := Forget key (wo_cache w)\<rparr>))"

section \<open>Triples\<close>

definition trip :: "(event list \<Rightarrow> bool) \<Rightarrow> 'a io \<Rightarrow> ('a \<Rightarrow> event list \<Rightarrow> bool) \<Rightarrow> bool" where
  "trip P m Q \<longleftrightarrow> (\<forall>w. P (wo_trace w) \<longrightarrow> (case run_state m w of (r, w') \<Rightarrow> Q r (wo_trace w')))"

named_theorems trip_rules

lemma trip_run: "trip P m Q \<Longrightarrow> P (wo_trace w) \<Longrightarrow> run_state m w = (r, w') \<Longrightarrow> Q r (wo_trace w')"
  by (auto simp: trip_def)

lemma trip_ret [trip_rules]: "(\<And>tr. P tr \<Longrightarrow> Q x tr) \<Longrightarrow> trip P (ret x) Q"
  by (simp add: trip_def)

lemma trip_bind:
  assumes "trip P m R" and "\<And>x. trip (R x) (f x) Q"
  shows "trip P (State_Monad.bind m f) Q"
  unfolding trip_def
proof (intro allI impI)
  fix w :: World
  assume "P (wo_trace w)"
  moreover obtain x v where mw: "run_state m w = (x, v)" by fastforce
  ultimately have "R x (wo_trace v)" using trip_run [OF assms(1)] by blast
  moreover obtain y u where "run_state (f x) v = (y, u)" by fastforce
  ultimately show "case run_state (State_Monad.bind m f) w of (r, w') \<Rightarrow> Q r (wo_trace w')"
    using trip_run [OF assms(2)] mw by simp
qed

lemma trip_call [trip_rules]:
  "(\<And>tr. P tr \<Longrightarrow> Q (answer tr) (tr @ [ev (answer tr)])) \<Longrightarrow> trip P (call answer ev) Q"
  by (auto simp: trip_def call_def Let_def)

lemma trip_emit [trip_rules]: "(\<And>tr. P tr \<Longrightarrow> Q () (tr @ [ev])) \<Longrightarrow> trip P (emit ev) Q"
  unfolding emit_def by (rule trip_call)

lemma trip_client_for [trip_rules]: "(\<And>r tr. P tr \<Longrightarrow> Q r tr) \<Longrightarrow> trip P (client_for env key secret dk) Q"
  by (auto simp: trip_def client_for_def split: prod.splits)

lemma trip_forget_client [trip_rules]: "(\<And>r tr. P tr \<Longrightarrow> Q r tr) \<Longrightarrow> trip P (forget_client key) Q"
  by (auto simp: trip_def forget_client_def)

lemma trip_weaken: "trip P m R \<Longrightarrow> (\<And>tr. P' tr \<Longrightarrow> P tr) \<Longrightarrow> (\<And>r tr. R r tr \<Longrightarrow> Q r tr) \<Longrightarrow> trip P' m Q"
  by (fastforce simp: trip_def)

lemma trip_conj: "trip P m Q \<Longrightarrow> trip P' m Q' \<Longrightarrow> trip (\<lambda>tr. P tr \<and> P' tr) m (\<lambda>r tr. Q r tr \<and> Q' r tr)"
  by (fastforce simp: trip_def)

lemma trip_case_sum [trip_rules]:
  "(\<And>e. r = Inl e \<Longrightarrow> trip P (f e) Q) \<Longrightarrow> (\<And>x. r = Inr x \<Longrightarrow> trip P (g x) Q) \<Longrightarrow>
   trip P (case r of Inl e \<Rightarrow> f e | Inr x \<Rightarrow> g x) Q"
  by (cases r) auto

lemma trip_case_option [trip_rules]:
  "(r = None \<Longrightarrow> trip P f Q) \<Longrightarrow> (\<And>x. r = Some x \<Longrightarrow> trip P (g x) Q) \<Longrightarrow>
   trip P (case r of None \<Rightarrow> f | Some x \<Rightarrow> g x) Q"
  by (cases r) auto

lemma trip_if [trip_rules]: "(b \<Longrightarrow> trip P m Q) \<Longrightarrow> (\<not> b \<Longrightarrow> trip P n Q) \<Longrightarrow> trip P (if b then m else n) Q"
  by simp

lemma trip_fact: "(\<And>tr. P tr \<Longrightarrow> F) \<Longrightarrow> (F \<Longrightarrow> trip P m Q) \<Longrightarrow> trip P m Q"
  by (auto simp: trip_def)

lemma trip_attempt:
  assumes "trip P m R" and "\<And>x. trip (R (Inr x)) (f x) Q" and "\<And>e tr. R (Inl e) tr \<Longrightarrow> Q (Inl e) tr"
  shows "trip P (attempt m f) Q"
  unfolding attempt_def
proof (rule trip_bind [OF assms(1)])
  fix r
  show "trip (R r) (case r of Inl e \<Rightarrow> ret (Inl e) | Inr x \<Rightarrow> f x) Q"
    using assms(2,3) by (cases r) (auto intro: trip_ret)
qed

lemma trip_wrapping:
  "trip P m (\<lambda>r. Q (case r of Inl e \<Rightarrow> Inl (Wrapped msg e) | Inr x \<Rightarrow> Inr x)) \<Longrightarrow> trip P (wrapping msg m) Q"
  unfolding wrapping_def by (rule trip_bind) (auto intro: trip_ret)

subsection \<open>Assertions kept throughout\<close>

definition keeps :: "(event list \<Rightarrow> bool) \<Rightarrow> 'a io \<Rightarrow> bool" where
  "keeps I m \<longleftrightarrow> trip I m (\<lambda>_. I)"

named_theorems keeps_rules

lemma keeps_ret [keeps_rules]: "keeps I (ret x)"
  by (simp add: keeps_def trip_ret)

lemma keeps_bind [keeps_rules]: "keeps I m \<Longrightarrow> (\<And>x. keeps I (f x)) \<Longrightarrow> keeps I (State_Monad.bind m f)"
  unfolding keeps_def by (rule trip_bind)

lemma keeps_call: "(\<And>tr. I tr \<Longrightarrow> I (tr @ [ev (answer tr)])) \<Longrightarrow> keeps I (call answer ev)"
  by (simp add: keeps_def trip_call)

lemma keeps_emit: "(\<And>tr. I tr \<Longrightarrow> I (tr @ [ev])) \<Longrightarrow> keeps I (emit ev)"
  by (simp add: keeps_def trip_emit)

lemma keeps_client_for [keeps_rules]: "keeps I (client_for env key secret dk)"
  by (simp add: keeps_def trip_client_for)

lemma keeps_forget_client [keeps_rules]: "keeps I (forget_client key)"
  by (simp add: keeps_def trip_forget_client)

lemma keeps_attempt [keeps_rules]: "keeps I m \<Longrightarrow> (\<And>x. keeps I (f x)) \<Longrightarrow> keeps I (attempt m f)"
  unfolding keeps_def by (rule trip_attempt) auto

lemma keeps_wrapping [keeps_rules]: "keeps I m \<Longrightarrow> keeps I (wrapping msg m)"
  unfolding keeps_def by (rule trip_wrapping)

lemma keeps_case_sum [keeps_rules]:
  "(\<And>e. r = Inl e \<Longrightarrow> keeps I (f e)) \<Longrightarrow> (\<And>x. r = Inr x \<Longrightarrow> keeps I (g x)) \<Longrightarrow>
   keeps I (case r of Inl e \<Rightarrow> f e | Inr x \<Rightarrow> g x)"
  by (cases r) auto

lemma keeps_case_option [keeps_rules]:
  "(r = None \<Longrightarrow> keeps I f) \<Longrightarrow> (\<And>x. r = Some x \<Longrightarrow> keeps I (g x)) \<Longrightarrow>
   keeps I (case r of None \<Rightarrow> f | Some x \<Rightarrow> g x)"
  by (cases r) auto

lemma keeps_case_prod [keeps_rules]: "(\<And>a b. p = (a, b) \<Longrightarrow> keeps I (f a b)) \<Longrightarrow> keeps I (case p of (a, b) \<Rightarrow> f a b)"
  by (cases p) auto

lemma keeps_if [keeps_rules]: "(b \<Longrightarrow> keeps I m) \<Longrightarrow> (\<not> b \<Longrightarrow> keeps I n) \<Longrightarrow> keeps I (if b then m else n)"
  by simp

lemma keeps_let [keeps_rules]: "(\<And>x. x = v \<Longrightarrow> keeps I (f x)) \<Longrightarrow> keeps I (let x = v in f x)"
  by simp

lemma keeps_each [keeps_rules]:
  "(\<And>x. x \<in> set xs \<Longrightarrow> keeps I (f x)) \<Longrightarrow> keeps I (each f xs)"
  by (induction xs) (auto intro!: keeps_rules)

lemma keeps_emit_all: "(\<And>ev tr. ev \<in> set evs \<Longrightarrow> I tr \<Longrightarrow> I (tr @ [ev])) \<Longrightarrow> keeps I (emit_all evs)"
  by (induction evs) (auto intro!: keeps_rules keeps_emit)

lemma keeps_trip: "keeps I m \<Longrightarrow> trip I m Q \<Longrightarrow> trip I m (\<lambda>r tr. I tr \<and> Q r tr)"
  by (fastforce simp: keeps_def trip_def)

end
