(* ===== verification/NodeWrites.thy ===== *)
theory NodeWrites
  imports Effects
begin

text \<open>
  The Node operations of \<^verbatim>\<open>internal/workload/node.go\<close> that write to the workload cluster, and the
  compound reads of the package as calls. Encoding the patch as JSON cannot fail for the types in
  it, so the two \<^verbatim>\<open>json\<close> error branches of \<^verbatim>\<open>EnsureNodeMetadata\<close> have no counterpart.
\<close>

definition get_node :: "Env \<Rightarrow> client \<Rightarrow> string \<Rightarrow> Node result io" where
  "get_node env cs name = call (\<lambda>tr. en_GetNode env tr cs name) (EvGetNode cs name)"

definition patch_node :: "Env \<Rightarrow> client \<Rightarrow> string \<Rightarrow> NodePatch \<Rightarrow> unit result io" where
  "patch_node env cs name patch = call (\<lambda>tr. en_PatchNode env tr cs name patch) (EvPatchNode cs name patch)"

definition get_node_state :: "Env \<Rightarrow> client \<Rightarrow> string \<Rightarrow> NodeState result io" where
  "get_node_state env cs name =
     call (\<lambda>tr. GetNodeState (en_GetNode env tr cs) (en_GetLease env tr cs) name (en_now env)) (EvNodeState cs name)"

definition list_pool_nodes :: "Env \<Rightarrow> client \<Rightarrow> string \<Rightarrow> (string \<times> NodeState) list result io" where
  "list_pool_nodes env cs pool =
     call (\<lambda>tr. ListPoolNodes (en_ListNodes env tr cs) (en_GetLease env tr cs) pool (en_now env)) (EvPoolNodes cs pool)"

definition metadata_patch :: "Node \<Rightarrow> smap \<Rightarrow> smap \<Rightarrow> Taint list \<Rightarrow> NodePatch option" where
  \<comment> \<open>\<open>None\<close>: nothing is missing or wrong\<close>
  "metadata_patch node labels annotations taints =
     (let wantL = missingOrWrong (nd_Labels node) labels;
          wantA = missingOrWrong (nd_Annotations node) annotations;
          merged = mergeTaints (nd_Taints node) taints
      in if wantL = [] \<and> wantA = [] \<and> \<not> snd merged then None
         else Some \<lparr>np_Labels = wantL, np_Annotations = wantA,
                np_Taints = (if snd merged then Some (fst merged) else None), np_Unschedulable = None\<rparr>)"

definition EnsureNodeMetadata ::
  "Env \<Rightarrow> client \<Rightarrow> string \<Rightarrow> smap \<Rightarrow> smap \<Rightarrow> Taint list \<Rightarrow> bool result io" where
  "EnsureNodeMetadata env cs name labels annotations taints =
     attempt (wrapping (''reading node '' @ name) (get_node env cs name)) (\<lambda>node.
       case metadata_patch node labels annotations taints of
         None \<Rightarrow> ret (Inr False)
       | Some patch \<Rightarrow>
           attempt (wrapping (''patching node '' @ name) (patch_node env cs name patch)) (\<lambda>_. ret (Inr True)))"

definition Cordon :: "Env \<Rightarrow> client \<Rightarrow> string \<Rightarrow> unit result io" where
  "Cordon env cs name = do {
     r \<leftarrow> get_node env cs name;
     case r of
       Inl e \<Rightarrow> ret (if IsNotFound e then Inr () else Inl (Wrapped (''reading node '' @ name) e))
     | Inr node \<Rightarrow>
         if nd_Unschedulable node then ret (Inr ())
         else wrapping (''cordoning node '' @ name)
                (patch_node env cs name (zero_NodePatch\<lparr>np_Unschedulable := Some True\<rparr>)) }"

definition DeleteNode :: "Env \<Rightarrow> client \<Rightarrow> string \<Rightarrow> unit result io" where
  "DeleteNode env cs name = do {
     r \<leftarrow> call (\<lambda>tr. en_DeleteNode env tr cs name) (EvDeleteNode cs name);
     ret (case r of
            Inl e \<Rightarrow> if IsNotFound e then Inr () else Inl (Wrapped (''deleting node '' @ name) e)
          | Inr _ \<Rightarrow> Inr ()) }"

end
