(* ===== verification/ScalingPass.thy ===== *)
theory ScalingPass
  imports Status HamiDra
begin

text \<open>
  The part of \<^verbatim>\<open>Reconcile\<close> in which the autoscaler and the membership planner meet: how the inputs of
  both are made from one set of rows, and the clocks the status keeps between passes. The
  properties here are about the two planners together.
\<close>

section \<open>One pass of the autoscaler\<close>

text \<open>
  How \<^verbatim>\<open>Reconcile\<close> (\<^verbatim>\<open>internal/controller/controller.go\<close>) hands the scaler's decision to the
  membership planner: the live count and the idle cells are read off the same rows, the desired
  count and the drain candidates go into the plan, and \<^verbatim>\<open>MaxCreating\<close> is left to its default.
\<close>

definition scale_input ::
  "GPUCellPool \<Rightarrow> CellStatus list \<Rightarrow> string list \<Rightarrow> Demand \<Rightarrow> bool \<Rightarrow> bool \<Rightarrow> goint option \<Rightarrow> gotime \<Rightarrow> ScaleInput" where
  "scale_input pool cells idle demand demandKnown shapeKnown freeGPUs now =
     \<lparr>si_Replicas = sp_Replicas (po_Spec pool), si_Autoscaling = sp_Autoscaling (po_Spec pool),
      si_LiveCells = liveCells cells, si_Demand = demand, si_DemandKnown = demandKnown,
      si_ShapeKnown = shapeKnown, si_FreeGPUs = freeGPUs, si_IdleCells = idle, si_Now = now,
      si_LastScaleUp = st_LastScaleUpTime (po_Status pool),
      si_LastScaleDown = st_LastScaleDownTime (po_Status pool),
      si_DemandFreeSince = st_DemandFreeSince (po_Status pool)\<rparr>"

definition membership_input ::
  "GPUCellPool \<Rightarrow> CellStatus list \<Rightarrow> ScaleDecision \<Rightarrow> goint option \<Rightarrow> bool \<Rightarrow> bool \<Rightarrow> gotime \<Rightarrow> MembershipInput" where
  "membership_input pool cells scale freeGPUs reachable providerReady now =
     \<lparr>mi_Desired = sd_Desired scale, mi_Cells = cells, mi_Now = now, mi_FreeGPUs = freeGPUs,
      mi_MaxCreating = 0, mi_WorkloadReachable = reachable, mi_EverReady = everReady pool cells,
      mi_ProviderUsable = providerReady, mi_DrainPreference = sd_DrainCandidates scale\<rparr>"

definition scaling_pass ::
  "GPUCellPool \<Rightarrow> CellStatus list \<Rightarrow> string list \<Rightarrow> Demand \<Rightarrow> bool \<Rightarrow> bool \<Rightarrow> goint option \<Rightarrow> bool \<Rightarrow> bool \<Rightarrow>
   gotime \<Rightarrow> ScaleDecision \<times> MembershipPlan" where
  "scaling_pass pool cells idle demand demandKnown shapeKnown freeGPUs reachable providerReady now =
     (let scale = DecideScale (scale_input pool cells idle demand demandKnown shapeKnown freeGPUs now)
      in (scale, PlanMembership (membership_input pool cells scale freeGPUs reachable providerReady now)))"

text \<open>
  \<^verbatim>\<open>DemandFreeSince\<close>, the clock of "demand has been absent for the whole window", and the stamps of
  the last scaling actions, as \<^verbatim>\<open>Reconcile\<close> updates them.
\<close>

definition stamp_scaling ::
  "gotime \<Rightarrow> Demand \<Rightarrow> bool \<Rightarrow> ScaleDecision \<Rightarrow> GPUCellPoolStatus \<Rightarrow> GPUCellPoolStatus" where
  "stamp_scaling now demand demandKnown scale st =
     (let st = (if demandKnown
                then if dm_SatisfiableByOneCell demand = 0 \<and> dm_PendingRequests demand = 0
                     then (if st_DemandFreeSince st = None then st\<lparr>st_DemandFreeSince := Some now\<rparr> else st)
                     else st\<lparr>st_DemandFreeSince := None\<rparr>
                else st);
          st = (if sd_ScaledUp scale then st\<lparr>st_LastScaleUpTime := Some now\<rparr> else st)
      in if sd_ScaledDown scale then st\<lparr>st_LastScaleDownTime := Some now\<rparr> else st)"

text \<open>
  The status clocks over a sequence of passes, each with its time, its demand reading, and whether it got
  as far as storing its status: the stamps are written with the rest of the status at the end of the
  pass, and a pass that returns an error before, or whose write fails, leaves the clocks as they were.
\<close>

type_synonym reading = "gotime \<times> Demand \<times> bool \<times> bool"

inductive clock_reach :: "reading list \<Rightarrow> GPUCellPoolStatus \<Rightarrow> bool" where
  start: "st_DemandFreeSince st = None \<Longrightarrow> clock_reach [] st"
| stored: "clock_reach hist st \<Longrightarrow>
    clock_reach (hist @ [(now, demand, known, True)]) (stamp_scaling now demand known scale st)"
| lost: "clock_reach hist st \<Longrightarrow> clock_reach (hist @ [(now, demand, known, False)]) st"

definition saw_demand :: "reading \<Rightarrow> bool" where
  \<comment> \<open>the pass read demand, found some and stored its status\<close>
  "saw_demand p \<longleftrightarrow> (case p of (now, demand, known, kept) \<Rightarrow>
     kept \<and> known \<and> (dm_SatisfiableByOneCell demand \<noteq> 0 \<or> dm_PendingRequests demand \<noteq> 0))"

section \<open>Facts\<close>

lemma drain_order_hd:
  assumes "mi_DrainPreference inp = n # ns" and "n \<in> cs_Name ` {c \<in> set (mi_Cells inp). is_candidate c}"
  shows "take 1 (drain_order inp) = [n]"
  using assms by (auto simp: drain_order_def Let_def)

lemma stamp_DemandFreeSince:
  "st_DemandFreeSince (stamp_scaling now demand known scale st) =
     (if \<not> known then st_DemandFreeSince st
      else if dm_SatisfiableByOneCell demand = 0 \<and> dm_PendingRequests demand = 0
        then (case st_DemandFreeSince st of None \<Rightarrow> Some now | Some t \<Rightarrow> Some t)
      else None)"
  by (simp add: stamp_scaling_def Let_def split: option.split)

lemma clock_since:
  "clock_reach hist st \<Longrightarrow> st_DemandFreeSince st = Some t \<Longrightarrow>
   \<exists>pre d post. hist = pre @ (t, d, True, True) # post \<and> (\<forall>p \<in> set ((t, d, True, True) # post). \<not> saw_demand p)"
proof (induction arbitrary: t rule: clock_reach.induct)
  case (stored hist st now demand known scale)
  show ?case
  proof (cases "st_DemandFreeSince st")
    case None
    with stored.prems have "known" "t = now" "\<not> saw_demand (now, demand, known, True)"
      by (auto simp: stamp_DemandFreeSince saw_demand_def split: if_splits)
    then show ?thesis by (intro exI [of _ hist] exI [of _ demand] exI [of _ "[]"]) simp
  next
    case (Some t0)
    with stored.prems have t: "t = t0" and absent: "\<not> saw_demand (now, demand, known, True)"
      by (auto simp: stamp_DemandFreeSince saw_demand_def split: if_splits)
    from stored.IH [OF Some] t obtain pre d post where
      "hist = pre @ (t, d, True, True) # post" "\<forall>p \<in> set ((t, d, True, True) # post). \<not> saw_demand p" by blast
    with absent show ?thesis
      by (intro exI [of _ pre] exI [of _ d] exI [of _ "post @ [(now, demand, known, True)]"]) auto
  qed
next
  case (lost hist st now demand known)
  from lost.IH [OF lost.prems] obtain pre d post where
    "hist = pre @ (t, d, True, True) # post" "\<forall>p \<in> set ((t, d, True, True) # post). \<not> saw_demand p" by blast
  then show ?case
    by (intro exI [of _ pre] exI [of _ d] exI [of _ "post @ [(now, demand, known, False)]"]) (auto simp: saw_demand_def)
qed auto

lemma scaling_pass_shrink:
  assumes "length cells < 2147483648"
    and "sd_ScaledDown (DecideScale (scale_input pool cells idle demand known shape free now))"
  obtains spec where "sp_Autoscaling (po_Spec pool) = Some spec" "as_Enabled spec" "idle \<noteq> []"
    "sd_DrainCandidates (DecideScale (scale_input pool cells idle demand known shape free now)) = idle"
    "shrink_ok (scale_input pool cells idle demand known shape free now) spec"
proof -
  let ?inp = "scale_input pool cells idle demand known shape free now"
  have "si_Autoscaling ?inp \<noteq> None"
  proof
    assume "si_Autoscaling ?inp = None"
    then have "DecideScale ?inp = hold_at (si_Replicas ?inp) ReasonIdle []"
      by (rule DecideScale_off [OF disjI1])
    with assms(2) show False by (simp add: hold_at_def)
  qed
  then obtain spec where spec: "si_Autoscaling ?inp = Some spec" by blast
  moreover have on: "as_Enabled spec"
  proof (rule ccontr)
    assume "\<not> as_Enabled spec"
    with spec have "DecideScale ?inp = hold_at (si_Replicas ?inp) ReasonIdle []"
      by (intro DecideScale_off [where spec = spec]) simp
    with assms(2) show False by (simp add: hold_at_def)
  qed
  moreover have "shrink_ok ?inp spec"
    using DecideScale_flags(2) [OF spec on] assms(2) by blast
  ultimately show ?thesis
    using that DecideScale_flags(3) [OF spec on] by (auto simp: scale_input_def shrink_ok_def)
qed

section \<open>Properties\<close>

text \<open>
  C12. An automatic scale-down removes one idle cell: for a pool not above its ceiling, whose rows
  have distinct indexes, in a pass with the workload cluster reachable, the planner drains exactly
  the first cell the idleness scan lists, it creates none, and the capacity provider saw nothing
  holding that cell's GPU.
\<close>

theorem autoscaler_removes_one_idle_cell:
  assumes "int (length cells) < 1073741824" and "distinct (map cs_Index cells)"
    and "idle = idleCells (provider_Allocations p) cells"
    and "in_i32 (sp_Replicas (po_Spec pool))" and "sp_Autoscaling (po_Spec pool) = Some spec"
    and "pred_option in_i32 (as_MinReplicas spec)" and "pred_option in_i32 (as_MaxReplicas spec)"
    and "0 \<le> scale_floor (scale_input pool cells idle demand known shape free now) spec"
    and "live_count cells \<le> scale_ceiling (scale_input pool cells idle demand known shape free now) spec"
    and "scaling_pass pool cells idle demand known shape free True ready now = (scale, plan)"
    and "sd_ScaledDown scale"
  shows "mp_Drain plan = [hd idle] \<and> mp_Create plan = [] \<and>
    (\<exists>c \<in> set cells. cs_Name c = hd idle \<and> cs_Phase c = CellPhaseReady \<and> \<not> provider_holder p (cs_NodeName c))"
proof -
  let ?inp = "scale_input pool cells idle demand known shape free now"
  let ?m = "membership_input pool cells scale free True ready now"
  have scale: "scale = DecideScale ?inp" and plan: "plan = PlanMembership ?m"
    using assms(10) by (auto simp: scaling_pass_def Let_def)
  have len: "length cells < 2147483648" using assms(1) by simp
  obtain on: "as_Enabled spec" and ne: "idle \<noteq> []" and pref: "sd_DrainCandidates scale = idle"
    and ok: "shrink_ok ?inp spec"
    using scaling_pass_shrink [OF len] assms(5,11) unfolding scale by (metis option.inject)
  have spec: "si_Autoscaling ?inp = Some spec" and live: "si_LiveCells ?inp = live_count cells"
    using assms(5) liveCells_live_count [OF len] by (simp_all add: scale_input_def)
  have sane: "sane_scale ?inp"
    using assms(4-7) by (simp add: sane_scale_def scale_input_def)
  have base: "scale_base ?inp spec = live_count cells"
    using ok assms(9) live by (auto simp: shrink_ok_def scale_base_def Let_def split: if_splits)
  have des: "sd_Desired scale = live_count cells - 1" "0 \<le> sd_Desired scale"
    using DecideScale_desired [OF sane spec on] ok base assms(8)
    by (auto simp: scale grow_ok_def shrink_ok_def)
  have sane_m: "sane_input ?m"
    using assms(1) des count_bounds(2) [of cells]
    by (auto simp: sane_input_def membership_input_def in_i64_def)
  obtain n ns where idle: "idle = n # ns" using ne by (cases idle) auto
  have mem: "n \<in> set (idleCells (provider_Allocations p) cells)"
    unfolding assms(3) [symmetric] idle by simp
  have "n \<in> cs_Name ` {c \<in> set cells. is_candidate c}"
    by (rule subsetD [OF idleCells_candidates mem])
  then have "take 1 (drain_order ?m) = [n]"
    by (intro drain_order_hd [of _ _ ns]) (simp_all add: membership_input_def pref idle)
  then have drain: "mp_Drain plan = [n]"
    using PlanMembership_drains [OF sane_m] assms(2) des(1) by (simp add: plan membership_input_def)
  moreover have "mp_Create plan = []"
    using PlanMembership_Create_eq [OF sane_m] des(1) by (simp add: plan membership_input_def)
  moreover have "\<exists>c \<in> set cells. cs_Name c = n \<and> cs_Phase c = CellPhaseReady \<and> \<not> provider_holder p (cs_NodeName c)"
    using hami.idle_not_held [OF mem] by blast
  ultimately show ?thesis by (simp add: idle)
qed

text \<open>
  The autoscaler grows by one cell: in a pass that scales up a pool between its floor and its
  ceiling, at most one cell is created and none is drained.
\<close>

theorem autoscaler_grows_by_one:
  assumes "int (length cells) < 1073741824" and "in_i32 (sp_Replicas (po_Spec pool))"
    and "sp_Autoscaling (po_Spec pool) = Some spec" and "as_Enabled spec"
    and "pred_option in_i32 (as_MinReplicas spec)" and "pred_option in_i32 (as_MaxReplicas spec)"
    and "scale_floor (scale_input pool cells idle demand known shape free now) spec \<le> live_count cells"
    and "scaling_pass pool cells idle demand known shape free reachable ready now = (scale, plan)"
    and "sd_ScaledUp scale"
  shows "sd_Desired scale = live_count cells + 1 \<and> length (mp_Create plan) \<le> 1 \<and> mp_Drain plan = []"
proof -
  let ?inp = "scale_input pool cells idle demand known shape free now"
  let ?m = "membership_input pool cells scale free reachable ready now"
  have scale: "scale = DecideScale ?inp" and plan: "plan = PlanMembership ?m"
    using assms(8) by (auto simp: scaling_pass_def Let_def)
  have len: "length cells < 2147483648" using assms(1) by simp
  have spec: "si_Autoscaling ?inp = Some spec" and live: "si_LiveCells ?inp = live_count cells"
    using assms(3) liveCells_live_count [OF len] by (simp_all add: scale_input_def)
  have sane: "sane_scale ?inp"
    using assms(2,3,5,6) by (simp add: sane_scale_def scale_input_def)
  have ok: "grow_ok ?inp spec"
    using assms(9) DecideScale_flags(1) [OF spec assms(4)] by (simp add: scale)
  then have base: "scale_base ?inp spec = live_count cells"
    using assms(7) live by (auto simp: grow_ok_def scale_base_def Let_def split: if_splits)
  have des: "sd_Desired scale = live_count cells + 1"
    using DecideScale_desired [OF sane spec assms(4)] ok base by (simp add: scale)
  have sane_m: "sane_input ?m"
    using assms(1) des count_bounds(1,2) [of cells]
    by (auto simp: sane_input_def membership_input_def in_i64_def)
  have cells: "mi_Cells ?m = cells" "mi_Desired ?m = live_count cells + 1"
    using des by (simp_all add: membership_input_def)
  have "quota ?m \<le> 1" using quota_le [of ?m] by (simp add: cells)
  then have "length (mp_Create plan) \<le> 1"
    using PlanMembership_Create_eq [OF sane_m] by (auto simp: plan lfi.alloc_indexes_length)
  moreover have "mp_Drain plan = []"
    using PlanMembership_grows(2) [OF sane_m] by (simp add: plan cells)
  ultimately show ?thesis using des by simp
qed

definition sample_scaled_pool :: GPUCellPool where
  "sample_scaled_pool = sample_pool\<lparr>
     po_Spec := (po_Spec sample_pool)\<lparr>sp_Autoscaling := Some sample_autoscaling\<rparr>,
     po_Status := (po_Status sample_pool)\<lparr>st_DemandFreeSince := Some 1\<rparr>\<rparr>"

definition sample_cells :: "CellStatus list" where
  "sample_cells = [sample_row ''p-0'' 0 CellPhaseReady\<lparr>cs_NodeName := ''p-0''\<rparr>,
     sample_row ''p-1'' 1 CellPhaseReady\<lparr>cs_NodeName := ''p-1''\<rparr>]"

lemmas pass_eval = sample_scaled_pool_def sample_cells_def sample_pool_def scale_input_def
  liveCells_def live_step_def wrap32_def

lemma sample_idle: "idleCells (provider_Allocations sample_dra) sample_cells = [''p-1'']"
  by (simp add: sample_cells_def sample_row_def provider_Allocations_def Empty_def dra_eval)

theorem autoscaler_removes_one_idle_cell_witness:
  "mp_Drain (snd (scaling_pass sample_scaled_pool sample_cells [''p-1''] zero_Demand True True None True True
     (1 + 40 * Minute))) = [''p-1'']"
proof -
  let ?inp = "scale_input sample_scaled_pool sample_cells [''p-1''] zero_Demand True True None (1 + 40 * Minute)"
  obtain scale plan where pass: "scaling_pass sample_scaled_pool sample_cells [''p-1''] zero_Demand True True None
      True True (1 + 40 * Minute) = (scale, plan)" by fastforce
  have "sd_ScaledDown (DecideScale ?inp)"
    by (simp add: scale_defs pass_eval sample_row_def scale_eval zero_Demand_def)
  then have "sd_ScaledDown scale" using pass by (simp add: scaling_pass_def Let_def)
  with autoscaler_removes_one_idle_cell [OF _ _ sample_idle [symmetric] _ _ _ _ _ _ pass, of sample_autoscaling] pass
  show ?thesis
    by (simp add: pass_eval sample_row_def scale_eval live_count_def cell_class)
qed

theorem autoscaler_grows_by_one_witness:
  "length (mp_Create (snd (scaling_pass sample_scaled_pool sample_cells []
      \<lparr>dm_PendingRequests = 5, dm_SatisfiableByOneCell = 5\<rparr> True True None True True 7))) \<le> 1"
proof -
  let ?d = "\<lparr>dm_PendingRequests = 5, dm_SatisfiableByOneCell = 5\<rparr>"
  obtain scale plan where pass: "scaling_pass sample_scaled_pool sample_cells [] ?d True True None True True 7 =
      (scale, plan)" by fastforce
  have "sd_ScaledUp (DecideScale (scale_input sample_scaled_pool sample_cells [] ?d True True None 7))"
    by (simp add: scale_defs pass_eval sample_row_def scale_eval)
  then have "sd_ScaledUp scale" using pass by (simp add: scaling_pass_def Let_def)
  with autoscaler_grows_by_one [OF _ _ _ _ _ _ _ pass, of sample_autoscaling] pass show ?thesis
    by (simp add: pass_eval sample_row_def scale_eval live_count_def cell_class)
qed


lemma sample_clock: "clock_reach [(1, zero_Demand, True, True)] (po_Status sample_scaled_pool)"
proof -
  let ?st = "po_Status sample_pool" and ?s = "hold_at 1 ReasonIdle []"
  have "clock_reach ([] @ [(1, zero_Demand, True, True)]) (stamp_scaling 1 zero_Demand True ?s ?st)"
    by (rule clock_reach.stored [OF clock_reach.start]) (simp add: sample_pool_def)
  moreover have "stamp_scaling 1 zero_Demand True ?s ?st = po_Status sample_scaled_pool"
    by (simp add: stamp_scaling_def sample_scaled_pool_def sample_pool_def zero_Demand_def hold_at_def Let_def)
  ultimately show ?thesis by simp
qed

lemma sample_shrinks:
  "sd_ScaledDown (DecideScale (scale_input sample_scaled_pool sample_cells [''p-1''] zero_Demand True True None (1 + 40 * Minute)))"
  by (simp add: scale_defs pass_eval sample_row_def scale_eval zero_Demand_def)


text \<open>
  What a lost pass hides: a pass in the middle of the window that reads demand and then fails does not
  reach the status, and a later pass shrinks the pool all the same.
\<close>

theorem lost_pass_hides_demand:
  "\<exists>hist. clock_reach hist (po_Status sample_scaled_pool) \<and>
     (1 + 20 * Minute, \<lparr>dm_PendingRequests = 5, dm_SatisfiableByOneCell = 5\<rparr>, True, False) \<in> set hist \<and>
     sd_ScaledDown (DecideScale (scale_input sample_scaled_pool sample_cells [''p-1''] zero_Demand True True None (1 + 40 * Minute)))"
  using clock_reach.lost [OF sample_clock] sample_shrinks by (meson in_set_conv_decomp)

text \<open>
  Above its ceiling a pool that shrinks drains more than one cell, busy ones included: with four
  Ready cells, a ceiling of two and one idle cell, the pass that announces the removal of one idle
  cell drains three, two of which are not idle.
\<close>

theorem shrink_above_ceiling_drains_busy_cells:
  "let cells = map (\<lambda>i. sample_row (Name ''p'' i) i CellPhaseReady) [0, 1, 2, 3];
       pool = sample_scaled_pool\<lparr>po_Spec := (po_Spec sample_scaled_pool)\<lparr>
         sp_Autoscaling := Some (sample_autoscaling\<lparr>as_MaxReplicas := Some 2\<rparr>)\<rparr>\<rparr>;
       (scale, plan) = scaling_pass pool cells [Name ''p'' 0] zero_Demand True True None True True (1 + 40 * Minute)
   in sd_Reason scale = ReasonScaledDown \<and> sd_DrainCandidates scale = [Name ''p'' 0] \<and> length (mp_Drain plan) = 3"
proof -
  let ?cells = "map (\<lambda>i. sample_row (Name ''p'' i) i CellPhaseReady) [0, 1, 2, 3]"
  let ?pool = "sample_scaled_pool\<lparr>po_Spec := (po_Spec sample_scaled_pool)\<lparr>
      sp_Autoscaling := Some (sample_autoscaling\<lparr>as_MaxReplicas := Some 2\<rparr>)\<rparr>\<rparr>"
  let ?scale = "DecideScale (scale_input ?pool ?cells [Name ''p'' 0] zero_Demand True True None (1 + 40 * Minute))"
  let ?m = "membership_input ?pool ?cells ?scale None True True (1 + 40 * Minute)"
  have scale: "sd_Desired ?scale = 1" "sd_Reason ?scale = ReasonScaledDown" "sd_DrainCandidates ?scale = [Name ''p'' 0]"
    by (simp_all add: scale_defs pass_eval sample_row_def scale_eval zero_Demand_def)
  have sane: "sane_input ?m" and dist: "distinct (map cs_Index (mi_Cells ?m))"
    and live: "live_count (mi_Cells ?m) = 4"
    using scale(1) by (simp_all add: sane_input_def membership_input_def in_i64_def sample_row_def live_count_def cell_class)
  have names: "inj_on (Name ''p'') {0, 1, 2, 3}" by (auto intro!: inj_onI dest: Name_inj_index)
  have "set (drain_order ?m) = Name ''p'' ` {0, 1, 2, 3}"
    by (simp add: set_drain_order membership_input_def sample_row_def is_candidate_def)
  moreover have "distinct (drain_order ?m)" by (simp add: drain_order_def Let_def)
  ultimately have "length (drain_order ?m) = 4"
    using card_image [OF names] distinct_card [of "drain_order ?m"] by simp
  then have "length (mp_Drain (PlanMembership ?m)) = 3"
    using PlanMembership_drains [OF sane dist] live scale(1) by (simp add: membership_input_def)
  then show ?thesis
    using scale by (simp add: scaling_pass_def Let_def)
qed

text \<open>
  A created cell is new and is found again: the name of every index the planner creates is the
  name of no guest of the pool, the names of one plan differ, and each parses back to its index,
  so the next pass rediscovers exactly the cells this one made.
\<close>

theorem created_cells_are_new:
  assumes "sane_input inp" and "\<forall>c \<in> set (mi_Cells inp). cs_Name c = Name pool (cs_Index c)"
  shows "distinct (map (Name pool) (mp_Create (PlanMembership inp))) \<and>
    (\<forall>i \<in> set (mp_Create (PlanMembership inp)).
       Name pool i \<notin> cs_Name ` {c \<in> set (mi_Cells inp). occupies c} \<and> ParseIndex pool (Name pool i) = Inr i)"
proof (cases "mp_Create (PlanMembership inp) = []")
  case False
  let ?used = "map cs_Index (filter occupies (mi_Cells inp))"
  have eq: "mp_Create (PlanMembership inp) = alloc_indexes LowestFreeIndex (nat (quota inp)) ?used"
    using False PlanMembership_Create_eq [OF assms(1)] by (auto split: if_splits)
  have bound: "length ?used + nat (quota inp) < 2147483648"
    by (rule create_room [OF assms(1)])
  note spec = lfi.alloc_indexes_spec [OF bound, folded eq]
  have range: "0 \<le> i \<and> i < 2147483648" if i: "i \<in> set (mp_Create (PlanMembership inp))" for i
  proof -
    have "i < int (length ?used + nat (quota inp))"
      using lfi.alloc_indexes_bound [OF bound, folded eq] i by blast
    with bound have "i < 2147483648" by linarith
    with spec i show ?thesis by blast
  qed
  have "inj_on (Name pool) (set (mp_Create (PlanMembership inp)))"
    by (rule inj_onI) (rule Name_inj_index)
  then have "distinct (map (Name pool) (mp_Create (PlanMembership inp)))"
    using spec by (simp add: distinct_map)
  moreover have "Name pool i \<notin> cs_Name ` {c \<in> set (mi_Cells inp). occupies c}"
    if i: "i \<in> set (mp_Create (PlanMembership inp))" for i
  proof
    assume "Name pool i \<in> cs_Name ` {c \<in> set (mi_Cells inp). occupies c}"
    then obtain c where c: "c \<in> set (mi_Cells inp)" "occupies c" "Name pool i = cs_Name c" by blast
    then have "i = cs_Index c" using assms(2) Name_inj_index by simp
    with c have "i \<in> set ?used" by auto
    with spec i show False by blast
  qed
  ultimately show ?thesis using range ParseIndex_Name_nonneg by blast
qed simp

theorem created_cells_are_new_witness:
  "sane_input (sample_input 3 [sample_row (Name ''p'' 1) 1 CellPhaseReady]) \<and>
   distinct (map (Name ''p'') (mp_Create (PlanMembership (sample_input 3 [sample_row (Name ''p'' 1) 1 CellPhaseReady]))))"
  using created_cells_are_new [of "sample_input 3 [sample_row (Name ''p'' 1) 1 CellPhaseReady]" "''p''"]
  by (simp add: sample_eval)

end
