(* ===== verification/OuterCalls.thy ===== *)
theory OuterCalls
  imports Effects
begin

text \<open>
  The requests the provisioners make of the infrastructure cluster's API server, and the helpers
  of \<^verbatim>\<open>internal/provisioner\<close> that both provisioners use. A Create answers with the object as the
  server stored it.
\<close>

definition get_object :: "Env \<Rightarrow> GroupVersionKind \<Rightarrow> string \<Rightarrow> string \<Rightarrow> Unstructured result io" where
  "get_object env gvk ns name = call (\<lambda>tr. en_GetObject env tr gvk ns name) (EvGetObject gvk ns name)"

definition create_object :: "Env \<Rightarrow> Unstructured \<Rightarrow> Unstructured result io" where
  "create_object env obj = call (\<lambda>tr. en_CreateObject env tr obj) (EvCreateObject obj)"

definition update_object :: "Env \<Rightarrow> Unstructured \<Rightarrow> unit result io" where
  "update_object env obj = call (\<lambda>tr. en_UpdateObject env tr obj) (EvUpdateObject obj)"

definition delete_object :: "Env \<Rightarrow> GroupVersionKind \<Rightarrow> string \<Rightarrow> string \<Rightarrow> unit result io" where
  "delete_object env gvk ns name = call (\<lambda>tr. en_DeleteObject env tr gvk ns name) (EvDeleteObject gvk ns name)"

definition remove_object :: "Env \<Rightarrow> string \<Rightarrow> GroupVersionKind \<Rightarrow> string \<Rightarrow> string \<Rightarrow> unit result io" where
  \<comment> \<open>a Delete for which an object that is gone already is no error\<close>
  "remove_object env msg gvk ns name = do {
     r \<leftarrow> delete_object env gvk ns name;
     ret (case r of Inl e \<Rightarrow> if IsNotFound e then Inr () else Inl (Wrapped msg e) | Inr _ \<Rightarrow> Inr ()) }"

definition listCellNames :: "Env \<Rightarrow> GroupVersionKind \<Rightarrow> string \<Rightarrow> string \<Rightarrow> string list result io" where
  \<comment> \<open>the objects of one kind that carry the pool's label\<close>
  "listCellNames env gvk ns pool =
     attempt (wrapping (''listing cell '' @ gk_Kind gvk @ ''s'')
       (call (\<lambda>tr. en_ListObjects env tr gvk ns pool) (EvListObjects gvk ns pool)))
       (\<lambda>items. ret (Inr (map un_Name items)))"

definition withoutDrainFinalizer :: "string list \<Rightarrow> string list \<times> bool" where
  "withoutDrainFinalizer fs = (filter (\<lambda>f. f \<noteq> FinalizerCellDrain) fs, FinalizerCellDrain \<in> set fs)"

definition clear_finalizer :: "Env \<Rightarrow> GroupVersionKind \<Rightarrow> string \<Rightarrow> CellRequest \<Rightarrow> unit result io" where
  \<comment> \<open>the body the two \<^verbatim>\<open>ClearDrainFinalizer\<close> share; \<open>what\<close> is how the message names the object\<close>
  "clear_finalizer env gvk what req = do {
     r \<leftarrow> get_object env gvk (cr_Namespace req) (cr_CellName req);
     case r of
       Inl e \<Rightarrow>
         if IsNotFound e then ret (Inr ())
         else ret (Inl (Wrapped (''reading '' @ gk_Kind gvk @ '' '' @ cr_CellName req) e))
     | Inr obj \<Rightarrow>
         (let kf = withoutDrainFinalizer (un_Finalizers obj)
          in if \<not> snd kf then ret (Inr ())
             else wrapping (''clearing drain finalizer on '' @ what @ cr_CellName req)
                    (update_object env (obj\<lparr>un_Finalizers := fst kf\<rparr>))) }"

fun conditionMessage_loop :: "json list \<Rightarrow> string" where
  "conditionMessage_loop [] = []"
| "conditionMessage_loop (raw # conds) =
     (case raw of
        JObj m \<Rightarrow>
          (let status = as_string (map_of m ''status''); msg = as_string (map_of m ''message'');
               reason = as_string (map_of m ''reason'')
           in if status = ''True'' then conditionMessage_loop conds
              else if msg \<noteq> [] \<and> reason \<noteq> [] then reason @ '': '' @ msg
              else if msg \<noteq> [] then msg
              else if reason \<noteq> [] then reason
              else conditionMessage_loop conds)
      | _ \<Rightarrow> conditionMessage_loop conds)"

definition conditionMessage :: "Unstructured \<Rightarrow> string" where
  "conditionMessage obj =
     (case NestedSlice (un_Object obj) [''status'', ''conditions''] of
        None \<Rightarrow> [] | Some conds \<Rightarrow> conditionMessage_loop conds)"

definition created_at :: "Unstructured \<Rightarrow> gotime option" where
  "created_at obj = (if IsZero (un_CreationTimestamp obj) then None else un_CreationTimestamp obj)"

end
