(* ===== verification/SwiftGuest.thy ===== *)
theory SwiftGuest
  imports OuterCalls
begin

text \<open>
  \<^verbatim>\<open>internal/provisioner/swiftguest.go\<close>: a cell as a SwiftGuest VM with its seed profile. The methods
  of the provisioner carry the prefix \<open>sg\<close>.
\<close>

definition SwiftGuestGVK :: GroupVersionKind where
  "SwiftGuestGVK = \<lparr>gk_Group = ''swift.kubeswift.io'', gk_Version = ''v1alpha1'', gk_Kind = ''SwiftGuest''\<rparr>"

definition SwiftSeedProfileGVK :: GroupVersionKind where
  "SwiftSeedProfileGVK = \<lparr>gk_Group = ''seed.kubeswift.io'', gk_Version = ''v1alpha1'', gk_Kind = ''SwiftSeedProfile''\<rparr>"

section \<open>Reading a guest\<close>

fun interface_address :: "string \<Rightarrow> json list \<Rightarrow> string" where
  "interface_address want [] = []"
| "interface_address want (raw # ifaces) =
     (case raw of
        JObj m \<Rightarrow> if as_string (map_of m ''name'') = want then as_string (map_of m ''ip'')
                  else interface_address want ifaces
      | _ \<Rightarrow> interface_address want ifaces)"

definition address :: "Unstructured \<Rightarrow> string \<Rightarrow> string" where
  "address guest nodeIPFrom =
     (if nodeIPFrom \<noteq> [] then
        (case NestedSlice (un_Object guest) [''status'', ''network'', ''interfaces''] of
           None \<Rightarrow> [] | Some ifaces \<Rightarrow> interface_address nodeIPFrom ifaces)
      else NestedString (un_Object guest) [''status'', ''network'', ''primaryIP''])"

definition observe :: "Unstructured \<Rightarrow> string \<Rightarrow> OuterState" where
  "observe guest nodeIPFrom =
     (let obj = un_Object guest;
          phase = NestedString obj [''status'', ''phase''];
          gpuHost = NestedString obj [''status'', ''gpu'', ''nodeName''];
          routable = address guest nodeIPFrom;
          addr = (if routable = [] then NestedString obj [''status'', ''network'', ''primaryIP''] else routable);
          st = zero_OuterState\<lparr>os_Exists := True, os_UID := un_UID guest, os_CreatedAt := created_at guest,
                 os_TemplateHash := smap_get (un_Annotations guest) AnnotationTemplateHash, os_Phase := phase,
                 os_HostNode := (if gpuHost = [] then NestedString obj [''status'', ''nodeName''] else gpuHost),
                 os_GPUDevices := (case NestedStringSlice obj [''status'', ''gpu'', ''devices''] of
                                     None \<Rightarrow> [] | Some devs \<Rightarrow> devs),
                 os_RoutableAddress := routable, os_Address := addr\<rparr>
      in if phase = ''Failed'' then
           st\<lparr>os_Failed := True, os_Reason := ReasonCellProvisionTimeout,
              os_Message := (if conditionMessage guest = [] then ''SwiftGuest reported phase Failed''
                             else conditionMessage guest)\<rparr>
         else if phase = ''Running'' then st\<lparr>os_Provisioned := addr \<noteq> []\<rparr>
         else st)"

section \<open>The objects of a cell\<close>

definition seed_object :: "CellRequest \<Rightarrow> Unstructured" where
  "seed_object req = (newUnstructured SwiftSeedProfileGVK)\<lparr>un_Namespace := cr_Namespace req,
     un_Name := SeedName (cr_CellName req), un_Labels := GuestLabels (cr_Pool req) (cr_Index req),
     un_OwnerReferences := cr_OwnerRefs req, un_Object := [(''spec'', JObj (renderSeedSpec req))]\<rparr>"

definition guest_object :: "CellRequest \<Rightarrow> any_map \<Rightarrow> Unstructured" where
  "guest_object req spec = (newUnstructured SwiftGuestGVK)\<lparr>un_Namespace := cr_Namespace req,
     un_Name := cr_CellName req, un_Labels := GuestLabels (cr_Pool req) (cr_Index req),
     un_Annotations := [(AnnotationTemplateHash, cr_TemplateHash req)], un_OwnerReferences := cr_OwnerRefs req,
     un_Finalizers := [FinalizerCellDrain], un_Object := [(''spec'', JObj spec)]\<rparr>"

definition ensureSeedProfile :: "Env \<Rightarrow> CellRequest \<Rightarrow> unit result io" where
  "ensureSeedProfile env req = do {
     r \<leftarrow> get_object env SwiftSeedProfileGVK (cr_Namespace req) (SeedName (cr_CellName req));
     case r of
       Inr existing \<Rightarrow> ret (Inr ())
     | Inl e \<Rightarrow>
         if \<not> IsNotFound e then ret (Inl e)
         else attempt (create_object env (seed_object req)) (\<lambda>_. ret (Inr ())) }"

definition ensureGuest :: "Env \<Rightarrow> CellRequest \<Rightarrow> Unstructured result io" where
  "ensureGuest env req = do {
     r \<leftarrow> get_object env SwiftGuestGVK (cr_Namespace req) (cr_CellName req);
     case r of
       Inr existing \<Rightarrow> ret (Inr existing)
     | Inl e \<Rightarrow>
         if \<not> IsNotFound e then ret (Inl e)
         else (case renderGuestSpec req of
                 Inl err \<Rightarrow> ret (Inl err)
               | Inr spec \<Rightarrow> create_object env (guest_object req spec)) }"

section \<open>The provisioner\<close>

definition sg_List :: "Env \<Rightarrow> string \<Rightarrow> string \<Rightarrow> string list result io" where
  "sg_List env ns pool = listCellNames env SwiftGuestGVK ns pool"

definition sg_Ensure :: "Env \<Rightarrow> CellRequest \<Rightarrow> OuterState result io" where
  "sg_Ensure env req =
     attempt (wrapping ''ensuring SwiftSeedProfile'' (ensureSeedProfile env req)) (\<lambda>_.
     attempt (wrapping ''ensuring SwiftGuest'' (ensureGuest env req)) (\<lambda>guest.
       ret (Inr (observe guest (cr_NodeIPFrom req)))))"

definition sg_Delete :: "Env \<Rightarrow> CellRequest \<Rightarrow> bool result io" where
  "sg_Delete env req = do {
     r \<leftarrow> get_object env SwiftGuestGVK (cr_Namespace req) (cr_CellName req);
     case r of
       Inr guest \<Rightarrow>
         attempt
           (if IsZero (un_DeletionTimestamp guest)
            then remove_object env (''deleting SwiftGuest '' @ cr_CellName req) SwiftGuestGVK
                   (un_Namespace guest) (un_Name guest)
            else ret (Inr ())) (\<lambda>_. ret (Inr False))
     | Inl e \<Rightarrow>
         if \<not> IsNotFound e then ret (Inl (Wrapped (''reading SwiftGuest '' @ cr_CellName req) e))
         else attempt (remove_object env (''deleting SwiftSeedProfile for '' @ cr_CellName req) SwiftSeedProfileGVK
                         (cr_Namespace req) (SeedName (cr_CellName req))) (\<lambda>_. ret (Inr True)) }"

definition sg_ClearDrainFinalizer :: "Env \<Rightarrow> CellRequest \<Rightarrow> unit result io" where
  "sg_ClearDrainFinalizer env req = clear_finalizer env SwiftGuestGVK [] req"

end
