(* ===== verification/ClusterApi.thy ===== *)
theory ClusterApi
  imports SwiftGuest
begin

text \<open>
  \<^verbatim>\<open>internal/provisioner/clusterapi.go\<close>: a cell as a Cluster API Machine with its KubeSwiftMachine and,
  where the pool names a template for it, its bootstrap config. The methods of the provisioner
  carry the prefix \<open>capi\<close>.
\<close>

definition MachineGVK :: GroupVersionKind where
  "MachineGVK = \<lparr>gk_Group = ''cluster.x-k8s.io'', gk_Version = ''v1beta2'', gk_Kind = ''Machine''\<rparr>"

definition KubeSwiftMachineGVK :: GroupVersionKind where
  "KubeSwiftMachineGVK =
     \<lparr>gk_Group = ''infrastructure.cluster.x-k8s.io'', gk_Version = ''v1alpha1'', gk_Kind = ''KubeSwiftMachine''\<rparr>"

abbreviation clusterNameLabel :: string where "clusterNameLabel \<equiv> ''cluster.x-k8s.io/cluster-name''"
abbreviation bootstrapTemplateVersion :: string where "bootstrapTemplateVersion \<equiv> ''v1beta2''"

section \<open>Pure helpers\<close>

definition TrimSuffix :: "string \<Rightarrow> string \<Rightarrow> string" where
  "TrimSuffix s x = (if suffix x s then take (length s - length x) s else s)"

definition bootstrapConfigGVK :: "ClusterAPIObjectRef \<Rightarrow> GroupVersionKind" where
  "bootstrapConfigGVK ref = \<lparr>gk_Group = car_APIGroup ref, gk_Version = bootstrapTemplateVersion,
     gk_Kind = TrimSuffix (car_Kind ref) ''Template''\<rparr>"

definition bootstrapTemplateRef :: "CellRequest \<Rightarrow> ClusterAPIObjectRef option" where
  "bootstrapTemplateRef req =
     (case cr_ClusterAPI req of None \<Rightarrow> None | Some cfg \<Rightarrow> ca_BootstrapConfigTemplateRef cfg)"

definition coOwnerRefs :: "OwnerReference list \<Rightarrow> OwnerReference list" where
  "coOwnerRefs refs = map (\<lambda>r. r\<lparr>or_Controller := None, or_BlockOwnerDeletion := None\<rparr>) refs"

definition capi_labels :: "CellRequest \<Rightarrow> CellClusterAPISpec \<Rightarrow> smap" where
  "capi_labels req cfg = AList.update clusterNameLabel (ca_ClusterName cfg) (GuestLabels (cr_Pool req) (cr_Index req))"

definition parseKubeSwiftProviderID :: "string \<Rightarrow> string \<times> string" where
  \<comment> \<open>the text after the prefix, cut at its first slash\<close>
  "parseKubeSwiftProviderID provider_id =
     (let pfx = ''kubeswift://'' in
      if \<not> HasPrefix provider_id pfx then ([], [])
      else let s = drop (length pfx) provider_id;
               ns = takeWhile (\<lambda>c. c \<noteq> CHR ''/'') s; rest = dropWhile (\<lambda>c. c \<noteq> CHR ''/'') s
           in if rest = [] \<or> ns = [] \<or> tl rest = [] then ([], []) else (ns, tl rest))"

fun nestedRefName :: "any_map \<Rightarrow> string \<Rightarrow> string" where
  "nestedRefName tmpl field = (case map_of tmpl field of Some (JObj ref) \<Rightarrow> as_string (map_of ref ''name'') | _ \<Rightarrow> [])"

fun interface_networks :: "json list \<Rightarrow> string \<times> string \<Rightarrow> string \<times> string" where
  "interface_networks [] ps = ps"
| "interface_networks (raw # ifaces) (primary, secondary) =
     (case raw of
        JObj m \<Rightarrow>
          (let net = nestedRefName m ''networkRef''; isPrimary = (map_of m ''primary'' = Some (JBool True))
           in interface_networks ifaces
                (if net = [] then (primary, secondary)
                 else if isPrimary \<and> primary = [] then (net, secondary)
                 else if \<not> isPrimary \<and> secondary = [] then (primary, net)
                 else (primary, secondary)))
      | _ \<Rightarrow> interface_networks ifaces (primary, secondary))"

definition interfaceNetworks :: "any_map \<Rightarrow> string \<times> string" where
  "interfaceNetworks tmpl =
     (case map_of tmpl ''interfaces'' of Some (JArr ifaces) \<Rightarrow> interface_networks ifaces ([], []) | _ \<Rightarrow> ([], []))"

definition gpu_tail :: "GPUBinding \<Rightarrow> any_map \<Rightarrow> any_map" where
  "gpu_tail g out = put_nonempty ''hugepages'' (gb_Hugepages g) (put_nonempty ''tier'' (gb_Tier g) out)"

definition machineGPU :: "GPUBinding \<Rightarrow> any_map option" where
  "machineGPU g =
     (if gb_Backend g = GPUBackendDRA then
        (if gb_ResourceClaimTemplateName g \<noteq> []
         then Some (gpu_tail g (put_nonempty ''requestName'' (gb_RequestName g)
                [(''resourceClaimTemplateName'', JStr (gb_ResourceClaimTemplateName g))]))
         else if gb_ResourceClaimName g \<noteq> []
         then Some (gpu_tail g (put_nonempty ''requestName'' (gb_RequestName g)
                [(''resourceClaimName'', JStr (gb_ResourceClaimName g))]))
         else None)
      else if gb_Backend g = GPUBackendNative then
        (if gb_GPUProfileName g = [] then None
         else Some (gpu_tail g [(''gpuProfileRef'', JStr (gb_GPUProfileName g))]))
      else None)"

definition renderMachineBackend :: "CellRequest \<Rightarrow> any_map result" where
  "renderMachineBackend req =
     (case (if cr_GuestTemplate req = [] then Inr [] else Unmarshal decode_any_map (cr_GuestTemplate req)) of
        Inl e \<Rightarrow> Inl (Wrapped ''parsing guestTemplate'' e)
      | Inr tmpl \<Rightarrow>
          (let sg = put_nonempty ''imageRef'' (nestedRefName tmpl ''imageRef'') [];
               sg = put_nonempty ''guestClassRef'' (nestedRefName tmpl ''guestClassRef'') sg;
               sg = put_nonempty ''networkRef'' (fst (interfaceNetworks tmpl)) sg;
               sg = put_nonempty ''nodeNetworkRef'' (snd (interfaceNetworks tmpl)) sg;
               sg = (case machineGPU (cr_GPU req) of None \<Rightarrow> sg | Some gpu \<Rightarrow> put ''gpu'' (JObj gpu) sg)
           in Inr [(''type'', JStr ''SwiftGuest''), (''swiftGuest'', JObj sg)]))"

section \<open>The objects of a cell\<close>

definition capi_object :: "GroupVersionKind \<Rightarrow> CellRequest \<Rightarrow> CellClusterAPISpec \<Rightarrow> any_map \<Rightarrow> Unstructured" where
  \<comment> \<open>what the three objects have in common\<close>
  "capi_object gvk req cfg spec = (newUnstructured gvk)\<lparr>un_Namespace := cr_Namespace req, un_Name := cr_CellName req,
     un_Labels := capi_labels req cfg, un_OwnerReferences := coOwnerRefs (cr_OwnerRefs req),
     un_Object := [(''spec'', JObj spec)]\<rparr>"

definition infra_object :: "CellRequest \<Rightarrow> CellClusterAPISpec \<Rightarrow> any_map \<Rightarrow> Unstructured" where
  "infra_object req cfg backend = (capi_object KubeSwiftMachineGVK req cfg [(''backend'', JObj backend)])
     \<lparr>un_Annotations := [(AnnotationTemplateHash, cr_TemplateHash req)]\<rparr>"

definition machine_spec :: "CellRequest \<Rightarrow> CellClusterAPISpec \<Rightarrow> ClusterAPIObjectRef option \<Rightarrow> any_map" where
  "machine_spec req cfg bootstrapRef =
     put_nonempty ''version'' (ca_Version cfg)
       [(''clusterName'', JStr (ca_ClusterName cfg)),
        (''bootstrap'', JObj (case bootstrapRef of
           Some r \<Rightarrow> [(''configRef'', JObj [(''apiGroup'', JStr (car_APIGroup r)), (''kind'', JStr (car_Kind r)),
                       (''name'', JStr (car_Name r))])]
         | None \<Rightarrow> [(''dataSecretName'', JStr (cr_BootstrapSecretName req))])),
        (''infrastructureRef'', JObj [(''apiGroup'', JStr (gk_Group KubeSwiftMachineGVK)),
           (''kind'', JStr (gk_Kind KubeSwiftMachineGVK)), (''name'', JStr (cr_CellName req))])]"

definition machine_object :: "CellRequest \<Rightarrow> CellClusterAPISpec \<Rightarrow> ClusterAPIObjectRef option \<Rightarrow> Unstructured" where
  "machine_object req cfg bootstrapRef = (capi_object MachineGVK req cfg (machine_spec req cfg bootstrapRef))
     \<lparr>un_Annotations := [(AnnotationTemplateHash, cr_TemplateHash req)], un_Finalizers := [FinalizerCellDrain]\<rparr>"

definition ensureBootstrapConfig :: "Env \<Rightarrow> CellRequest \<Rightarrow> CellClusterAPISpec \<Rightarrow> ClusterAPIObjectRef option result io" where
  "ensureBootstrapConfig env req cfg =
     (case bootstrapTemplateRef req of
        None \<Rightarrow> ret (Inr None)
      | Some tmplRef \<Rightarrow>
          (let gvk = bootstrapConfigGVK tmplRef; ns = cr_Namespace req; name = cr_CellName req;
               ref = \<lparr>car_APIGroup = gk_Group gvk, car_Kind = gk_Kind gvk, car_Name = name\<rparr>;
               tmplGVK = \<lparr>gk_Group = car_APIGroup tmplRef, gk_Version = bootstrapTemplateVersion, gk_Kind = car_Kind tmplRef\<rparr>;
               which = car_Kind tmplRef @ ''/'' @ car_Name tmplRef
           in do {
             r \<leftarrow> get_object env gvk ns name;
             case r of
               Inr existing \<Rightarrow> ret (Inr (Some ref))
             | Inl e \<Rightarrow>
                 if \<not> IsNotFound e then ret (Inl e)
                 else
                   attempt (wrapping (''reading bootstrap template '' @ which) (get_object env tmplGVK ns (car_Name tmplRef))) (\<lambda>tmpl.
                   case NestedMap (un_Object tmpl) [''spec'', ''template'', ''spec''] of
                     None \<Rightarrow> ret (Inl (Errorf (''bootstrap template '' @ which @ '' has no spec.template.spec'')))
                   | Some spec \<Rightarrow>
                       attempt (create_object env (capi_object gvk req cfg spec)) (\<lambda>_. ret (Inr (Some ref)))) }))"

definition ensureInfraMachine :: "Env \<Rightarrow> CellRequest \<Rightarrow> CellClusterAPISpec \<Rightarrow> unit result io" where
  "ensureInfraMachine env req cfg = do {
     r \<leftarrow> get_object env KubeSwiftMachineGVK (cr_Namespace req) (cr_CellName req);
     case r of
       Inr existing \<Rightarrow> ret (Inr ())
     | Inl e \<Rightarrow>
         if \<not> IsNotFound e then ret (Inl e)
         else (case renderMachineBackend req of
                 Inl err \<Rightarrow> ret (Inl err)
               | Inr backend \<Rightarrow> attempt (create_object env (infra_object req cfg backend)) (\<lambda>_. ret (Inr ()))) }"

definition ensureMachine ::
  "Env \<Rightarrow> CellRequest \<Rightarrow> CellClusterAPISpec \<Rightarrow> ClusterAPIObjectRef option \<Rightarrow> Unstructured result io" where
  "ensureMachine env req cfg bootstrapRef = do {
     r \<leftarrow> get_object env MachineGVK (cr_Namespace req) (cr_CellName req);
     case r of
       Inr existing \<Rightarrow> ret (Inr existing)
     | Inl e \<Rightarrow>
         if \<not> IsNotFound e then ret (Inl e)
         else create_object env (machine_object req cfg bootstrapRef) }"

section \<open>Reading a Machine\<close>

definition providerID :: "Env \<Rightarrow> CellRequest \<Rightarrow> string io" where
  "providerID env req = do {
     i \<leftarrow> get_object env KubeSwiftMachineGVK (cr_Namespace req) (cr_CellName req);
     let from_infra = (case i of Inr infra \<Rightarrow> NestedString (un_Object infra) [''spec'', ''providerID''] | Inl e \<Rightarrow> []);
     if from_infra \<noteq> [] then ret from_infra
     else do {
       m \<leftarrow> get_object env MachineGVK (cr_Namespace req) (cr_CellName req);
       ret (case m of Inr machine \<Rightarrow> NestedString (un_Object machine) [''spec'', ''providerID''] | Inl e \<Rightarrow> []) } }"

definition machine_state :: "Unstructured \<Rightarrow> OuterState" where
  \<comment> \<open>what the Machine itself says\<close>
  "machine_state machine =
     (let phase = NestedString (un_Object machine) [''status'', ''phase''];
          st = zero_OuterState\<lparr>os_Exists := True, os_UID := un_UID machine, os_CreatedAt := created_at machine,
                 os_TemplateHash := smap_get (un_Annotations machine) AnnotationTemplateHash, os_Phase := phase\<rparr>
      in if phase = ''Failed'' then
           st\<lparr>os_Failed := True, os_Reason := ReasonCellProvisionTimeout,
              os_Message := (if conditionMessage machine = [] then ''Cluster API Machine reported phase Failed''
                             else conditionMessage machine)\<rparr>
         else st)"

definition with_guest :: "OuterState \<Rightarrow> OuterState \<Rightarrow> OuterState" where
  \<comment> \<open>the Machine's state completed with what the backing guest says\<close>
  "with_guest st g =
     (let st = st\<lparr>os_GPUDevices := os_GPUDevices g, os_HostNode := os_HostNode g, os_Address := os_Address g,
                 os_RoutableAddress := os_RoutableAddress g, os_Provisioned := os_Provisioned g\<rparr>
      in if os_Failed g then st\<lparr>os_Failed := True, os_Reason := os_Reason g, os_Message := os_Message g\<rparr> else st)"

definition observeMachine :: "Env \<Rightarrow> CellRequest \<Rightarrow> Unstructured \<Rightarrow> OuterState result io" where
  "observeMachine env req machine =
     (let st = machine_state machine in
      if os_Phase st \<notin> {''Provisioned'', ''Running'', ''Updating''} then ret (Inr st)
      else do {
        guest_id \<leftarrow> providerID env req;
        let (guestNS, guestName) = parseKubeSwiftProviderID guest_id;
        if guestName = [] then ret (Inr st)
        else do {
          r \<leftarrow> get_object env SwiftGuestGVK guestNS guestName;
          ret (case r of
                 Inl e \<Rightarrow> if IsNotFound e then Inr st
                          else Inl (Wrapped (''reading backing SwiftGuest '' @ guestNS @ ''/'' @ guestName) e)
               | Inr guest \<Rightarrow> Inr (with_guest st (observe guest (cr_NodeIPFrom req)))) } })"

section \<open>The provisioner\<close>

definition capi_List :: "Env \<Rightarrow> string \<Rightarrow> string \<Rightarrow> string list result io" where
  "capi_List env ns pool = listCellNames env MachineGVK ns pool"

definition capi_Ensure :: "Env \<Rightarrow> CellRequest \<Rightarrow> OuterState result io" where
  "capi_Ensure env req =
     (case cr_ClusterAPI req of
        None \<Rightarrow> ret (Inl (Errorf (''cell '' @ cr_CellName req @ '': provisioner ClusterAPI needs spec.cell.clusterAPI'')))
      | Some cfg \<Rightarrow>
          attempt (wrapping (''ensuring bootstrap config for '' @ cr_CellName req) (ensureBootstrapConfig env req cfg)) (\<lambda>bootstrapRef.
          attempt (wrapping (''ensuring KubeSwiftMachine '' @ cr_CellName req) (ensureInfraMachine env req cfg)) (\<lambda>_.
          attempt (wrapping (''ensuring Machine '' @ cr_CellName req) (ensureMachine env req cfg bootstrapRef)) (\<lambda>machine.
            observeMachine env req machine))))"

definition capi_Delete :: "Env \<Rightarrow> CellRequest \<Rightarrow> bool result io" where
  "capi_Delete env req = do {
     r \<leftarrow> get_object env MachineGVK (cr_Namespace req) (cr_CellName req);
     attempt
       (case r of
          Inr machine \<Rightarrow>
            if IsZero (un_DeletionTimestamp machine)
            then remove_object env (''deleting Machine '' @ cr_CellName req) MachineGVK (un_Namespace machine) (un_Name machine)
            else ret (Inr ())
        | Inl e \<Rightarrow>
            if \<not> IsNotFound e then ret (Inl (Wrapped (''reading Machine '' @ cr_CellName req) e)) else ret (Inr ())) (\<lambda>_.
     let machineGone = (case r of Inl e \<Rightarrow> IsNotFound e | Inr _ \<Rightarrow> False) in
     attempt (remove_object env (''deleting KubeSwiftMachine '' @ cr_CellName req) KubeSwiftMachineGVK
                (cr_Namespace req) (cr_CellName req)) (\<lambda>_.
     attempt
       (case bootstrapTemplateRef req of
          None \<Rightarrow> ret (Inr ())
        | Some ref \<Rightarrow> remove_object env (''deleting bootstrap config '' @ cr_CellName req) (bootstrapConfigGVK ref)
                        (cr_Namespace req) (cr_CellName req)) (\<lambda>_.
     ret (Inr machineGone)))) }"

definition capi_ClearDrainFinalizer :: "Env \<Rightarrow> CellRequest \<Rightarrow> unit result io" where
  "capi_ClearDrainFinalizer env req = clear_finalizer env MachineGVK ''Machine '' req"

end
