(* ===== verification/Reconciler.thy ===== *)
theory Reconciler
  imports NodeWrites ScalingPass ClusterApi
begin

text \<open>
  \<^verbatim>\<open>GPUCellPoolReconciler\<close> of \<^verbatim>\<open>internal/controller/controller.go\<close>, every method that reads or writes
  one of the two clusters, in the state monad of \<open>Effects\<close>. The seams for tests (\<^verbatim>\<open>NewProvisioner\<close>,
  \<^verbatim>\<open>NewProvider\<close>, \<^verbatim>\<open>Inventory\<close>) are at their defaults, so the capacity provider is the HAMi model. An
  \<open>inner\<close> client is \<open>Some\<close> exactly when the workload cluster was reached, which is when the code also
  has a provider. The provisioner is one of the two of \<open>SwiftGuest\<close> and \<open>ClusterApi\<close>, by its name.
\<close>

abbreviation requeueProgressing :: duration where "requeueProgressing \<equiv> 30 * Second"
abbreviation requeueSteady :: duration where "requeueSteady \<equiv> 2 * Minute"

abbreviation EventTypeNormal :: string where "EventTypeNormal \<equiv> ''Normal''"
abbreviation EventTypeWarning :: string where "EventTypeWarning \<equiv> ''Warning''"

section \<open>Clients, providers and provisioners\<close>

definition get_secret :: "Env \<Rightarrow> string \<Rightarrow> string \<Rightarrow> Secret result io" where
  "get_secret env ns name = call (\<lambda>tr. en_GetSecret env tr ns name) (EvGetSecret ns name)"

definition workloadClient :: "Env \<Rightarrow> GPUCellPool \<Rightarrow> (client option \<times> string \<times> string) io" where
  "workloadClient env pool =
     (let ns = po_Namespace pool; name = wc_KubeconfigSecretRef (sp_WorkloadCluster (po_Spec pool)) in do {
        r \<leftarrow> get_secret env ns name;
        case r of
          Inl e \<Rightarrow> ret (None, if \<not> IsNotFound e then ReasonUnreachable else ReasonCredentialInvalid,
                     ''reading kubeconfig secret '' @ ns @ ''/'' @ name @ '': '' @ error_text e)
        | Inr secret \<Rightarrow> do {
            c \<leftarrow> client_for env (clientKey pool) secret (wc_Key (sp_WorkloadCluster (po_Spec pool)));
            case c of
              Inl e \<Rightarrow> ret (None, ReasonCredentialInvalid, error_text e)
            | Inr cs \<Rightarrow> do {
                p \<leftarrow> call (\<lambda>tr. en_Probe env tr cs) (\<lambda>_. EvRead ''Probe'');
                case p of
                  Inl e \<Rightarrow> ret (None, ClassifyError (Some e), error_text e)
                | Inr _ \<Rightarrow> ret (Some cs, ReasonConnected, []) } } })"

definition provider :: "Env \<Rightarrow> GPUCellPool \<Rightarrow> client \<Rightarrow> event list \<Rightarrow> HAMiProvider" where
  \<comment> \<open>the provider, answering with what the workload cluster says after these calls\<close>
  "provider env pool cs tr = NewHAMiProvider (en_HAMi env tr cs) (hamiMode pool) (hamiDeviceClass pool)"

definition provisioner :: "GPUCellPool \<Rightarrow> string result" where
  "provisioner pool =
     (let name = ce_Provisioner (sp_Cell (po_Spec pool)) in
      if name = [] \<or> name = ProvisionerSwiftGuest then Inr ProvisionerSwiftGuest
      else if name = ProvisionerClusterAPI then Inr ProvisionerClusterAPI
      else Inl (Errorf (''unknown cell provisioner '' @ go_quote name)))"

text \<open>A call of the pool's provisioner, between the event of its start and the event of its return.\<close>

definition by_name :: "string \<Rightarrow> 'a \<Rightarrow> 'a \<Rightarrow> 'a" where
  "by_name prov swiftguest clusterapi = (if prov = ProvisionerClusterAPI then clusterapi else swiftguest)"

definition bracket :: "prov_call \<Rightarrow> 'a io \<Rightarrow> ('a \<Rightarrow> event) \<Rightarrow> 'a io" where
  "bracket ask m ev = do { emit (EvAsk ask); r \<leftarrow> m; emit (ev r); ret r }"

definition prov_List :: "Env \<Rightarrow> string \<Rightarrow> GPUCellPool \<Rightarrow> string list result io" where
  "prov_List env prov pool = do {
     r \<leftarrow> by_name prov sg_List capi_List env (po_Namespace pool) (po_Name pool);
     emit (EvList (po_Name pool) r);
     ret r }"

definition prov_Ensure :: "Env \<Rightarrow> string \<Rightarrow> CellRequest \<Rightarrow> OuterState result io" where
  "prov_Ensure env prov req = bracket (AskEnsure req) (by_name prov sg_Ensure capi_Ensure env req) (EvEnsure req)"

definition prov_Delete :: "Env \<Rightarrow> string \<Rightarrow> CellRequest \<Rightarrow> bool result io" where
  "prov_Delete env prov req = bracket (AskDelete req) (by_name prov sg_Delete capi_Delete env req) (EvDelete req)"

definition prov_ClearDrainFinalizer :: "Env \<Rightarrow> string \<Rightarrow> CellRequest \<Rightarrow> unit result io" where
  \<comment> \<open>both provisioners implement \<^verbatim>\<open>DrainFinalizerClearer\<close>\<close>
  "prov_ClearDrainFinalizer env prov req =
     bracket (AskClear req) (by_name prov sg_ClearDrainFinalizer capi_ClearDrainFinalizer env req)
       (EvClearDrainFinalizer req)"

definition failureEventReason :: "string \<Rightarrow> string" where
  "failureEventReason reason = (if reason = [] then ReasonCellProvisionTimeout else reason)"

section \<open>Creating a cell\<close>

definition cellRequest :: "Env \<Rightarrow> GPUCellPool \<Rightarrow> i32 \<Rightarrow> CellRequest" where
  "cellRequest env pool idx =
     (let name = Name (po_Name pool) idx; cell = sp_Cell (po_Spec pool); gpu = ce_GPU cell;
          backend = (if gs_Backend gpu = [] then GPUBackendDRA else gs_Backend gpu);
          binding = \<lparr>gb_Backend = backend, gb_ResourceClaimTemplateName = [], gb_ResourceClaimName = [],
            gb_RequestName = [], gb_Tier = [], gb_Hugepages = [], gb_GPUProfileName = []\<rparr>;
          binding = (case gs_DRA gpu of
                       None \<Rightarrow> binding
                     | Some dra \<Rightarrow> binding\<lparr>gb_ResourceClaimTemplateName := gd_ResourceClaimTemplateName dra,
                         gb_ResourceClaimName := gd_ResourceClaimName dra, gb_RequestName := gd_RequestName dra,
                         gb_Tier := gd_Tier dra, gb_Hugepages := gd_Hugepages dra\<rparr>);
          binding = (case gs_Native gpu of
                       None \<Rightarrow> binding
                     | Some n \<Rightarrow> binding\<lparr>gb_GPUProfileName := gn_GPUProfileRef n\<rparr>)
      in \<lparr>cr_Pool = po_Name pool, cr_Namespace = po_Namespace pool, cr_Index = idx, cr_CellName = name,
          cr_GuestTemplate = ce_GuestTemplate cell, cr_GPU = binding,
          cr_BootstrapSecretName = BootstrapSecretName name, cr_BootstrapSecretKey = SecretKey,
          cr_Hostname = (if bs_Hostname (sp_Bootstrap (po_Spec pool)) = ''None'' then [] else name),
          cr_NodeIPFrom = ce_NodeIPFrom cell, cr_SpreadPolicy = ce_SpreadPolicy cell,
          cr_ClusterAPI = ce_ClusterAPI cell,
          cr_TemplateHash = TemplateHash (en_sha256 env) [ce_GuestTemplate cell],
          cr_OwnerRefs = [NewControllerRef pool]\<rparr>)"

definition bootstrap_values :: "GPUCellPool \<Rightarrow> i32 \<Rightarrow> Values" where
  "bootstrap_values pool idx =
     \<lparr>va_CellName = Name (po_Name pool) idx, va_PoolName = po_Name pool,
      va_NodeLabels = NodeLabelArg (NodeLabels (po_Name pool) idx [] (nodeLabels pool)),
      va_NodeIPInterface = ce_NodeIPFrom (sp_Cell (po_Spec pool)), va_ExpectedGPUs = expectedDevices pool\<rparr>"

definition bootstrap_secret :: "GPUCellPool \<Rightarrow> i32 \<Rightarrow> string \<Rightarrow> Secret" where
  "bootstrap_secret pool idx rendered =
     \<lparr>se_Namespace = po_Namespace pool, se_Name = BootstrapSecretName (Name (po_Name pool) idx),
      se_Labels = GuestLabels (po_Name pool) idx, se_Owners = [NewControllerRef pool],
      se_Data = [(SecretKey, rendered), (CAPISecretKey, rendered)], se_ResourceVersion = []\<rparr>"

definition store_bootstrap :: "Env \<Rightarrow> Secret \<Rightarrow> string \<Rightarrow> unit result io" where
  \<comment> \<open>create the per-cell Secret, or rewrite it when its content differs\<close>
  "store_bootstrap env desired rendered = do {
     r \<leftarrow> get_secret env (se_Namespace desired) (se_Name desired);
     case r of
       Inl e \<Rightarrow>
         if IsNotFound e then call (\<lambda>tr. en_CreateSecret env tr desired) (EvCreateSecret desired)
         else ret (Inl (Wrapped (''reading bootstrap secret '' @ se_Name desired) e))
     | Inr existing \<Rightarrow>
         if smap_get (se_Data existing) SecretKey = rendered then ret (Inr ())
         else let s = existing\<lparr>se_Data := se_Data desired\<rparr>
              in call (\<lambda>tr. en_UpdateSecret env tr s) (EvUpdateSecret s) }"

definition ensureBootstrapSecret :: "Env \<Rightarrow> GPUCellPool \<Rightarrow> i32 \<Rightarrow> unit result io" where
  "ensureBootstrapSecret env pool idx =
     (if capiOwnsBootstrap pool then ret (Inr ())
      else case bs_JoinSecretRef (sp_Bootstrap (po_Spec pool)) of
        None \<Rightarrow> ret (Inl (Errorf (''spec.bootstrap.joinSecretRef is required for the '' @
                  BootstrapProviderOpaque @ '' provider'')))
      | Some ref \<Rightarrow>
          (let ns = po_Namespace pool; given = bs_JoinSecretKey (sp_Bootstrap (po_Spec pool));
               srcKey = (if given = [] then SecretKey else given)
           in attempt (wrapping (''reading join secret '' @ ns @ ''/'' @ ref) (get_secret env ns ref)) (\<lambda>src.
                case map_of (se_Data src) srcKey of
                  None \<Rightarrow> ret (Inl (Errorf (''join secret '' @ ns @ ''/'' @ ref @ '' has no '' @ go_quote srcKey @ '' key'')))
                | Some tmpl \<Rightarrow>
                    (case Render tmpl (bootstrap_values pool idx) of
                       Inl e \<Rightarrow> ret (Inl (Wrapped (''rendering cloud-init for cell '' @ Name (po_Name pool) idx) e))
                     | Inr rendered \<Rightarrow> store_bootstrap env (bootstrap_secret pool idx rendered) rendered))))"

definition createCell :: "Env \<Rightarrow> GPUCellPool \<Rightarrow> string \<Rightarrow> i32 \<Rightarrow> unit result io" where
  "createCell env pool prov idx =
     (case ValidatePool (en_dns1123 env) (po_Name pool) of
        Some err \<Rightarrow> ret (Inl (Errorf (pool_name_text err)))
      | None \<Rightarrow>
          attempt (ensureBootstrapSecret env pool idx) (\<lambda>_.
          attempt (prov_Ensure env prov (cellRequest env pool idx)) (\<lambda>_. ret (Inr ()))))"

section \<open>Discovering the cells\<close>

definition provider_health :: "Env \<Rightarrow> GPUCellPool \<Rightarrow> client \<Rightarrow> string list \<Rightarrow> Health result io" where
  "provider_health env pool cs nodes = call (\<lambda>tr. provider_Health (provider env pool cs tr) nodes) (\<lambda>_. EvRead ''Health'')"

definition provider_devices :: "Env \<Rightarrow> GPUCellPool \<Rightarrow> client \<Rightarrow> string \<Rightarrow> goint result io" where
  "provider_devices env pool cs name = call (\<lambda>tr. provider_Devices (provider env pool cs tr) name) (\<lambda>_. EvRead ''Devices'')"

definition provider_allocations :: "Env \<Rightarrow> GPUCellPool \<Rightarrow> client \<Rightarrow> string \<Rightarrow> Allocations result io" where
  "provider_allocations env pool cs name =
     call (\<lambda>tr. provider_Allocations (provider env pool cs tr) name) (EvAllocations cs name)"

definition ok :: "'a result \<Rightarrow> 'a option" where
  "ok r = (case r of Inl e \<Rightarrow> None | Inr x \<Rightarrow> Some x)"

definition stale_node :: "NodeState \<Rightarrow> OuterState \<Rightarrow> bool" where
  "stale_node node outer \<longleftrightarrow> ns_Exists node \<and> \<not> ns_KubeletLive node \<and> IsStaleNode (ns_Labels node) (os_UID outer)"

definition read_inner ::
  "Env \<Rightarrow> GPUCellPool \<Rightarrow> client option \<Rightarrow> string \<Rightarrow> i32 \<Rightarrow> OuterState \<Rightarrow> InnerReading option result io" where
  "read_inner env pool inner name idx outer =
     (case inner of
        None \<Rightarrow> ret (Inr None)
      | Some cs \<Rightarrow>
          attempt (wrapping (''cell '' @ name) (get_node_state env cs name)) (\<lambda>node.
          attempt
            (if ns_Exists node \<and> \<not> stale_node node outer
             then wrapping (''cell '' @ name @ '' node metadata'')
                    (EnsureNodeMetadata env cs name (NodeLabels (po_Name pool) idx (os_UID outer) (nodeLabels pool))
                       (nodeAnnotations pool) (nodeTaints pool))
             else ret (Inr False)) (\<lambda>_.
          if ns_Exists node \<and> ns_Ready node
          then do {
            h \<leftarrow> provider_health env pool cs [name];
            d \<leftarrow> provider_devices env pool cs name;
            ret (Inr (Some \<lparr>in_Node = node, in_Health = ok h, in_Devices = ok d\<rparr>)) }
          else ret (Inr (Some \<lparr>in_Node = node, in_Health = None, in_Devices = None\<rparr>)))))"

definition row_metrics :: "GPUCellPool \<Rightarrow> CellStatus \<Rightarrow> OuterState \<Rightarrow> Decision \<Rightarrow> gotime \<Rightarrow> event list" where
  \<comment> \<open>the transition counter and the startup histogram of \<^verbatim>\<open>cellStatus\<close>\<close>
  "row_metrics pool prev outer dec now =
     (if cs_Phase prev \<noteq> de_Phase dec \<or> cs_LastTransitionTime prev = None
      then (if cs_Phase prev \<noteq> PhaseUnset
            then [EvMetric CellTransitionsTotal [po_Name pool, po_Namespace pool, phase_label (cs_Phase prev),
                    phase_label (de_Phase dec)] 1]
            else []) @
           (case os_CreatedAt outer of
              None \<Rightarrow> []
            | Some created \<Rightarrow>
                if de_Phase dec = CellPhaseReady \<and> cs_Phase prev \<noteq> CellPhaseReady \<and> created \<noteq> 0 \<and> \<not> cs_ReadyOnce prev
                then [EvMetric CellStartupSeconds [po_Name pool, po_Namespace pool] (sub_time now created)] else [])
      else [])"

definition discover_cell ::
  "Env \<Rightarrow> GPUCellPool \<Rightarrow> string \<Rightarrow> client option \<Rightarrow> CellStatus \<Rightarrow> string \<Rightarrow> i32 \<Rightarrow> CellStatus result io" where
  "discover_cell env pool prov inner row name idx =
     attempt (ensureBootstrapSecret env pool idx) (\<lambda>_.
     attempt (wrapping (''observing cell '' @ name) (prov_Ensure env prov (cellRequest env pool idx))) (\<lambda>outer.
     attempt (read_inner env pool inner name idx outer) (\<lambda>reading.
       let prev = previous_row row outer;
           obs = observation_of pool prev outer reading (en_now env);
           dec = AdvanceCell obs;
           new = cellStatus prev name idx outer obs dec (en_now env)
       in attempt
            (case inner of
               None \<Rightarrow> ret (Inr ())
             | Some cs \<Rightarrow>
                 if de_ReapStaleNode dec
                 then attempt (wrapping (''reaping stale node for '' @ name) (DeleteNode env cs name)) (\<lambda>_. do {
                        emit (EvEvent EventTypeWarning ReasonNodeNameCollision
                          (''removed a workload Node left by a previous incarnation of cell '' @ name));
                        ret (Inr ()) })
                 else ret (Inr ())) (\<lambda>_. do {
            emit_all (row_metrics pool prev outer dec (en_now env));
            emit_all (if cs_Phase new = CellPhaseFailed \<and> cs_Phase prev \<noteq> CellPhaseFailed
                      then [EvEvent EventTypeWarning (failureEventReason (cs_Reason new))
                              (''cell '' @ name @ '' failed (attempt '' @ FormatInt (cs_FailureCount new) @ ''): '' @
                               cs_Message new)]
                      else []);
            ret (Inr new) }))))"

text \<open>The rows of the last status by name, a later row winning; an unknown name has a zero row.\<close>

definition previous_rows :: "CellStatus list \<Rightarrow> (string \<times> CellStatus) list" where
  "previous_rows cells = foldl (\<lambda>m c. AList.update (cs_Name c) c m) [] cells"

definition previous_of :: "(string \<times> CellStatus) list \<Rightarrow> string \<Rightarrow> CellStatus" where
  "previous_of m name = (case map_of m name of None \<Rightarrow> zero_CellStatus | Some c \<Rightarrow> c)"

text \<open>
  The rows of failed cells whose guest is gone. Go ranges over the map in no fixed order, but the
  rows are sorted by index afterwards, so the order only shows between rows of one index.
\<close>

definition tombstones :: "i32 \<Rightarrow> (string \<times> CellStatus) list \<Rightarrow> string list \<Rightarrow> CellStatus list" where
  "tombstones replicas previous live =
     map (\<lambda>(name, prev). prev\<lparr>cs_GuestUID := [], cs_NodeName := [], cs_Devices := [], cs_CapacityDevices := 0\<rparr>)
       (filter (\<lambda>(name, prev). name \<notin> set live \<and> cs_Phase prev = CellPhaseFailed \<and> cs_Index prev < replicas) previous)"

definition reapOrphanNodes :: "Env \<Rightarrow> GPUCellPool \<Rightarrow> client \<Rightarrow> string list \<Rightarrow> unit result io" where
  "reapOrphanNodes env pool cs keep = do {
     r \<leftarrow> list_pool_nodes env cs (po_Name pool);
     case r of
       Inl e \<Rightarrow> ret (Inr ())
     | Inr nodes \<Rightarrow>
         attempt (each (\<lambda>(name, node).
           if name \<in> set keep \<or> ns_KubeletLive node then ret (Inr ())
           else attempt (wrapping (''removing orphan node '' @ name) (DeleteNode env cs name)) (\<lambda>_. do {
                  emit (EvEvent EventTypeNormal ReasonNodeNameCollision
                    (''removed workload Node '' @ name @ '': it carries this pool's label, '' @
                     ''belongs to no current cell, and no kubelet is heartbeating for it''));
                  ret (Inr ()) })) nodes) (\<lambda>_. ret (Inr ())) }"

definition discoverCells :: "Env \<Rightarrow> GPUCellPool \<Rightarrow> string \<Rightarrow> client option \<Rightarrow> CellStatus list result io" where
  "discoverCells env pool prov inner =
     (let previous = previous_rows (st_Cells (po_Status pool)) in
      attempt (prov_List env prov pool) (\<lambda>guests.
      attempt (each (\<lambda>name.
        case ParseIndex (po_Name pool) name of
          Inl e \<Rightarrow> ret (Inr [])
        | Inr idx \<Rightarrow>
            attempt (discover_cell env pool prov inner (previous_of previous name) name idx) (\<lambda>row. ret (Inr [row])))
        (sort guests)) (\<lambda>found.
        let live = concat found;
            out = live @ tombstones (sp_Replicas (po_Spec pool)) previous (map cs_Name live)
        in attempt (case inner of None \<Rightarrow> ret (Inr ()) | Some cs \<Rightarrow> reapOrphanNodes env pool cs (map cs_Name out))
             (\<lambda>_. ret (Inr (sort_key cs_Index out))))))"

section \<open>Draining and deleting a cell\<close>

definition deleteCell :: "Env \<Rightarrow> GPUCellPool \<Rightarrow> string \<Rightarrow> CellStatus \<Rightarrow> bool \<Rightarrow> unit result io" where
  "deleteCell env pool prov cell reapNode =
     (let req = cellRequest env pool (cs_Index cell) in
      attempt
        (if reapNode then do {
           c \<leftarrow> workloadClient env pool;
           case fst c of None \<Rightarrow> ret (Inr ()) | Some cs \<Rightarrow> DeleteNode env cs (cs_Name cell) }
         else ret (Inr ())) (\<lambda>_.
      attempt (prov_ClearDrainFinalizer env prov req) (\<lambda>_.
      attempt (prov_Delete env prov req) (\<lambda>_. ret (Inr ())))))"

definition progressDrain ::
  "Env \<Rightarrow> GPUCellPool \<Rightarrow> string \<Rightarrow> client option \<Rightarrow> CellStatus \<Rightarrow> bool \<Rightarrow> gotime \<Rightarrow> CellStatus result io" where
  "progressDrain env pool prov inner cell poolDeleting drainingSince =
     attempt
       (case inner of
          None \<Rightarrow> ret (Inr None)
        | Some cs \<Rightarrow>
            attempt (Cordon env cs (cs_Name cell)) (\<lambda>_. do {
              a \<leftarrow> provider_allocations env pool cs (cs_Name cell);
              ret (Inr (ok a)) })) (\<lambda>reading.
       let dec = AdvanceDrain (case reading of None \<Rightarrow> zero_Allocations | Some a \<Rightarrow> a) (reading \<noteq> None) poolDeleting
                   (deletionPolicy pool = DeletionPolicyForce) drainingSince (en_now env) (drainTimeout pool);
           cell = cell\<lparr>cs_Reason := dd_Reason dec, cs_Message := dd_Message dec\<rparr>
       in if \<not> dd_Proceed dec then ret (Inr cell)
          else attempt (deleteCell env pool prov cell True) (\<lambda>_. ret (Inr cell)))"

section \<open>Deleting the pool\<close>

definition drain_row :: "GPUCellPool \<Rightarrow> gotime \<Rightarrow> string \<Rightarrow> i32 \<Rightarrow> CellStatus" where
  \<comment> \<open>the row a deletion drains: the last row of that name, put into Draining\<close>
  "drain_row pool now name idx =
     (let cell = foldl (\<lambda>c r. if cs_Name r = name then r else c)
            (zero_CellStatus\<lparr>cs_Name := name, cs_Index := idx, cs_Phase := CellPhaseDraining\<rparr>)
            (st_Cells (po_Status pool))
      in if cs_Phase cell \<noteq> CellPhaseDraining
         then cell\<lparr>cs_Phase := CellPhaseDraining, cs_LastTransitionTime := Some now\<rparr> else cell)"

definition writeDrainStatus :: "Env \<Rightarrow> GPUCellPool \<Rightarrow> CellStatus list \<Rightarrow> unit io" where
  "writeDrainStatus env pool rs =
     (let st = (po_Status pool)\<lparr>st_Cells := rs, st_Replicas := wrap32 (int (length rs)), st_ReadyCells := 0,
            st_CreatingCells := 0, st_DrainingCells := wrap32 (int (length rs))\<rparr>;
          pool = pool\<lparr>po_Status := st\<rparr>
      in do { r \<leftarrow> call (\<lambda>tr. en_UpdateStatus env tr pool) (EvUpdateStatus pool); ret () })"

definition reconcileDeletion :: "Env \<Rightarrow> GPUCellPool \<Rightarrow> string \<Rightarrow> duration result io" where
  "reconcileDeletion env pool prov = do {
     c \<leftarrow> workloadClient env pool;
     attempt (prov_List env prov pool) (\<lambda>guests.
       if guests \<noteq> [] then
         (let since = transitionOr (po_DeletionTimestamp pool) (en_now env) in
          attempt (each (\<lambda>name.
            case ParseIndex (po_Name pool) name of
              Inl e \<Rightarrow> ret (Inr [])
            | Inr idx \<Rightarrow>
                attempt (progressDrain env pool prov (fst c) (drain_row pool (en_now env) name idx) True since)
                  (\<lambda>row. ret (Inr [row]))) guests) (\<lambda>drained. do {
            writeDrainStatus env pool (concat drained);
            ret (Inr requeueProgressing) }))
       else
         attempt
           (if FinalizerPool \<in> set (po_Finalizers pool)
            then (let p = pool\<lparr>po_Finalizers := filter (\<lambda>f. f \<noteq> FinalizerPool) (po_Finalizers pool)\<rparr>
                  in wrapping ''removing pool finalizer'' (call (\<lambda>tr. en_UpdatePool env tr p) (EvUpdatePool p)))
            else ret (Inr pool)) (\<lambda>_. do {
           forget_client (clientKey pool);
           emit (EvForgetPool (po_Namespace pool) (po_Name pool));
           ret (Inr 0) })) }"

section \<open>A pass over a live pool\<close>

record Readings =
  rg_cap0 :: Capacity
  rg_capacityKnown :: bool
  rg_health :: Health
  rg_demand :: Demand
  rg_demandKnown :: bool
  rg_shape :: "Device option"

definition zero_Readings :: Readings where
  "zero_Readings = \<lparr>rg_cap0 = zero_Capacity, rg_capacityKnown = False,
     rg_health = \<lparr>he_Ready = False, he_Reason = [], he_Message = []\<rparr>, rg_demand = zero_Demand,
     rg_demandKnown = False, rg_shape = None\<rparr>"

definition scrape_error :: "GPUCellPool \<Rightarrow> string \<Rightarrow> 'a result \<Rightarrow> event list" where
  "scrape_error pool what r =
     (case r of Inl e \<Rightarrow> [EvMetric CapacityScrapeErrorsTotal [po_Name pool, po_Namespace pool, what] 1] | Inr x \<Rightarrow> [])"

definition read_demand :: "Env \<Rightarrow> GPUCellPool \<Rightarrow> client \<Rightarrow> Readings \<Rightarrow> Readings io" where
  "read_demand env pool cs rg =
     (if \<not> autoscalingEnabled pool then ret rg
      else let shape = CellShape (rg_cap0 rg) (st_CellDeviceShape (po_Status pool)) in do {
        d \<leftarrow> call (\<lambda>tr. provider_PendingDemand (provider env pool cs tr) shape) (\<lambda>_. EvRead ''PendingDemand'');
        emit_all (scrape_error pool ''demand'' d);
        ret (case d of
               Inl e \<Rightarrow> rg\<lparr>rg_shape := shape\<rparr>
             | Inr dm \<Rightarrow> rg\<lparr>rg_shape := shape, rg_demand := dm, rg_demandKnown := True\<rparr>) })"

definition read_capacity :: "Env \<Rightarrow> GPUCellPool \<Rightarrow> client option \<Rightarrow> CellStatus list \<Rightarrow> Readings io" where
  "read_capacity env pool inner cells =
     (case inner of
        None \<Rightarrow> ret zero_Readings
      | Some cs \<Rightarrow> (let nodes = readyNodeNames cells in do {
          h \<leftarrow> provider_health env pool cs nodes;
          c \<leftarrow> call (\<lambda>tr. provider_Capacity (provider env pool cs tr) nodes) (\<lambda>_. EvRead ''Capacity'');
          emit_all (scrape_error pool ''capacity'' c);
          let health = (case h of
                          Inl e \<Rightarrow> \<lparr>he_Ready = False, he_Reason = ReasonHAMiNotDetected, he_Message = error_text e\<rparr>
                        | Inr x \<Rightarrow> x);
          let rg = zero_Readings\<lparr>rg_health := health\<rparr>;
          read_demand env pool cs
            (case c of Inl e \<Rightarrow> rg | Inr cap \<Rightarrow> rg\<lparr>rg_cap0 := cap, rg_capacityKnown := True\<rparr>) }))"

definition remember_shape :: "gotime \<Rightarrow> Capacity \<Rightarrow> GPUCellPool \<Rightarrow> GPUCellPool" where
  "remember_shape now cap0 pool =
     (case RememberShape (ReferenceDevice cap0) now of
        None \<Rightarrow> pool
      | Some s \<Rightarrow> pool\<lparr>po_Status := (po_Status pool)\<lparr>st_CellDeviceShape := Some s\<rparr>\<rparr>)"

definition read_idle :: "Env \<Rightarrow> GPUCellPool \<Rightarrow> client option \<Rightarrow> CellStatus list \<Rightarrow> string list io" where
  "read_idle env pool inner cells =
     (case inner of
        None \<Rightarrow> ret []
      | Some cs \<Rightarrow>
          if needsIdleness pool
          then call (\<lambda>tr. idleCells (provider_Allocations (provider env pool cs tr)) cells) (\<lambda>_. EvRead ''idleCells'')
          else ret [])"

definition scale_events :: "GPUCellPool \<Rightarrow> ScaleDecision \<Rightarrow> event list" where
  "scale_events pool scale =
     (if autoscalingEnabled pool
      then [EvMetric ScaleDecisionsTotal [po_Name pool, po_Namespace pool, sd_Reason scale,
              if sd_ScaledUp scale then ''true'' else ''false''] 1]
      else []) @
     (if sd_ScaledUp scale then [EvEvent EventTypeNormal (sd_Reason scale) (sd_Message scale)] else []) @
     (if sd_ScaledDown scale then [EvEvent EventTypeNormal (sd_Reason scale) (sd_Message scale)] else [])"

definition create_cells :: "Env \<Rightarrow> GPUCellPool \<Rightarrow> string \<Rightarrow> i32 list \<Rightarrow> unit list result io" where
  "create_cells env pool prov idxs =
     each (\<lambda>idx. attempt (createCell env pool prov idx) (\<lambda>_. do {
       emit (EvEvent EventTypeNormal ReasonCellCreating (''creating cell '' @ Name (po_Name pool) idx));
       ret (Inr ()) })) idxs"

definition replace_failed :: "Env \<Rightarrow> GPUCellPool \<Rightarrow> string \<Rightarrow> bool \<Rightarrow> CellStatus list \<Rightarrow> unit list result io" where
  "replace_failed env pool prov providerReady cells =
     each (\<lambda>c. if ShouldReplace c (en_now env) providerReady then deleteCell env pool prov c False else ret (Inr ())) cells"

definition drain_cells ::
  "Env \<Rightarrow> GPUCellPool \<Rightarrow> string \<Rightarrow> client option \<Rightarrow> CellStatus list \<Rightarrow> CellStatus list result io" where
  "drain_cells env pool prov inner cells =
     each (\<lambda>c. if cs_Phase c \<noteq> CellPhaseDraining then ret (Inr c)
               else progressDrain env pool prov inner c False (transitionOr (cs_LastTransitionTime c) (en_now env))) cells"

definition rollout_input ::
  "Env \<Rightarrow> GPUCellPool \<Rightarrow> CellStatus list \<Rightarrow> string list \<Rightarrow> bool \<Rightarrow> ScaleDecision \<Rightarrow> MembershipPlan \<Rightarrow> RolloutInput" where
  "rollout_input env pool cells idle reachable scale plan =
     \<lparr>ri_Policy = sp_UpdatePolicy (po_Spec pool),
      ri_DesiredHash = TemplateHash (en_sha256 env) [ce_GuestTemplate (sp_Cell (po_Spec pool))],
      ri_Cells = cells, ri_IdleCells = idle, ri_WorkloadReachable = reachable,
      ri_AtDesiredSize = (liveCells cells = sd_Desired scale \<and> mp_Create plan = [])\<rparr>"

definition act ::
  "Env \<Rightarrow> GPUCellPool \<Rightarrow> string \<Rightarrow> client option \<Rightarrow> bool \<Rightarrow> string list \<Rightarrow> ScaleDecision \<Rightarrow> MembershipPlan \<Rightarrow>
   CellStatus list \<Rightarrow> (CellStatus list \<times> RolloutDecision) result io" where
  \<comment> \<open>what a pass does about the cells, in the order of the code\<close>
  "act env pool prov inner providerReady idle scale plan cells =
     attempt (create_cells env pool prov (mp_Create plan)) (\<lambda>_.
     attempt (if 0 < length (mp_Create plan) then discoverCells env pool prov inner else ret (Inr cells)) (\<lambda>cells. do {
       emit_all (map (\<lambda>n. EvEvent EventTypeNormal ReasonCellDraining (''draining cell '' @ n)) (mp_Drain plan));
       let cells = foldl (\<lambda>cs n. markDraining cs n (en_now env)) cells (mp_Drain plan);
       attempt (replace_failed env pool prov providerReady cells) (\<lambda>_.
         let rollout = PlanRollout (rollout_input env pool cells idle (inner \<noteq> None) scale plan);
             cells = (if rr_Drain rollout \<noteq> [] then markDraining cells (rr_Drain rollout) (en_now env) else cells)
         in do {
           emit_all (if rr_Drain rollout \<noteq> [] then [EvEvent EventTypeNormal (rr_Reason rollout) (rr_Message rollout)] else []);
           attempt (drain_cells env pool prov inner cells) (\<lambda>cells. ret (Inr (cells, rollout))) }) }))"

definition requeue_after :: "CellStatus list \<Rightarrow> MembershipPlan \<Rightarrow> duration" where
  "requeue_after cells plan =
     (let n = CountCells cells;
          requeue = (if 0 < co_creating n \<or> 0 < co_draining n \<or> 0 < length (mp_Create plan)
                     then requeueProgressing else requeueSteady)
      in if 0 < mp_RequeueAfter plan \<and> mp_RequeueAfter plan < requeue then mp_RequeueAfter plan else requeue)"

text \<open>What a pass has read and decided when it starts to act.\<close>

record PassDecision =
  pd_pool :: GPUCellPool
  pd_cells :: "CellStatus list"
  pd_freeGPUs :: "goint option"
  pd_readings :: Readings
  pd_idle :: "string list"
  pd_scale :: ScaleDecision
  pd_plan :: MembershipPlan

definition decide_pass :: "Env \<Rightarrow> GPUCellPool \<Rightarrow> string \<Rightarrow> client option \<Rightarrow> PassDecision result io" where
  "decide_pass env pool0 prov inner =
      attempt (discoverCells env pool0 prov inner) (\<lambda>cells0. do {
       freeGPUs \<leftarrow> call (\<lambda>tr. free_of (physicalInventory (en_Outer env tr) pool0)) (\<lambda>_. EvRead ''Inventory'');
       rg \<leftarrow> read_capacity env pool0 inner cells0;
       let pool1 = remember_shape (en_now env) (rg_cap0 rg) pool0;
       emit (EvMetric WorkloadClusterReachable [po_Name pool1, po_Namespace pool1] (if inner \<noteq> None then 1 else 0));
       idle \<leftarrow> read_idle env pool1 inner cells0;
       let scale = DecideScale (scale_input pool1 cells0 idle (rg_demand rg) (rg_demandKnown rg)
                     (rg_shape rg \<noteq> None) freeGPUs (en_now env));
       emit_all (scale_events pool1 scale);
       let pool2 = pool1\<lparr>po_Status := stamp_scaling (en_now env) (rg_demand rg) (rg_demandKnown rg) scale (po_Status pool1)\<rparr>;
       let plan = PlanMembership (membership_input pool2 cells0 scale freeGPUs (inner \<noteq> None)
                    (he_Ready (rg_health rg)) (en_now env));
       ret (Inr \<lparr>pd_pool = pool2, pd_cells = cells0, pd_freeGPUs = freeGPUs, pd_readings = rg, pd_idle = idle,
                 pd_scale = scale, pd_plan = plan\<rparr>) })"

definition finish_pass :: "Env \<Rightarrow> string \<Rightarrow> client option \<times> string \<times> string \<Rightarrow> PassDecision \<Rightarrow> duration result io" where
  "finish_pass env prov c pd =
     (let inner = fst c; rg = pd_readings pd in
      attempt (act env (pd_pool pd) prov inner (he_Ready (rg_health rg)) (pd_idle pd) (pd_scale pd) (pd_plan pd) (pd_cells pd))
        (\<lambda>(cells, rollout).
         let pool3 = writeStatus (en_setStatusCondition env) (en_now env) (pd_pool pd) cells (pd_plan pd) (pd_scale pd) rollout
               (rg_demand rg) (rg_demandKnown rg) (pd_freeGPUs pd) (rg_health rg) (rg_cap0 rg) (rg_capacityKnown rg) (inner \<noteq> None)
               (fst (snd c)) (snd (snd c))
         in do {
           emit (EvGauges (po_Name pool3) (po_Namespace pool3)
             (publishMetrics cells (pd_scale pd) (pd_freeGPUs pd) (rg_cap0 rg) (rg_capacityKnown rg)));
           attempt (wrapping ''updating status'' (call (\<lambda>tr. en_UpdateStatus env tr pool3) (EvUpdateStatus pool3)))
             (\<lambda>_. ret (Inr (requeue_after cells (pd_plan pd)))) }))"

definition reconcile_with :: "Env \<Rightarrow> GPUCellPool \<Rightarrow> string \<Rightarrow> client option \<times> string \<times> string \<Rightarrow> duration result io" where
  \<comment> \<open>the pass, once it is known whether and how the workload cluster is reached\<close>
  "reconcile_with env pool0 prov c = attempt (decide_pass env pool0 prov (fst c)) (finish_pass env prov c)"

definition reconcile_live :: "Env \<Rightarrow> GPUCellPool \<Rightarrow> string \<Rightarrow> duration result io" where
  "reconcile_live env pool prov = do { c \<leftarrow> workloadClient env pool; reconcile_with env pool prov c }"

definition Reconcile :: "Env \<Rightarrow> duration result io" where
  "Reconcile env = do {
     r \<leftarrow> call (en_GetPool env) (\<lambda>_. EvRead ''GetPool'');
     case r of
       Inl e \<Rightarrow> ret (if IsNotFound e then Inr 0 else Inl e)
     | Inr pool \<Rightarrow>
         (case provisioner pool of
            Inl e \<Rightarrow> do {
              emit (EvEvent EventTypeWarning ReasonUnknownProvisioner (error_text e));
              ret (Inl e) }
          | Inr prov \<Rightarrow>
              if \<not> IsZero (po_DeletionTimestamp pool) then reconcileDeletion env pool prov
              else
                attempt
                  (if FinalizerPool \<in> set (po_Finalizers pool) then ret (Inr pool)
                   else let p = pool\<lparr>po_Finalizers := po_Finalizers pool @ [FinalizerPool]\<rparr>
                        in wrapping ''adding pool finalizer'' (call (\<lambda>tr. en_UpdatePool env tr p) (EvUpdatePool p)))
                  (\<lambda>pool. reconcile_live env pool prov)) }"

section \<open>Passes\<close>

text \<open>
  The pool a live pass acts on: the object as read, or as the server returned it when the finalizer
  had to be added first.
\<close>

definition pass_pool :: "Env \<Rightarrow> string \<Rightarrow> GPUCellPool \<Rightarrow> bool" where
  "pass_pool env prov q \<longleftrightarrow>
     (\<exists>pool. en_GetPool env [] = Inr pool \<and> IsZero (po_DeletionTimestamp pool) \<and> provisioner pool = Inr prov \<and>
        (if FinalizerPool \<in> set (po_Finalizers pool) then q = pool
         else en_UpdatePool env [EvRead ''GetPool''] (pool\<lparr>po_Finalizers := po_Finalizers pool @ [FinalizerPool]\<rparr>) = Inr q))"

definition pass_trace :: "Env \<Rightarrow> ClientCache \<Rightarrow> event list" where
  "pass_trace env cache = wo_trace (snd (run_state (Reconcile env) \<lparr>wo_trace = [], wo_cache = cache\<rparr>))"

section \<open>A pass in one piece\<close>

lemma attempt_simps:
  "attempt (State_Monad.bind m f) g = State_Monad.bind m (\<lambda>x. attempt (f x) g)" "attempt (ret (Inr x)) h = h x"
  by (simp_all add: attempt_def)

lemma attempt_attempt: "attempt (attempt m f) g = attempt m (\<lambda>x. attempt (f x) g)"
proof -
  have "attempt (case r of Inl e \<Rightarrow> ret (Inl e) | Inr x \<Rightarrow> f x) g = (case r of Inl e \<Rightarrow> ret (Inl e) | Inr x \<Rightarrow> attempt (f x) g)" for r
    by (cases r) (simp_all add: attempt_def)
  then show ?thesis by (subst (1 3) attempt_def) (simp add: attempt_simps)
qed

lemma reconcile_with_eq:
  "reconcile_with env pool0 prov c =
     (let inner = fst c in
      attempt (discoverCells env pool0 prov inner) (\<lambda>cells0. do {
       freeGPUs \<leftarrow> call (\<lambda>tr. free_of (physicalInventory (en_Outer env tr) pool0)) (\<lambda>_. EvRead ''Inventory'');
       rg \<leftarrow> read_capacity env pool0 inner cells0;
       let pool1 = remember_shape (en_now env) (rg_cap0 rg) pool0;
       emit (EvMetric WorkloadClusterReachable [po_Name pool1, po_Namespace pool1] (if inner \<noteq> None then 1 else 0));
       idle \<leftarrow> read_idle env pool1 inner cells0;
       let scale = DecideScale (scale_input pool1 cells0 idle (rg_demand rg) (rg_demandKnown rg)
                     (rg_shape rg \<noteq> None) freeGPUs (en_now env));
       emit_all (scale_events pool1 scale);
       let pool2 = pool1\<lparr>po_Status := stamp_scaling (en_now env) (rg_demand rg) (rg_demandKnown rg) scale (po_Status pool1)\<rparr>;
       let plan = PlanMembership (membership_input pool2 cells0 scale freeGPUs (inner \<noteq> None)
                    (he_Ready (rg_health rg)) (en_now env));
       attempt (act env pool2 prov inner (he_Ready (rg_health rg)) idle scale plan cells0) (\<lambda>(cells, rollout).
         let pool3 = writeStatus (en_setStatusCondition env) (en_now env) pool2 cells plan scale rollout (rg_demand rg)
               (rg_demandKnown rg) freeGPUs (rg_health rg) (rg_cap0 rg) (rg_capacityKnown rg) (inner \<noteq> None)
               (fst (snd c)) (snd (snd c))
         in do {
           emit (EvGauges (po_Name pool3) (po_Namespace pool3) (publishMetrics cells scale freeGPUs (rg_cap0 rg) (rg_capacityKnown rg)));
           attempt (wrapping ''updating status'' (call (\<lambda>tr. en_UpdateStatus env tr pool3) (EvUpdateStatus pool3)))
             (\<lambda>_. ret (Inr (requeue_after cells plan))) }) }))"
  by (simp add: reconcile_with_def decide_pass_def finish_pass_def Let_def attempt_simps attempt_attempt)

end
