(* ===== verification/TraceLogic.thy ===== *)
theory TraceLogic
  imports OuterCalls
begin

text \<open>
  Rules a trace can obey: every event must be allowed by what came before it. A computation keeps
  such a rule if each of its calls is allowed where it is made; \<open>X\<close> below is what is known of the
  past at that point, a fact that later events cannot undo.
\<close>

definition obeys :: "(event list \<Rightarrow> event \<Rightarrow> bool) \<Rightarrow> event list \<Rightarrow> bool" where
  "obeys R tr \<longleftrightarrow> (\<forall>i < length tr. R (take i tr) (tr ! i))"

lemma obeys_Nil [simp]: "obeys R []"
  by (simp add: obeys_def)

lemma obeys_snoc [simp]: "obeys R (tr @ [ev]) \<longleftrightarrow> obeys R tr \<and> R tr ev"
  by (auto simp: obeys_def nth_append less_Suc_eq)

lemma obeysD: "obeys R (pre @ ev # post) \<Longrightarrow> R pre ev"
  unfolding obeys_def by (auto dest: spec [of _ "length pre"])

lemma obeys_before:
  assumes "obeys R (pre @ post)" and "ev \<in> set pre"
  obtains a b where "pre = a @ ev # b" and "R a ev"
proof -
  obtain a b where "pre = a @ ev # b" using split_list [OF assms(2)] by blast
  with obeysD [of R a ev "b @ post"] assms(1) that show ?thesis by simp
qed

definition stable :: "(event list \<Rightarrow> bool) \<Rightarrow> bool" where
  "stable X \<longleftrightarrow> (\<forall>tr ev. X tr \<longrightarrow> X (tr @ [ev]))"

lemma stable_True [simp, intro]: "stable (\<lambda>_. True)"
  by (simp add: stable_def)

lemma stable_conj [intro]: "stable X \<Longrightarrow> stable Y \<Longrightarrow> stable (\<lambda>tr. X tr \<and> Y tr)"
  by (simp add: stable_def)

lemma stable_const [simp, intro]: "stable (\<lambda>_. b)"
  by (simp add: stable_def)

lemma stable_mem [intro]: "stable (\<lambda>tr. ev \<in> set tr)"
  by (simp add: stable_def)

definition inv_of :: "(event list \<Rightarrow> event \<Rightarrow> bool) \<Rightarrow> (event list \<Rightarrow> bool) \<Rightarrow> event list \<Rightarrow> bool" where
  "inv_of R X tr \<longleftrightarrow> obeys R tr \<and> X tr"

lemma inv_ofD: "inv_of R X tr \<Longrightarrow> X tr"
  by (simp add: inv_of_def)

lemma inv_of_snoc: "stable X \<Longrightarrow> inv_of R X tr \<Longrightarrow> (X tr \<Longrightarrow> R tr ev) \<Longrightarrow> inv_of R X (tr @ [ev])"
  by (simp add: inv_of_def stable_def)

lemma keeps_allowed_call:
  "stable X \<Longrightarrow> (\<And>tr. X tr \<Longrightarrow> R tr (ev (answer tr))) \<Longrightarrow> keeps (inv_of R X) (call answer ev)"
  by (rule keeps_call) (auto intro: inv_of_snoc)

lemma keeps_allowed_emit: "stable X \<Longrightarrow> (\<And>tr. X tr \<Longrightarrow> R tr ev) \<Longrightarrow> keeps (inv_of R X) (emit ev)"
  by (rule keeps_emit) (auto intro: inv_of_snoc)

lemma keeps_allowed_emit_all:
  "stable X \<Longrightarrow> (\<And>tr ev. X tr \<Longrightarrow> ev \<in> set evs \<Longrightarrow> R tr ev) \<Longrightarrow> keeps (inv_of R X) (emit_all evs)"
  by (rule keeps_emit_all) (auto intro: inv_of_snoc)

lemma keeps_strengthen:
  assumes "\<And>tr. X tr \<Longrightarrow> Y tr" and "stable Y" and "keeps (inv_of R (\<lambda>tr. X tr \<and> Y tr)) m"
  shows "keeps (inv_of R X) m"
proof -
  have "inv_of R (\<lambda>tr. X tr \<and> Y tr) = inv_of R X"
    using assms(1) by (auto simp: inv_of_def)
  with assms(3) show ?thesis by simp
qed

text \<open>Knowledge gained on the way: after \<open>m\<close> the continuation may use what \<open>m\<close> established.\<close>

lemma keeps_bind_gain:
  assumes "trip (inv_of R X) m (\<lambda>r tr. inv_of R X tr \<and> Y r tr)"
    and "\<And>r. keeps (inv_of R (\<lambda>tr. X tr \<and> Y r tr)) (f r)"
  shows "keeps (inv_of R X) (State_Monad.bind m f)"
  unfolding keeps_def
proof (rule trip_bind [OF assms(1)])
  fix r
  show "trip (\<lambda>tr. inv_of R X tr \<and> Y r tr) (f r) (\<lambda>_. inv_of R X)"
    by (rule trip_weaken [OF assms(2) [of r, unfolded keeps_def]]) (auto simp: inv_of_def)
qed

lemma keeps_attempt_gain:
  assumes "trip (inv_of R X) m (\<lambda>r tr. inv_of R X tr \<and> (\<forall>x. r = Inr x \<longrightarrow> Y x tr))"
    and "\<And>x. keeps (inv_of R (\<lambda>tr. X tr \<and> Y x tr)) (f x)"
  shows "keeps (inv_of R X) (attempt m f)"
  unfolding keeps_def
proof (rule trip_attempt [OF assms(1)])
  fix x
  show "trip (\<lambda>tr. inv_of R X tr \<and> (\<forall>y. Inr x = Inr y \<longrightarrow> Y y tr)) (f x) (\<lambda>_. inv_of R X)"
    by (rule trip_weaken [OF assms(2) [of x, unfolded keeps_def]]) (auto simp: inv_of_def)
qed simp

lemma trip_wrapping_gain:
  "trip P m (\<lambda>r tr. I tr \<and> (\<forall>x. r = Inr x \<longrightarrow> Y x tr)) \<Longrightarrow>
   trip P (wrapping msg m) (\<lambda>r tr. I tr \<and> (\<forall>x. r = Inr x \<longrightarrow> Y x tr))"
  by (intro trip_wrapping) (erule trip_weaken, auto split: sum.splits)

lemma keeps_extra:
  assumes "keeps (inv_of R (\<lambda>tr. X tr \<and> Y tr)) m"
  shows "trip (\<lambda>tr. inv_of R X tr \<and> Y tr) m (\<lambda>_. inv_of R X)"
  by (rule trip_weaken [OF assms [unfolded keeps_def]]) (auto simp: inv_of_def)

lemma inv_of_drop: "inv_of R (\<lambda>tr. X tr \<and> Y tr) tr \<Longrightarrow> inv_of R X tr"
  by (simp add: inv_of_def)

section \<open>Calls that need nothing\<close>

text \<open>
  Most calls read, or write what is safe to write at any time, or mark the return of a provisioner,
  or count something under one value per label.
  A rule that leaves those alone is kept by every operation made of them; this is proved once, for
  any such rule.
\<close>

fun harmless :: "event \<Rightarrow> bool" where
  "harmless (EvAllocations cs name r) = False"
| "harmless (EvPoolNodes cs name r) = False"
| "harmless (EvPatchNode cs name p r) = False"
| "harmless (EvDeleteNode cs name r) = False"
| "harmless (EvUpdatePool p r) = False"
| "harmless (EvUpdateStatus p r) = False"
| "harmless (EvCreateObject obj r) = False"
| "harmless (EvUpdateObject obj r) = False"
| "harmless (EvDeleteObject gvk ns name r) = False"
| "harmless (EvAsk c) = False"
| "harmless (EvMetric m labels v) \<longleftrightarrow> m \<noteq> ReconcileErrorsTotal \<and> WithLabelValues_ok m labels"
| "harmless (EvGauges pool ns gs) = False"
| "harmless _ = True"

locale trace_rule =
  fixes R :: "event list \<Rightarrow> event \<Rightarrow> bool"
  assumes quiet: "harmless ev \<Longrightarrow> R pre ev"
begin

lemma keeps_get_object: "stable X \<Longrightarrow> keeps (inv_of R X) (get_object env gvk ns name)"
  unfolding get_object_def by (rule keeps_allowed_call) (auto simp: quiet)

lemma keeps_listCellNames: "stable X \<Longrightarrow> keeps (inv_of R X) (listCellNames env gvk ns pool)"
  unfolding listCellNames_def by (intro keeps_rules keeps_allowed_call) (auto simp: quiet)

lemma keeps_create_object:
  "stable X \<Longrightarrow> (\<And>tr r. X tr \<Longrightarrow> R tr (EvCreateObject obj r)) \<Longrightarrow> keeps (inv_of R X) (create_object env obj)"
  unfolding create_object_def by (rule keeps_allowed_call) auto

lemma keeps_remove_object:
  "stable X \<Longrightarrow> (\<And>tr r. X tr \<Longrightarrow> R tr (EvDeleteObject gvk ns name r)) \<Longrightarrow>
   keeps (inv_of R X) (remove_object env msg gvk ns name)"
  unfolding remove_object_def delete_object_def by (intro keeps_rules keeps_allowed_call) auto

lemma get_object_gain:
  "stable X \<Longrightarrow> trip (inv_of R X) (get_object env gvk ns name)
     (\<lambda>r tr. inv_of R X tr \<and> EvGetObject gvk ns name r \<in> set tr)"
  unfolding get_object_def by (rule trip_call) (auto intro!: inv_of_snoc simp: quiet)

lemma keeps_get_then:
  \<comment> \<open>what follows a Get may use its answer\<close>
  assumes "stable X" and "\<And>r. keeps (inv_of R (\<lambda>tr. X tr \<and> EvGetObject gvk ns name r \<in> set tr)) (f r)"
  shows "keeps (inv_of R X) (State_Monad.bind (get_object env gvk ns name) f)"
  by (rule keeps_bind_gain [OF get_object_gain [OF assms(1)]]) (rule assms(2))

lemma keeps_clear_finalizer:
  assumes "stable X"
    and "\<And>tr g r. X tr \<Longrightarrow> EvGetObject gvk (cr_Namespace req) (cr_CellName req) (Inr g) \<in> set tr \<Longrightarrow>
      R tr (EvUpdateObject (g\<lparr>un_Finalizers := fst (withoutDrainFinalizer (un_Finalizers g))\<rparr>) r)"
  shows "keeps (inv_of R X) (clear_finalizer env gvk what req)"
  unfolding clear_finalizer_def update_object_def Let_def
  by (intro keeps_get_then keeps_rules keeps_allowed_call) (use assms in auto)

end

end
