(* ===== verification/ProvisionerContract.thy ===== *)
theory ProvisionerContract
  imports TraceLogic ClusterApi
begin

text \<open>
  The interface \<^verbatim>\<open>Provisioner\<close> of \<^verbatim>\<open>internal/provisioner/provisioner.go\<close> as a locale, and both
  implementations as interpretations of it. What a provisioner promises is said of the requests it
  makes: which objects it may create, and only after a Get has found them absent; that clearing the
  drain finalizer changes nothing else; which objects a deletion may ask for; and that a deletion is
  only reported done when the object that stands for the cell was not found.
\<close>

definition found_absent :: "Unstructured \<Rightarrow> event list \<Rightarrow> bool" where
  "found_absent obj tr \<longleftrightarrow>
     (\<exists>e. EvGetObject (un_GVK obj) (un_Namespace obj) (un_Name obj) (Inl e) \<in> set tr \<and> IsNotFound e)"

definition unguarded :: "Unstructured \<Rightarrow> Unstructured" where
  "unguarded g = g\<lparr>un_Finalizers := fst (withoutDrainFinalizer (un_Finalizers g))\<rparr>"

definition refers :: "event list \<Rightarrow> string \<Rightarrow> GroupVersionKind \<times> string \<Rightarrow> GroupVersionKind \<Rightarrow> string \<Rightarrow> string \<Rightarrow> bool" where
  \<comment> \<open>the key names the part itself, or is the key of the object that a Get of the part returned\<close>
  "refers tr ns0 part gvk ns name \<longleftrightarrow> gvk = fst part \<and>
     (ns = ns0 \<and> name = snd part \<or>
      (\<exists>g. EvGetObject gvk ns0 (snd part) (Inr g) \<in> set tr \<and> ns = un_Namespace g \<and> name = un_Name g))"

lemma refers_named [intro]: "refers tr ns (gvk, name) gvk ns name"
  by (simp add: refers_def)

lemma refers_read [intro]:
  "EvGetObject gvk ns0 n (Inr g) \<in> set tr \<Longrightarrow> refers tr ns0 (gvk, n) gvk (un_Namespace g) (un_Name g)"
  by (auto simp: refers_def)

locale provisioner_contract =
  fixes ensure :: "Env \<Rightarrow> CellRequest \<Rightarrow> OuterState result io"
    and delete :: "Env \<Rightarrow> CellRequest \<Rightarrow> bool result io"
    and clear :: "Env \<Rightarrow> CellRequest \<Rightarrow> unit result io"
    and list_cells :: "Env \<Rightarrow> string \<Rightarrow> string \<Rightarrow> string list result io"
    and holder :: GroupVersionKind
    and builds :: "CellRequest \<Rightarrow> Unstructured \<Rightarrow> bool"
    and cell_object :: "CellRequest \<Rightarrow> Unstructured \<Rightarrow> bool"
    and parts :: "CellRequest \<Rightarrow> (GroupVersionKind \<times> string) list"
  assumes ensure_keeps: "trace_rule R \<Longrightarrow> stable X \<Longrightarrow>
      (\<And>tr obj r. X tr \<Longrightarrow> builds req obj \<Longrightarrow> found_absent obj tr \<Longrightarrow> R tr (EvCreateObject obj r)) \<Longrightarrow>
      keeps (inv_of R X) (ensure env req)"
    and delete_keeps: "trace_rule R \<Longrightarrow> stable X \<Longrightarrow>
      (\<And>tr part gvk ns name r. X tr \<Longrightarrow> part \<in> set (parts req) \<Longrightarrow> refers tr (cr_Namespace req) part gvk ns name \<Longrightarrow>
         R tr (EvDeleteObject gvk ns name r)) \<Longrightarrow>
      keeps (inv_of R X) (delete env req)"
    and clear_keeps: "trace_rule R \<Longrightarrow> stable X \<Longrightarrow>
      (\<And>tr g r. X tr \<Longrightarrow> EvGetObject holder (cr_Namespace req) (cr_CellName req) (Inr g) \<in> set tr \<Longrightarrow>
         R tr (EvUpdateObject (unguarded g) r)) \<Longrightarrow>
      keeps (inv_of R X) (clear env req)"
    and list_keeps: "trace_rule R \<Longrightarrow> stable X \<Longrightarrow> keeps (inv_of R X) (list_cells env ns pool)"
    and delete_done: "trip P (delete env req) (\<lambda>r tr. r = Inr True \<longrightarrow>
      (\<exists>e. EvGetObject holder (cr_Namespace req) (cr_CellName req) (Inl e) \<in> set tr \<and> IsNotFound e))"
    and builds_parts: "builds req obj \<Longrightarrow> (un_GVK obj, un_Name obj) \<in> set (parts req) \<and>
      un_Namespace obj = cr_Namespace req \<and> map_of (un_Labels obj) LabelPool = Some (cr_Pool req)"
    and cell_object: "cell_object req obj \<Longrightarrow> builds req obj \<and> un_GVK obj = holder \<and> un_Name obj = cr_CellName req \<and>
      FinalizerCellDrain \<in> set (un_Finalizers obj) \<and>
      smap_get (un_Annotations obj) AnnotationTemplateHash = cr_TemplateHash req"
begin

text \<open>
  The names of the parts tell the cells of a pool apart only through the request, so what a
  deletion of one cell asks for by name is never what building another created, as long as the two
  requests have no part in common.
\<close>

lemma delete_spares:
  assumes "builds other obj" and "cr_Namespace other = cr_Namespace req" and "set (parts req) \<inter> set (parts other) = {}"
    and "part \<in> set (parts req)"
  shows "(un_GVK obj, un_Name obj) \<noteq> part"
  using builds_parts [OF assms(1)] assms(3,4) by auto

end

section \<open>The SwiftGuest provisioner\<close>

definition sg_builds :: "CellRequest \<Rightarrow> Unstructured \<Rightarrow> bool" where
  "sg_builds req obj \<longleftrightarrow> obj = seed_object req \<or> (\<exists>spec. renderGuestSpec req = Inr spec \<and> obj = guest_object req spec)"

definition sg_cell_object :: "CellRequest \<Rightarrow> Unstructured \<Rightarrow> bool" where
  "sg_cell_object req obj \<longleftrightarrow> (\<exists>spec. renderGuestSpec req = Inr spec \<and> obj = guest_object req spec)"

definition sg_parts :: "CellRequest \<Rightarrow> (GroupVersionKind \<times> string) list" where
  "sg_parts req = [(SwiftGuestGVK, cr_CellName req), (SwiftSeedProfileGVK, SeedName (cr_CellName req))]"

lemma stable_get [intro]: "stable X \<Longrightarrow> stable (\<lambda>tr. X tr \<and> EvGetObject gvk ns name r \<in> set tr)"
  by auto

lemma seed_object_simps [simp]:
  "un_GVK (seed_object req) = SwiftSeedProfileGVK" "un_Namespace (seed_object req) = cr_Namespace req"
  "un_Name (seed_object req) = SeedName (cr_CellName req)"
  "un_Labels (seed_object req) = GuestLabels (cr_Pool req) (cr_Index req)"
  by (simp_all add: seed_object_def newUnstructured_def)

lemma guest_object_simps [simp]:
  "un_GVK (guest_object req spec) = SwiftGuestGVK" "un_Namespace (guest_object req spec) = cr_Namespace req"
  "un_Name (guest_object req spec) = cr_CellName req" "un_Finalizers (guest_object req spec) = [FinalizerCellDrain]"
  "un_Labels (guest_object req spec) = GuestLabels (cr_Pool req) (cr_Index req)"
  "un_Annotations (guest_object req spec) = [(AnnotationTemplateHash, cr_TemplateHash req)]"
  by (simp_all add: guest_object_def newUnstructured_def)

lemma GuestLabels_pool: "map_of (GuestLabels pool idx) LabelPool = Some pool"
  by (simp add: GuestLabels_def)

lemma sg_ensure_keeps:
  assumes R: "trace_rule R" and X: "stable X"
    and create: "\<And>tr obj r. X tr \<Longrightarrow> sg_builds req obj \<Longrightarrow> found_absent obj tr \<Longrightarrow> R tr (EvCreateObject obj r)"
  shows "keeps (inv_of R X) (sg_Ensure env req)"
proof -
  have "keeps (inv_of R X) (ensureSeedProfile env req)"
    unfolding ensureSeedProfile_def
    by (intro trace_rule.keeps_get_then [OF R] keeps_rules trace_rule.keeps_create_object [OF R] X stable_get create)
      (auto simp: sg_builds_def found_absent_def)
  moreover have "keeps (inv_of R X) (ensureGuest env req)"
    unfolding ensureGuest_def
    by (intro trace_rule.keeps_get_then [OF R] keeps_rules trace_rule.keeps_create_object [OF R] X stable_get create)
      (auto simp: sg_builds_def found_absent_def)
  ultimately show ?thesis
    unfolding sg_Ensure_def by (intro keeps_rules)
qed

lemma sg_delete_keeps:
  assumes R: "trace_rule R" and X: "stable X"
    and remove: "\<And>tr part gvk ns name r. X tr \<Longrightarrow> part \<in> set (sg_parts req) \<Longrightarrow> refers tr (cr_Namespace req) part gvk ns name \<Longrightarrow>
         R tr (EvDeleteObject gvk ns name r)"
  shows "keeps (inv_of R X) (sg_Delete env req)"
proof -
  have guest: "(SwiftGuestGVK, cr_CellName req) \<in> set (sg_parts req)"
    and seed: "(SwiftSeedProfileGVK, SeedName (cr_CellName req)) \<in> set (sg_parts req)"
    by (simp_all add: sg_parts_def)
  show ?thesis
    unfolding sg_Delete_def
    by (intro trace_rule.keeps_get_then [OF R] keeps_rules trace_rule.keeps_remove_object [OF R] X stable_get)
      (auto intro: remove [OF _ guest] remove [OF _ seed])
qed

lemma get_object_reads: "trip P (get_object env gvk ns name) (\<lambda>r tr. EvGetObject gvk ns name r \<in> set tr)"
  unfolding get_object_def by (rule trip_call) simp

lemma trip_any: "trip P m (\<lambda>_ _. True)"
  by (auto simp: trip_def split: prod.splits)

lemma trip_remove_object: "(\<And>r u tr. P tr \<Longrightarrow> Q r (tr @ [EvDeleteObject gvk ns name u])) \<Longrightarrow> trip P (remove_object env msg gvk ns name) Q"
  unfolding remove_object_def delete_object_def
  by (rule trip_bind [where R = "\<lambda>r tr. \<exists>tr0 u. P tr0 \<and> tr = tr0 @ [EvDeleteObject gvk ns name u]"])
    (auto intro!: trip_rules)

lemma sg_delete_done:
  "trip P (sg_Delete env req) (\<lambda>r tr. r = Inr True \<longrightarrow>
     (\<exists>e. EvGetObject SwiftGuestGVK (cr_Namespace req) (cr_CellName req) (Inl e) \<in> set tr \<and> IsNotFound e))"
  unfolding sg_Delete_def
proof (rule trip_bind [OF get_object_reads], intro trip_case_sum trip_if, goal_cases)
  case (2 r e)
  show ?case
    by (rule trip_attempt [where R = "\<lambda>_ tr. EvGetObject SwiftGuestGVK (cr_Namespace req) (cr_CellName req) r \<in> set tr"])
      (use 2 in \<open>auto intro!: trip_remove_object trip_ret\<close>)
qed (auto intro!: trip_attempt [OF trip_any] trip_ret)

interpretation sg: provisioner_contract sg_Ensure sg_Delete sg_ClearDrainFinalizer sg_List SwiftGuestGVK
  sg_builds sg_cell_object sg_parts
proof (unfold_locales, goal_cases)
  case 1 then show ?case by (rule sg_ensure_keeps)
next
  case 2 then show ?case by (rule sg_delete_keeps)
next
  case 3 then show ?case
    unfolding sg_ClearDrainFinalizer_def by (auto intro!: trace_rule.keeps_clear_finalizer simp: unguarded_def)
next
  case 4 then show ?case unfolding sg_List_def by (rule trace_rule.keeps_listCellNames)
next
  case 5 show ?case by (rule sg_delete_done)
next
  case 6 then show ?case by (auto simp: sg_builds_def sg_parts_def GuestLabels_pool)
next
  case 7 then show ?case by (auto simp: sg_builds_def sg_cell_object_def smap_get_def)
qed

section \<open>The Cluster API provisioner\<close>

definition capi_builds :: "CellRequest \<Rightarrow> Unstructured \<Rightarrow> bool" where
  "capi_builds req obj \<longleftrightarrow> (\<exists>cfg. cr_ClusterAPI req = Some cfg \<and>
     ((\<exists>ref spec. bootstrapTemplateRef req = Some ref \<and> obj = capi_object (bootstrapConfigGVK ref) req cfg spec) \<or>
      (\<exists>backend. renderMachineBackend req = Inr backend \<and> obj = infra_object req cfg backend) \<or>
      (\<exists>ref. obj = machine_object req cfg ref)))"

definition capi_cell_object :: "CellRequest \<Rightarrow> Unstructured \<Rightarrow> bool" where
  "capi_cell_object req obj \<longleftrightarrow> (\<exists>cfg ref. cr_ClusterAPI req = Some cfg \<and> obj = machine_object req cfg ref)"

definition capi_parts :: "CellRequest \<Rightarrow> (GroupVersionKind \<times> string) list" where
  "capi_parts req = [(MachineGVK, cr_CellName req), (KubeSwiftMachineGVK, cr_CellName req)] @
     (case bootstrapTemplateRef req of None \<Rightarrow> [] | Some ref \<Rightarrow> [(bootstrapConfigGVK ref, cr_CellName req)])"

lemma capi_object_simps [simp]:
  "un_GVK (capi_object gvk req cfg spec) = gvk" "un_Namespace (capi_object gvk req cfg spec) = cr_Namespace req"
  "un_Name (capi_object gvk req cfg spec) = cr_CellName req" "un_Labels (capi_object gvk req cfg spec) = capi_labels req cfg"
  by (simp_all add: capi_object_def newUnstructured_def)

lemma infra_object_simps [simp]:
  "un_GVK (infra_object req cfg b) = KubeSwiftMachineGVK" "un_Namespace (infra_object req cfg b) = cr_Namespace req"
  "un_Name (infra_object req cfg b) = cr_CellName req" "un_Labels (infra_object req cfg b) = capi_labels req cfg"
  by (simp_all add: infra_object_def)

lemma machine_object_simps [simp]:
  "un_GVK (machine_object req cfg ref) = MachineGVK" "un_Namespace (machine_object req cfg ref) = cr_Namespace req"
  "un_Name (machine_object req cfg ref) = cr_CellName req" "un_Labels (machine_object req cfg ref) = capi_labels req cfg"
  "un_Finalizers (machine_object req cfg ref) = [FinalizerCellDrain]"
  "un_Annotations (machine_object req cfg ref) = [(AnnotationTemplateHash, cr_TemplateHash req)]"
  by (simp_all add: machine_object_def)

lemma capi_labels_pool: "map_of (capi_labels req cfg) LabelPool = Some (cr_Pool req)"
  by (simp add: capi_labels_def update_conv' GuestLabels_pool)

lemma capi_ensure_keeps:
  assumes R: "trace_rule R" and X: "stable X"
    and create: "\<And>tr obj r. X tr \<Longrightarrow> capi_builds req obj \<Longrightarrow> found_absent obj tr \<Longrightarrow> R tr (EvCreateObject obj r)"
  shows "keeps (inv_of R X) (capi_Ensure env req)"
proof -
  note step = trace_rule.keeps_get_then [OF R] keeps_rules trace_rule.keeps_create_object [OF R]
    trace_rule.keeps_get_object [OF R]
  have "keeps (inv_of R X) (ensureBootstrapConfig env req cfg)" if "cr_ClusterAPI req = Some cfg" for cfg
    unfolding ensureBootstrapConfig_def Let_def
    by (intro step X stable_get create) (use that in \<open>auto simp: capi_builds_def found_absent_def\<close>)
  moreover have "keeps (inv_of R X) (ensureInfraMachine env req cfg)" if "cr_ClusterAPI req = Some cfg" for cfg
    unfolding ensureInfraMachine_def
    by (intro step X stable_get create) (use that in \<open>auto simp: capi_builds_def found_absent_def\<close>)
  moreover have "keeps (inv_of R X) (ensureMachine env req cfg ref)" if "cr_ClusterAPI req = Some cfg" for cfg ref
    unfolding ensureMachine_def
    by (intro step X stable_get create) (use that in \<open>auto simp: capi_builds_def found_absent_def\<close>)
  moreover have "keeps (inv_of R X) (observeMachine env req machine)" for machine
    unfolding observeMachine_def providerID_def Let_def
    by (intro trace_rule.keeps_get_object [OF R] keeps_rules X)
  ultimately show ?thesis
    unfolding capi_Ensure_def by (intro keeps_rules)
qed

lemma capi_delete_keeps:
  assumes R: "trace_rule R" and X: "stable X"
    and remove: "\<And>tr part gvk ns name r. X tr \<Longrightarrow> part \<in> set (capi_parts req) \<Longrightarrow>
      refers tr (cr_Namespace req) part gvk ns name \<Longrightarrow> R tr (EvDeleteObject gvk ns name r)"
  shows "keeps (inv_of R X) (capi_Delete env req)"
proof -
  have machine: "(MachineGVK, cr_CellName req) \<in> set (capi_parts req)"
    and infra: "(KubeSwiftMachineGVK, cr_CellName req) \<in> set (capi_parts req)"
    and config: "bootstrapTemplateRef req = Some ref \<Longrightarrow> (bootstrapConfigGVK ref, cr_CellName req) \<in> set (capi_parts req)" for ref
    by (simp_all add: capi_parts_def)
  show ?thesis
    unfolding capi_Delete_def Let_def
    by (intro trace_rule.keeps_get_then [OF R] keeps_rules trace_rule.keeps_remove_object [OF R] X stable_get)
      (auto intro: remove [OF _ machine] remove [OF _ infra] remove [OF _ config])
qed

lemma capi_delete_done:
  "trip P (capi_Delete env req) (\<lambda>r tr. r = Inr True \<longrightarrow>
     (\<exists>e. EvGetObject MachineGVK (cr_Namespace req) (cr_CellName req) (Inl e) \<in> set tr \<and> IsNotFound e))"
  unfolding capi_Delete_def Let_def
proof (rule trip_bind [OF get_object_reads], goal_cases)
  case (1 r)
  let ?G = "\<lambda>_ tr. EvGetObject MachineGVK (cr_Namespace req) (cr_CellName req) r \<in> set tr"
  show ?case
    by (intro trip_attempt [where R = ?G] trip_case_sum trip_case_option trip_if)
      (auto intro!: trip_remove_object trip_ret split: sum.splits)
qed

interpretation capi: provisioner_contract capi_Ensure capi_Delete capi_ClearDrainFinalizer capi_List MachineGVK
  capi_builds capi_cell_object capi_parts
proof (unfold_locales, goal_cases)
  case 1 then show ?case by (rule capi_ensure_keeps)
next
  case 2 then show ?case by (rule capi_delete_keeps)
next
  case 3 then show ?case
    unfolding capi_ClearDrainFinalizer_def by (auto intro!: trace_rule.keeps_clear_finalizer simp: unguarded_def)
next
  case 4 then show ?case unfolding capi_List_def by (rule trace_rule.keeps_listCellNames)
next
  case 5 show ?case by (rule capi_delete_done)
next
  case 6 then show ?case by (auto simp: capi_builds_def capi_parts_def capi_labels_pool)
next
  case 7 then show ?case by (auto simp: capi_builds_def capi_cell_object_def smap_get_def)
qed

end
