(* ===== verification/TraceRules.thy ===== *)
theory TraceRules
  imports Reconciler ProvisionerContract
begin

text \<open>
  The operations of the reconciler that any rule for traces lets through: those made of reads and
  of writes that are safe at any time, and, for a rule that does not restrict Node patches, those
  that patch.
\<close>

interpretation pv: provisioner_contract
  "by_name prov sg_Ensure capi_Ensure" "by_name prov sg_Delete capi_Delete"
  "by_name prov sg_ClearDrainFinalizer capi_ClearDrainFinalizer" "by_name prov sg_List capi_List"
  "by_name prov SwiftGuestGVK MachineGVK" "by_name prov sg_builds capi_builds"
  "by_name prov sg_cell_object capi_cell_object" "by_name prov sg_parts capi_parts" for prov
  by (cases "prov = ProvisionerClusterAPI")
    (simp_all add: by_name_def sg.provisioner_contract_axioms capi.provisioner_contract_axioms)

context trace_rule
begin

lemma keeps_get_secret: "stable X \<Longrightarrow> keeps (inv_of R X) (get_secret env ns name)"
  unfolding get_secret_def by (rule keeps_allowed_call) (auto simp: quiet)

lemma keeps_workloadClient: "stable X \<Longrightarrow> keeps (inv_of R X) (workloadClient env p)"
  unfolding workloadClient_def Let_def
  by (intro keeps_rules keeps_get_secret keeps_allowed_call) (auto simp: quiet)

lemma keeps_get_node: "stable X \<Longrightarrow> keeps (inv_of R X) (get_node env cs name)"
  unfolding get_node_def by (rule keeps_allowed_call) (auto simp: quiet)

lemma keeps_store_bootstrap:
  "stable X \<Longrightarrow> keeps (inv_of R X) (store_bootstrap env desired rendered)"
  unfolding store_bootstrap_def Let_def by (intro keeps_rules keeps_get_secret keeps_allowed_call) (auto simp: quiet)

lemma keeps_ensureBootstrapSecret:
  "stable X \<Longrightarrow> keeps (inv_of R X) (ensureBootstrapSecret env p idx)"
  unfolding ensureBootstrapSecret_def Let_def by (intro keeps_rules keeps_get_secret keeps_store_bootstrap)

lemma keeps_provider_health: "stable X \<Longrightarrow> keeps (inv_of R X) (provider_health env p cs nodes)"
  unfolding provider_health_def by (rule keeps_allowed_call) (auto simp: quiet)

lemma keeps_provider_devices: "stable X \<Longrightarrow> keeps (inv_of R X) (provider_devices env p cs name)"
  unfolding provider_devices_def by (rule keeps_allowed_call) (auto simp: quiet)

lemma keeps_prov_List: "stable X \<Longrightarrow> keeps (inv_of R X) (prov_List env prov p)"
  unfolding prov_List_def
  by (intro keeps_rules keeps_allowed_emit pv.list_keeps trace_rule_axioms) (auto simp: quiet)

text \<open>A call of the provisioner: what has to be allowed at its start, and what is known at its return.\<close>

lemma trip_bracket:
  assumes X: "stable X" and P: "\<And>tr. P tr \<Longrightarrow> inv_of R X tr \<and> R tr (EvAsk ask)"
    and op: "keeps (inv_of R (\<lambda>tr. X tr \<and> EvAsk ask \<in> set tr)) m" and quiet_end: "\<And>r. harmless (ev r)"
  shows "trip P (bracket ask m ev) (\<lambda>r tr. inv_of R X tr \<and> (\<exists>pre. tr = pre @ [ev r]))"
  unfolding bracket_def
proof (rule trip_bind)
  let ?J = "inv_of R (\<lambda>tr. X tr \<and> EvAsk ask \<in> set tr)"
  show "trip P (emit (EvAsk ask)) (\<lambda>_. ?J)"
    using P X by (intro trip_emit) (auto simp: inv_of_def stable_def)
  have last: "trip ?J (State_Monad.bind (emit (ev r)) (\<lambda>_. ret r)) (\<lambda>r tr. inv_of R X tr \<and> (\<exists>pre. tr = pre @ [ev r]))" for r
    by (rule trip_bind [where R = "\<lambda>_ tr. inv_of R X tr \<and> (\<exists>pre. tr = pre @ [ev r])"])
      (use X quiet [OF quiet_end] in \<open>auto intro!: trip_rules simp: inv_of_def stable_def\<close>)
  show "trip ?J (State_Monad.bind m (\<lambda>r. State_Monad.bind (emit (ev r)) (\<lambda>_. ret r)))
      (\<lambda>r tr. inv_of R X tr \<and> (\<exists>pre. tr = pre @ [ev r]))" for u :: unit
    using trip_bind [OF op [unfolded keeps_def] last] .
qed

lemma keeps_get_node_state:
  "stable X \<Longrightarrow> keeps (inv_of R X) (wrapping msg (get_node_state env cs name))"
  unfolding get_node_state_def by (intro keeps_rules keeps_allowed_call) (auto simp: quiet)

lemma keeps_read_demand: "stable X \<Longrightarrow> keeps (inv_of R X) (read_demand env p cs rg)"
  unfolding read_demand_def Let_def
  by (intro keeps_rules keeps_allowed_call keeps_allowed_emit_all) (auto simp: scrape_error_def WithLabelValues_ok_def quiet split: sum.splits)

lemma keeps_read_capacity: "stable X \<Longrightarrow> keeps (inv_of R X) (read_capacity env p inner cells)"
  unfolding read_capacity_def Let_def
  by (intro keeps_rules keeps_provider_health keeps_read_demand keeps_allowed_call keeps_allowed_emit_all)
    (auto simp: scrape_error_def WithLabelValues_ok_def quiet split: sum.splits)

lemma keeps_read_idle: "stable X \<Longrightarrow> keeps (inv_of R X) (read_idle env p inner cells)"
  unfolding read_idle_def by (intro keeps_rules keeps_allowed_call) (auto simp: quiet)

end

locale patching_rule = trace_rule +
  assumes patch: "R pre (EvPatchNode cs name p r)"
begin

lemma keeps_patch_node: "stable X \<Longrightarrow> keeps (inv_of R X) (patch_node env cs name patch)"
  unfolding patch_node_def by (rule keeps_allowed_call) (auto simp: quiet patch)

lemma keeps_EnsureNodeMetadata:
  "stable X \<Longrightarrow> keeps (inv_of R X) (EnsureNodeMetadata env cs name labels annotations taints)"
  unfolding EnsureNodeMetadata_def by (intro keeps_rules keeps_get_node keeps_patch_node)

lemma keeps_Cordon: "stable X \<Longrightarrow> keeps (inv_of R X) (Cordon env cs name)"
  unfolding Cordon_def by (intro keeps_rules keeps_get_node keeps_patch_node)

lemma keeps_read_inner: "stable X \<Longrightarrow> keeps (inv_of R X) (read_inner env p inner name idx outer)"
  unfolding read_inner_def get_node_state_def
  by (intro keeps_rules keeps_EnsureNodeMetadata keeps_provider_health keeps_provider_devices keeps_allowed_call) (auto simp: quiet patch)

end

end
