(* ===== verification/RemovalRules.thy ===== *)
theory RemovalRules
  imports TraceRules
begin

text \<open>
  The two ways a cell leaves, \<^verbatim>\<open>progressDrain\<close> and \<^verbatim>\<open>deleteCell\<close>, under any rule for removals: the
  locales \<open>removal_rule\<close> and \<open>drain_rule\<close> say what such a rule must grant, and show what has to be
  known before the two operations keep it. A live pass, a pass during an outage and the deletion of
  a pool have different rules, and all are interpretations.
\<close>

section \<open>Evidence\<close>

definition same_pool :: "GPUCellPool \<Rightarrow> GPUCellPool \<Rightarrow> bool" where
  \<comment> \<open>the same object up to the clocks of its status\<close>
  "same_pool p q \<longleftrightarrow> (\<exists>st. p = q\<lparr>po_Status := st\<rparr> \<and> st_Cells st = st_Cells (po_Status q))"

fun cordon_done :: "client \<Rightarrow> string \<Rightarrow> event \<Rightarrow> bool" where
  "cordon_done cs name (EvGetNode cs' n (Inl e)) \<longleftrightarrow> cs' = cs \<and> n = name \<and> IsNotFound e"
| "cordon_done cs name (EvGetNode cs' n (Inr nd)) \<longleftrightarrow> cs' = cs \<and> n = name \<and> nd_Unschedulable nd"
| "cordon_done cs name (EvPatchNode cs' n p (Inr _)) \<longleftrightarrow> cs' = cs \<and> n = name \<and> np_Unschedulable p = Some True"
| "cordon_done cs name _ \<longleftrightarrow> False"

definition drained :: "event list \<Rightarrow> string \<Rightarrow> bool" where
  \<comment> \<open>the Node was cordoned (or is gone), and directly after that its allocations were read and empty\<close>
  "drained pre name \<longleftrightarrow>
     (\<exists>pre1 ev cs a pre2. pre = (pre1 @ [ev]) @ EvAllocations cs name (Inr a) # pre2 \<and>
        cordon_done cs name ev \<and> Empty a)"

lemma same_pool_refl [simp]: "same_pool p p"
  by (auto simp: same_pool_def intro: exI [of _ "po_Status p"])

lemma same_pool_status [simp]:
  "same_pool p q \<Longrightarrow> st_Cells st = st_Cells (po_Status p) \<Longrightarrow> same_pool (p\<lparr>po_Status := st\<rparr>) q"
  by (auto simp: same_pool_def)

lemma same_pool_trans: "same_pool p q \<Longrightarrow> same_pool q r \<Longrightarrow> same_pool p r"
  by (auto simp: same_pool_def)

lemma same_pool_simps:
  assumes "same_pool p q"
  shows "po_Name p = po_Name q" "po_Namespace p = po_Namespace q" "po_Spec p = po_Spec q" "po_UID p = po_UID q"
    and "cellRequest env p = cellRequest env q" "provider env p = provider env q"
    and "bootstrap_values p = bootstrap_values q" "bootstrap_secret p = bootstrap_secret q"
    and "capiOwnsBootstrap p = capiOwnsBootstrap q"
proof -
  obtain st where p: "p = q\<lparr>po_Status := st\<rparr>" using assms by (auto simp: same_pool_def)
  show "po_Name p = po_Name q" "po_Namespace p = po_Namespace q" "po_Spec p = po_Spec q" "po_UID p = po_UID q"
    "cellRequest env p = cellRequest env q" "provider env p = provider env q"
    "bootstrap_values p = bootstrap_values q" "bootstrap_secret p = bootstrap_secret q"
    "capiOwnsBootstrap p = capiOwnsBootstrap q"
    by (auto simp: p fun_eq_iff cellRequest_def provider_def bootstrap_values_def bootstrap_secret_def
        capiOwnsBootstrap_def NewControllerRef_def hamiMode_def hamiDeviceClass_def nodeLabels_def expectedDevices_def)
qed

lemma same_pool_steps:
  "same_pool (remember_shape now cap p) p"
  "same_pool (p\<lparr>po_Status := stamp_scaling now demand known scale (po_Status p)\<rparr>) p"
proof -
  show "same_pool (remember_shape now cap p) p"
    by (auto simp: remember_shape_def split: option.split)
  have "st_Cells (stamp_scaling now demand known scale st) = st_Cells st" for st
    by (simp add: stamp_scaling_def Let_def)
  then show "same_pool (p\<lparr>po_Status := stamp_scaling now demand known scale (po_Status p)\<rparr>) p" by simp
qed

lemma stable_drained [intro]: "stable (\<lambda>tr. drained tr name)"
  unfolding stable_def drained_def by (metis append_assoc append_Cons)

lemma drained_unheld:
  \<comment> \<open>under a rule by which allocations are answered by the provider, a drained cell was held by nothing\<close>
  assumes "obeys R (pre @ post)" and "drained pre name"
    and "\<And>tr cs n r. R tr (EvAllocations cs n r) \<Longrightarrow> r = provider_Allocations (provider env q cs tr) n"
  shows "\<exists>pre1 ev cs a pre2. pre = (pre1 @ [ev]) @ EvAllocations cs name (Inr a) # pre2 \<and>
    cordon_done cs name ev \<and> \<not> provider_holder (provider env q cs (pre1 @ [ev])) name"
proof -
  obtain pre1 ev cs a pre2 where pre: "pre = (pre1 @ [ev]) @ EvAllocations cs name (Inr a) # pre2"
    and "cordon_done cs name ev" and empty: "Empty a"
    using assms(2) unfolding drained_def by blast
  moreover have "provider_Allocations (provider env q cs (pre1 @ [ev])) name = Inr a"
    using assms(1,3) obeysD [of R "pre1 @ [ev]" "EvAllocations cs name (Inr a)" "pre2 @ post"] unfolding pre by fastforce
  ultimately show ?thesis using hami.allocations_empty empty by blast
qed

lemma Cordon_cordons:
  "trip P (Cordon env cs name) (\<lambda>r tr. r = Inr () \<longrightarrow> tr \<noteq> [] \<and> cordon_done cs name (last tr))"
  unfolding Cordon_def get_node_def patch_node_def
proof (rule trip_bind)
  show "trip P (call (\<lambda>tr. en_GetNode env tr cs name) (EvGetNode cs name)) (\<lambda>r tr. tr \<noteq> [] \<and> last tr = EvGetNode cs name r)"
    by (rule trip_call) simp
qed (auto intro!: trip_rules trip_wrapping split: sum.splits)

text \<open>When \<^verbatim>\<open>AdvanceDrain\<close> lets a cell go: on an empty reading, or because the pool is being deleted.\<close>

definition rough :: "bool \<Rightarrow> bool \<Rightarrow> gotime \<Rightarrow> gotime \<Rightarrow> duration \<Rightarrow> bool" where
  "rough poolDeleting force since now timeout \<longleftrightarrow>
     poolDeleting \<and> (force \<or> 0 < timeout \<and> since \<noteq> 0 \<and> timeout < sub_time now since)"

lemma AdvanceDrain_reading:
  "dd_Proceed (AdvanceDrain (case reading of None \<Rightarrow> zero_Allocations | Some a \<Rightarrow> a) (reading \<noteq> None) del f s n t) \<Longrightarrow>
   (\<exists>a. reading = Some a \<and> Empty a) \<or> rough del f s n t"
  by (auto simp: AdvanceDrain_def rough_def Let_def split: if_splits option.splits)

section \<open>Removal rules\<close>

text \<open>The object that carries a cell's drain finalizer, and all the objects of a cell.\<close>

abbreviation holder_of :: "string \<Rightarrow> GroupVersionKind" where
  "holder_of prov \<equiv> by_name prov SwiftGuestGVK MachineGVK"

abbreviation parts_of :: "string \<Rightarrow> CellRequest \<Rightarrow> (GroupVersionKind \<times> string) list" where
  "parts_of prov \<equiv> by_name prov sg_parts capi_parts"

locale removal_rule = trace_rule +
  fixes env :: Env and q :: GPUCellPool and prov :: string
    and may_clear :: "event list \<Rightarrow> CellRequest \<Rightarrow> bool" and may_reap :: "event list \<Rightarrow> string \<Rightarrow> bool"
  assumes ask_clear: "may_clear pre req \<Longrightarrow> R pre (EvAsk (AskClear req))"
    and unguard: "may_clear pre req \<Longrightarrow> EvAsk (AskClear req) \<in> set pre \<Longrightarrow>
      EvGetObject (holder_of prov) (cr_Namespace req) (cr_CellName req) (Inr g) \<in> set pre \<Longrightarrow> R pre (EvUpdateObject (unguarded g) u)"
    and ask_delete: "may_clear (pre @ [EvClearDrainFinalizer req (Inr ())]) req \<Longrightarrow>
      R (pre @ [EvClearDrainFinalizer req (Inr ())]) (EvAsk (AskDelete req))"
    and delete: "may_clear pre req \<Longrightarrow> EvAsk (AskDelete req) \<in> set pre \<Longrightarrow> part \<in> set (parts_of prov req) \<Longrightarrow>
      refers pre (cr_Namespace req) part gvk ns name \<Longrightarrow> R pre (EvDeleteObject gvk ns name u)"
    and reap: "may_reap pre name \<Longrightarrow> R pre (EvDeleteNode cs name u)"
begin

lemma keeps_DeleteNode:
  assumes "stable X" and "\<And>tr. X tr \<Longrightarrow> may_reap tr name"
  shows "keeps (inv_of R X) (DeleteNode env cs name)"
  unfolding DeleteNode_def by (intro keeps_rules keeps_allowed_call) (use assms reap in auto)

lemma keeps_deleteCell:
  assumes X: "stable X" and same: "same_pool p q"
    and just: "\<And>tr. X tr \<Longrightarrow> may_clear tr (cellRequest env p (cs_Index cell))"
    and node: "\<And>tr. X tr \<Longrightarrow> reapNode \<Longrightarrow> may_reap tr (cs_Name cell)"
  shows "keeps (inv_of R X) (deleteCell env p prov cell reapNode)"
proof -
  let ?I = "inv_of R X" and ?req = "cellRequest env p (cs_Index cell)"
  let ?cleared = "\<lambda>tr. \<exists>pre. tr = pre @ [EvClearDrainFinalizer ?req (Inr ())]"
  have ask: "stable (\<lambda>tr. X tr \<and> EvAsk a \<in> set tr)" for a using X by auto
  have "trip ?I (prov_ClearDrainFinalizer env prov ?req)
      (\<lambda>r tr. ?I tr \<and> (\<exists>pre. tr = pre @ [EvClearDrainFinalizer ?req r]))"
    unfolding prov_ClearDrainFinalizer_def
    by (rule trip_bracket [OF X]) (auto intro!: pv.clear_keeps trace_rule_axioms ask ask_clear unguard just dest: inv_ofD)
  then have clear: "trip ?I (prov_ClearDrainFinalizer env prov ?req) (\<lambda>r tr. ?I tr \<and> (r = Inr () \<longrightarrow> ?cleared tr))"
    by (rule trip_weaken) auto
  have "trip (\<lambda>tr. ?I tr \<and> ?cleared tr) (prov_Delete env prov ?req) (\<lambda>r tr. ?I tr \<and> (\<exists>pre. tr = pre @ [EvDelete ?req r]))"
    unfolding prov_Delete_def
    by (rule trip_bracket [OF X]) (auto intro!: pv.delete_keeps trace_rule_axioms ask ask_delete delete just dest: inv_ofD)
  then have del: "trip (\<lambda>tr. ?I tr \<and> ?cleared tr)
      (attempt (prov_Delete env prov ?req) (\<lambda>_. ret (Inr ()))) (\<lambda>_. ?I)"
    by (rule trip_attempt) (auto intro: trip_ret)
  have tail: "keeps ?I (attempt (prov_ClearDrainFinalizer env prov ?req) (\<lambda>_.
      attempt (prov_Delete env prov ?req) (\<lambda>_. ret (Inr ()))))"
    unfolding keeps_def
    by (rule trip_attempt [OF clear]) (simp_all add: del)
  show ?thesis
    unfolding deleteCell_def Let_def
    by (intro keeps_attempt keeps_rules keeps_workloadClient keeps_DeleteNode tail X) (use node in auto)
qed

end

locale drain_rule = removal_rule + patching_rule +
  assumes reading: "R pre (EvAllocations cs name (provider_Allocations (provider env q cs pre) name))"
begin

lemma provider_allocations_drains:
  assumes X: "stable X" and same: "same_pool p q"
  shows "trip (\<lambda>tr. inv_of R X tr \<and> tr \<noteq> [] \<and> cordon_done cs name (last tr))
    (do { a \<leftarrow> provider_allocations env p cs name; ret (Inr (ok a)) })
    (\<lambda>r tr. inv_of R X tr \<and> (\<forall>x. r = Inr x \<longrightarrow> (\<forall>a. x = Some a \<and> Empty a \<longrightarrow> drained tr name)))"
proof (rule trip_bind)
  show "trip (\<lambda>tr. inv_of R X tr \<and> tr \<noteq> [] \<and> cordon_done cs name (last tr)) (provider_allocations env p cs name)
      (\<lambda>r tr. inv_of R X tr \<and> (\<forall>a. r = Inr a \<and> Empty a \<longrightarrow> drained tr name))"
    unfolding provider_allocations_def
  proof (rule trip_call, intro conjI allI impI, goal_cases)
    case (1 tr)
    then show ?case by (auto intro!: inv_of_snoc X reading simp: same_pool_simps [OF same])
  next
    case (2 tr a)
    then show ?case
      unfolding drained_def
      by (intro exI [of _ "butlast tr"] exI [of _ "last tr"] exI [of _ cs] exI [of _ a] exI [of _ "[]"]) simp
  qed
qed (auto intro!: trip_ret simp: ok_def split: sum.splits)

lemma keeps_progressDrain:
  assumes X: "stable X" and same: "same_pool p q"
    and just: "\<And>tr. X tr \<Longrightarrow> drained tr (cs_Name cell) \<or>
        rough del (deletionPolicy p = DeletionPolicyForce) since (en_now env) (drainTimeout p) \<Longrightarrow>
      may_clear tr (cellRequest env p (cs_Index cell)) \<and> may_reap tr (cs_Name cell)"
  shows "keeps (inv_of R X) (progressDrain env p prov inner cell del since)"
  unfolding progressDrain_def
proof (rule keeps_attempt_gain [where Y = "\<lambda>x tr. \<forall>a. x = Some a \<and> Empty a \<longrightarrow> drained tr (cs_Name cell)"], goal_cases)
  case 1
  have cordon: "trip (inv_of R X) (Cordon env cs n)
      (\<lambda>r tr. inv_of R X tr \<and> (r = Inr () \<longrightarrow> tr \<noteq> [] \<and> cordon_done cs n (last tr)))" for cs n
    using trip_conj [OF keeps_Cordon [OF X, unfolded keeps_def] Cordon_cordons [of "\<lambda>_. True"]] by simp
  show ?case
  proof (cases inner)
    case (Some cs)
    then show ?thesis
      using provider_allocations_drains [OF X same]
      by (simp, intro trip_attempt [OF cordon]) simp_all
  qed (auto intro: trip_ret)
next
  case (2 x)
  let ?Z = "\<lambda>tr. X tr \<and> (\<forall>a. x = Some a \<and> Empty a \<longrightarrow> drained tr (cs_Name cell))"
  have Z: "stable ?Z" using X stable_drained [of "cs_Name cell"] by (auto simp: stable_def)
  show ?case
    unfolding Let_def
  proof (intro keeps_rules keeps_deleteCell [OF Z same], goal_cases)
    case (1 tr)
    with AdvanceDrain_reading just [of tr] show ?case by fastforce
  next
    case (2 tr)
    with AdvanceDrain_reading just [of tr] show ?case by fastforce
  qed
qed

end

section \<open>Rules that let a pass through\<close>

text \<open>
  A rule that restricts neither removals nor creations is kept by everything a pass does about the
  cells; what is left to such a rule is what it says of the remaining calls, or nothing at all.
\<close>

locale open_rule = drain_rule R env q prov "\<lambda>_ _. True" "\<lambda>_ _. True" for R env q prov +
  assumes ask_ensure: "R pre (EvAsk (AskEnsure req))" and create: "R pre (EvCreateObject obj r)"
    and pool_nodes: "R pre (EvPoolNodes cs name nodes)"
begin

lemma keeps_prov_Ensure:
  assumes "stable X"
  shows "keeps (inv_of R X) (prov_Ensure env prov req)"
proof -
  have "trip (inv_of R X) (prov_Ensure env prov req) (\<lambda>r tr. inv_of R X tr \<and> (\<exists>pre. tr = pre @ [EvEnsure req r]))"
    unfolding prov_Ensure_def
    by (rule trip_bracket [OF assms]) (use assms in \<open>auto intro!: pv.ensure_keeps trace_rule_axioms ask_ensure create dest: inv_ofD\<close>)
  then show ?thesis unfolding keeps_def by (rule trip_weaken) auto
qed

lemma keeps_createCell: "stable X \<Longrightarrow> keeps (inv_of R X) (createCell env p prov idx)"
  unfolding createCell_def by (intro keeps_rules keeps_ensureBootstrapSecret keeps_prov_Ensure)

lemma keeps_open_deleteCell: "stable X \<Longrightarrow> same_pool p q \<Longrightarrow> keeps (inv_of R X) (deleteCell env p prov c reap)"
  by (rule keeps_deleteCell) simp_all

lemma keeps_open_progressDrain:
  "stable X \<Longrightarrow> same_pool p q \<Longrightarrow> keeps (inv_of R X) (progressDrain env p prov inner c del since)"
  by (rule keeps_progressDrain) simp_all

lemma keeps_open_reap: "stable X \<Longrightarrow> keeps (inv_of R X) (reapOrphanNodes env p cs keep)"
  unfolding reapOrphanNodes_def list_pool_nodes_def
  by (intro keeps_rules keeps_DeleteNode keeps_allowed_call keeps_allowed_emit) (auto simp: quiet pool_nodes)

lemma keeps_open_discover_cell: "stable X \<Longrightarrow> keeps (inv_of R X) (discover_cell env p prov inner row name idx)"
  unfolding discover_cell_def Let_def
  by (intro keeps_rules keeps_ensureBootstrapSecret keeps_prov_Ensure keeps_read_inner keeps_DeleteNode
      keeps_allowed_emit keeps_allowed_emit_all)
    (auto simp: row_metrics_def WithLabelValues_ok_def quiet split: if_splits option.splits)

lemma keeps_open_discoverCells: "stable X \<Longrightarrow> keeps (inv_of R X) (discoverCells env p prov inner)"
  unfolding discoverCells_def Let_def by (intro keeps_rules keeps_prov_List keeps_open_discover_cell keeps_open_reap)

lemma keeps_open_act:
  assumes X: "stable X" and same: "same_pool p q"
  shows "keeps (inv_of R X) (act env p prov inner ready idle scale plan cells)"
  unfolding act_def create_cells_def replace_failed_def drain_cells_def Let_def
  by (intro keeps_rules keeps_createCell keeps_open_deleteCell keeps_open_progressDrain keeps_open_discoverCells
      keeps_allowed_emit keeps_allowed_emit_all X same)
    (auto simp: quiet split: if_splits)

end

end
