(* ===== verification/SamplePass.thy ===== *)
theory SamplePass
  imports Reconciler
begin

text \<open>
  A concrete pass, for the witnesses of the properties of whole passes. The kubeconfig Secret is
  missing, so the workload cluster cannot be reached; the pool has one cell, Failed and past its
  backoff, whose seed profile is gone. The pass recreates the seed profile, clears the finalizer of
  the guest and asks for its deletion, which the server refuses.
\<close>

definition not_found :: go_error where
  "not_found = ApiErr ErrNotFound ''not found''"

definition refused :: go_error where
  "refused = ApiErr ErrForbidden ''forbidden''"

definition sample_failed :: CellStatus where
  "sample_failed = (sample_row ''p-0'' 0 CellPhaseFailed)\<lparr>cs_FailureCount := 1, cs_Reason := ReasonUnreachable,
     cs_Message := ''workload cluster unreachable; cell state is frozen at its last observation''\<rparr>"

definition sample_live_pool :: GPUCellPool where
  "sample_live_pool = sample_pool\<lparr>po_Finalizers := [FinalizerPool],
     po_Spec := (po_Spec sample_pool)\<lparr>
       sp_Bootstrap := (sp_Bootstrap (po_Spec sample_pool))\<lparr>bs_JoinSecretRef := Some ''join''\<rparr>\<rparr>,
     po_Status := (po_Status sample_pool)\<lparr>st_Cells := [sample_failed]\<rparr>\<rparr>"

definition sample_secret :: Secret where
  "sample_secret = \<lparr>se_Namespace = ''ns'', se_Name = ''s'', se_Labels = [], se_Owners = [],
     se_Data = [(''value'', ''k''), (SecretKey, ''x'')], se_ResourceVersion = ''1''\<rparr>"

definition sample_guest :: Unstructured where
  "sample_guest = (newUnstructured SwiftGuestGVK)\<lparr>un_Namespace := ''ns'', un_Name := ''p-0'', un_UID := ''u'',
     un_Finalizers := [''other'', FinalizerCellDrain]\<rparr>"

definition sample_env :: Env where
  "sample_env = \<lparr>en_now = 3600 * Second, en_sha256 = id, en_dns1123 = (\<lambda>_. []), en_restConfig = Inr, en_newClient = Inr,
     en_setStatusCondition = (\<lambda>cs c. cs @ [c]), en_GetPool = (\<lambda>_. Inr sample_live_pool), en_UpdatePool = (\<lambda>_. Inr),
     en_UpdateStatus = (\<lambda>_ _. Inr ()),
     en_GetSecret = (\<lambda>_ _ name. if name = ''kc'' then Inl not_found else Inr sample_secret),
     en_CreateSecret = (\<lambda>_ _. Inr ()), en_UpdateSecret = (\<lambda>_ _. Inr ()),
     en_Outer = (\<lambda>_. \<lparr>or_slices = Inr [], or_claims = Inr [], or_gpuNodes = Inr [], or_profile = (\<lambda>_ _. Inr None),
       or_claimTemplate = (\<lambda>_ _. Inr []), or_claim = (\<lambda>_ _. Inr [])\<rparr>),
     en_Probe = (\<lambda>_ _. Inr ()),
     en_HAMi = (\<lambda>_ _. \<lparr>cl_node = (\<lambda>_. Inl not_found), cl_pods_on = (\<lambda>_. Inr []), cl_pending = Inr [], cl_slices = Inr [],
       cl_class = (\<lambda>_. Inr ()), cl_claims = Inr []\<rparr>),
     en_GetNode = (\<lambda>_ _ _. Inl not_found), en_GetLease = (\<lambda>_ _ _. Inl not_found), en_ListNodes = (\<lambda>_ _ _. Inr []),
     en_PatchNode = (\<lambda>_ _ _ _. Inr ()), en_DeleteNode = (\<lambda>_ _ _. Inr ()),
     en_GetObject = (\<lambda>_ gvk _ _. if gvk = SwiftGuestGVK then Inr sample_guest else Inl not_found),
     en_ListObjects = (\<lambda>_ _ _ _. Inr [sample_guest]), en_CreateObject = (\<lambda>_. Inr), en_UpdateObject = (\<lambda>_ _. Inr ()),
     en_DeleteObject = (\<lambda>_ _ _ _. Inl refused)\<rparr>"

section \<open>The pass, step by step\<close>

abbreviation wd :: "event list \<Rightarrow> ClientCache \<Rightarrow> World" where
  "wd tr c \<equiv> \<lparr>wo_trace = tr, wo_cache = c\<rparr>"

lemmas io_eval = attempt_def wrapping_def call_def emit_def

lemma not_found_simps [simp]: "IsNotFound not_found" "\<not> IsNotFound refused" "error_text not_found = ''not found''"
  by (simp_all add: not_found_def refused_def IsNotFound_def)

lemma gvks_differ [simp]: "SwiftSeedProfileGVK \<noteq> SwiftGuestGVK"
  by (simp add: SwiftSeedProfileGVK_def SwiftGuestGVK_def)

lemma sample_workloadClient:
  "\<exists>reason msg evs. run_state (workloadClient sample_env sample_live_pool) (wd tr c) = ((None, reason, msg), wd (tr @ evs) c)"
  by (simp add: workloadClient_def get_secret_def io_eval sample_env_def sample_live_pool_def sample_pool_def Let_def)

lemma sample_bootstrap:
  "\<exists>evs. run_state (ensureBootstrapSecret sample_env sample_live_pool 0) (wd tr c) = (Inr (), wd (tr @ evs) c)"
proof -
  have "Render ''x'' (bootstrap_values sample_live_pool 0) = Inr ''x''" by code_simp
  then show ?thesis
    by (simp add: ensureBootstrapSecret_def store_bootstrap_def get_secret_def io_eval sample_env_def capiOwnsBootstrap_def
        sample_live_pool_def sample_pool_def sample_secret_def smap_get_def bootstrap_secret_def Let_def)
qed

lemma sample_Ensure:
  "\<exists>evs. run_state (prov_Ensure sample_env ProvisionerSwiftGuest (cellRequest sample_env sample_live_pool 0)) (wd tr c) =
     (Inr (observe sample_guest []), wd (tr @ evs) c) \<and>
   (\<exists>r. EvCreateObject (seed_object (cellRequest sample_env sample_live_pool 0)) r \<in> set evs)"
  by (simp add: prov_Ensure_def bracket_def by_name_def sg_Ensure_def ensureSeedProfile_def ensureGuest_def get_object_def
      create_object_def io_eval sample_env_def cellRequest_def Let_def sample_live_pool_def sample_pool_def)

lemma sample_row_next:
  "cs_Phase (previous_row sample_failed (observe sample_guest [])) = CellPhaseFailed"
  "previous_row sample_failed (observe sample_guest []) = sample_failed"
  "AdvanceCell (observation_of sample_live_pool sample_failed (observe sample_guest []) None (3600 * Second)) =
     \<lparr>de_Phase = CellPhaseFailed, de_Reason = ReasonUnreachable, de_Message = cs_Message sample_failed, de_ReapStaleNode = False\<rparr>"
  "cellStatus sample_failed ''p-0'' 0 (observe sample_guest [])
     (observation_of sample_live_pool sample_failed (observe sample_guest []) None (3600 * Second))
     \<lparr>de_Phase = CellPhaseFailed, de_Reason = ReasonUnreachable, de_Message = cs_Message sample_failed, de_ReapStaleNode = False\<rparr>
     (3600 * Second) = sample_failed"
  by code_simp+

lemma sample_discover_cell:
  "\<exists>evs. run_state (discover_cell sample_env sample_live_pool ProvisionerSwiftGuest None sample_failed ''p-0'' 0) (wd tr c) =
     (Inr sample_failed, wd (tr @ evs) c) \<and>
   (\<exists>r. EvCreateObject (seed_object (cellRequest sample_env sample_live_pool 0)) r \<in> set evs)"
proof -
  obtain e1 where e1: "run_state (ensureBootstrapSecret sample_env sample_live_pool 0) (wd tr c) = (Inr (), wd (tr @ e1) c)"
    using sample_bootstrap by blast
  obtain e2 where e2: "run_state (prov_Ensure sample_env ProvisionerSwiftGuest (cellRequest sample_env sample_live_pool 0)) (wd (tr @ e1) c) =
     (Inr (observe sample_guest []), wd ((tr @ e1) @ e2) c)"
   "\<exists>r. EvCreateObject (seed_object (cellRequest sample_env sample_live_pool 0)) r \<in> set e2"
    using sample_Ensure by blast
  have now: "en_now sample_env = 3600 * Second" by (simp add: sample_env_def)
  show ?thesis
    using e2(2) by (auto simp: discover_cell_def attempt_def wrapping_def e1 e2(1) read_inner_def Let_def now sample_row_next
        row_metrics_def) (auto simp: sample_failed_def sample_row_def)
qed

lemma sample_discoverCells:
  "\<exists>evs. run_state (discoverCells sample_env sample_live_pool ProvisionerSwiftGuest None) (wd tr c) =
     (Inr [sample_failed], wd (tr @ evs) c) \<and>
   (\<exists>r. EvCreateObject (seed_object (cellRequest sample_env sample_live_pool 0)) r \<in> set evs)"
proof -
  have list: "\<exists>evs. run_state (prov_List sample_env ProvisionerSwiftGuest sample_live_pool) (wd tr c) =
      (Inr [''p-0''], wd (tr @ evs) c)"
    by (simp add: prov_List_def by_name_def sg_List_def listCellNames_def io_eval Let_def sample_env_def sample_guest_def newUnstructured_def)
  then obtain e1 where e1: "run_state (prov_List sample_env ProvisionerSwiftGuest sample_live_pool) (wd tr c) =
      (Inr [''p-0''], wd (tr @ e1) c)" by blast
  obtain e2 where e2: "run_state (discover_cell sample_env sample_live_pool ProvisionerSwiftGuest None sample_failed ''p-0'' 0)
      (wd (tr @ e1) c) = (Inr sample_failed, wd ((tr @ e1) @ e2) c)"
    "\<exists>r. EvCreateObject (seed_object (cellRequest sample_env sample_live_pool 0)) r \<in> set e2"
    using sample_discover_cell by blast
  have parts: "ParseIndex (po_Name sample_live_pool) ''p-0'' = Inr 0"
    "previous_of (previous_rows (st_Cells (po_Status sample_live_pool))) ''p-0'' = sample_failed"
    "tombstones (sp_Replicas (po_Spec sample_live_pool)) (previous_rows (st_Cells (po_Status sample_live_pool))) [''p-0''] = []"
    "cs_Name sample_failed = ''p-0''"
    by code_simp+
  show ?thesis
    using e2(2) by (simp add: discoverCells_def attempt_def Let_def e1 e2(1) parts) blast
qed

text \<open>The sub-results of the decision half: no autoscaling, nothing to create, nothing to drain.\<close>

definition pass_scale :: ScaleDecision where
  "pass_scale = DecideScale (scale_input sample_live_pool [sample_failed] [] zero_Demand False False
     (free_of (physicalInventory (en_Outer sample_env []) sample_live_pool)) (3600 * Second))"

definition sample_stamped :: GPUCellPool where
  "sample_stamped = sample_live_pool\<lparr>po_Status :=
     stamp_scaling (3600 * Second) zero_Demand False pass_scale (po_Status sample_live_pool)\<rparr>"

definition pass_plan :: MembershipPlan where
  "pass_plan = PlanMembership (membership_input sample_stamped [sample_failed] pass_scale None False False (3600 * Second))"

lemma sample_pure:
  "free_of (physicalInventory (en_Outer sample_env tr) sample_live_pool) = None"
  "remember_shape (3600 * Second) zero_Capacity sample_live_pool = sample_live_pool"
  "ShouldReplace sample_failed (3600 * Second) False"
  "mp_Create pass_plan = []" "mp_Drain pass_plan = []"
  by code_simp+

lemma sample_replace:
  "\<exists>evs. run_state (deleteCell sample_env sample_stamped ProvisionerSwiftGuest sample_failed False) (wd tr c) =
     (Inl (Wrapped ''deleting SwiftGuest p-0'' refused), wd (tr @ evs) c) \<and>
   EvUpdateObject (sample_guest\<lparr>un_Finalizers := [''other'']\<rparr>) (Inr ()) \<in> set evs \<and>
   EvDeleteObject SwiftGuestGVK ''ns'' ''p-0'' (Inl refused) \<in> set evs"
proof -
  have req: "cr_CellName (cellRequest sample_env sample_stamped 0) = ''p-0''"
    "cr_Namespace (cellRequest sample_env sample_stamped 0) = ''ns''"
    and cell: "cs_Index sample_failed = 0" and fin: "un_Finalizers sample_guest = [''other'', FinalizerCellDrain]"
    by code_simp+
  have guest: "un_Namespace sample_guest = ''ns''" "un_Name sample_guest = ''p-0''" "IsZero (un_DeletionTimestamp sample_guest)"
    by (simp_all add: sample_guest_def newUnstructured_def)
  have server: "en_GetObject sample_env tr SwiftGuestGVK ns n = Inr sample_guest"
    "en_UpdateObject sample_env tr obj = Inr ()" "en_DeleteObject sample_env tr gvk ns n = Inl refused" for tr ns n obj gvk
    by (simp_all add: sample_env_def)
  show ?thesis
    by (simp add: deleteCell_def prov_ClearDrainFinalizer_def prov_Delete_def bracket_def by_name_def sg_ClearDrainFinalizer_def
        clear_finalizer_def sg_Delete_def remove_object_def delete_object_def update_object_def get_object_def
        withoutDrainFinalizer_def io_eval Let_def server req cell fin guest)
qed

lemma sample_act:
  "\<exists>e evs. run_state (act sample_env sample_stamped ProvisionerSwiftGuest None False [] pass_scale pass_plan [sample_failed]) (wd tr c) =
     (Inl e, wd (tr @ evs) c) \<and>
   EvUpdateObject (sample_guest\<lparr>un_Finalizers := [''other'']\<rparr>) (Inr ()) \<in> set evs \<and>
   EvDeleteObject SwiftGuestGVK ''ns'' ''p-0'' (Inl refused) \<in> set evs"
proof -
  have now: "en_now sample_env = 3600 * Second" by (simp add: sample_env_def)
  show ?thesis
    using sample_replace [of tr c]
    by (auto simp: act_def create_cells_def replace_failed_def attempt_def Let_def now sample_pure)
qed

lemma sample_reconcile:
  "\<exists>r evs. run_state (reconcile_live sample_env sample_live_pool ProvisionerSwiftGuest) (wd tr c) = (r, wd (tr @ evs) c) \<and>
   (\<exists>d. EvCreateObject (seed_object (cellRequest sample_env sample_live_pool 0)) d \<in> set evs) \<and>
   EvUpdateObject (sample_guest\<lparr>un_Finalizers := [''other'']\<rparr>) (Inr ()) \<in> set evs \<and>
   EvDeleteObject SwiftGuestGVK ''ns'' ''p-0'' (Inl refused) \<in> set evs"
proof -
  have now: "en_now sample_env = 3600 * Second" by (simp add: sample_env_def)
  obtain reason msg e1 where e1: "run_state (workloadClient sample_env sample_live_pool) (wd tr c) = ((None, reason, msg), wd (tr @ e1) c)"
    using sample_workloadClient by blast
  obtain e2 where e2: "run_state (discoverCells sample_env sample_live_pool ProvisionerSwiftGuest None) (wd (tr @ e1) c) =
     (Inr [sample_failed], wd ((tr @ e1) @ e2) c)"
     "\<exists>d. EvCreateObject (seed_object (cellRequest sample_env sample_live_pool 0)) d \<in> set e2"
    using sample_discoverCells by blast
  have scale: "DecideScale (scale_input sample_live_pool [sample_failed] [] zero_Demand False False None (3600 * Second)) = pass_scale"
    by (simp add: pass_scale_def sample_pure)
  have evs: "scale_events sample_live_pool pass_scale = []" by code_simp
  have rg: "rg_cap0 zero_Readings = zero_Capacity" "rg_demand zero_Readings = zero_Demand" "\<not> rg_demandKnown zero_Readings"
    "rg_shape zero_Readings = None" "\<not> he_Ready (rg_health zero_Readings)"
    by (simp_all add: zero_Readings_def)
  let ?seen = "((tr @ e1) @ e2) @ [EvRead ''Inventory'',
    EvMetric WorkloadClusterReachable [po_Name sample_live_pool, po_Namespace sample_live_pool] 0]"
  obtain e ea where ea: "run_state (act sample_env sample_stamped ProvisionerSwiftGuest None False [] pass_scale pass_plan
        [sample_failed]) (wd ?seen c) = (Inl e, wd (?seen @ ea) c)"
      "EvUpdateObject (sample_guest\<lparr>un_Finalizers := [''other'']\<rparr>) (Inr ()) \<in> set ea"
      "EvDeleteObject SwiftGuestGVK ''ns'' ''p-0'' (Inl refused) \<in> set ea"
    using sample_act by blast
  show ?thesis
    using e2(2) ea
    by (simp add: reconcile_live_def reconcile_with_eq attempt_def Let_def call_def emit_def e1 e2(1) now sample_pure
        read_capacity_def read_idle_def rg scale evs sample_stamped_def [symmetric] pass_plan_def [symmetric]) blast
qed

lemma sample_provisioner: "provisioner sample_live_pool = Inr ProvisionerSwiftGuest" "IsZero (po_DeletionTimestamp sample_live_pool)"
  "FinalizerPool \<in> set (po_Finalizers sample_live_pool)"
  by code_simp+

lemma sample_pass:
  obtains d where "EvCreateObject (seed_object (cellRequest sample_env sample_live_pool 0)) d \<in> set (pass_trace sample_env [])"
    and "EvUpdateObject (sample_guest\<lparr>un_Finalizers := [''other'']\<rparr>) (Inr ()) \<in> set (pass_trace sample_env [])"
    and "EvDeleteObject SwiftGuestGVK ''ns'' ''p-0'' (Inl refused) \<in> set (pass_trace sample_env [])"
proof -
  have get: "en_GetPool sample_env tr = Inr sample_live_pool" for tr by (simp add: sample_env_def)
  obtain r evs where run: "run_state (reconcile_live sample_env sample_live_pool ProvisionerSwiftGuest) (wd [EvRead ''GetPool''] []) =
      (r, wd ([EvRead ''GetPool''] @ evs) [])"
    and evs: "\<exists>d. EvCreateObject (seed_object (cellRequest sample_env sample_live_pool 0)) d \<in> set evs"
      "EvUpdateObject (sample_guest\<lparr>un_Finalizers := [''other'']\<rparr>) (Inr ()) \<in> set evs"
      "EvDeleteObject SwiftGuestGVK ''ns'' ''p-0'' (Inl refused) \<in> set evs"
    using sample_reconcile by blast
  have "pass_trace sample_env [] = EvRead ''GetPool'' # evs"
    by (simp add: pass_trace_def Reconcile_def io_eval Let_def get sample_provisioner run)
  with evs that show ?thesis by auto
qed

lemma sample_pass_pool: "pass_pool sample_env ProvisionerSwiftGuest sample_live_pool"
  using sample_provisioner by (auto simp: pass_pool_def sample_env_def)

section \<open>A pass that sweeps a Node\<close>

text \<open>
  The workload cluster is reached, the pool has no guest, and one Node carries the pool's label with
  no kubelet behind it; the server refuses its deletion.
\<close>

definition dead_sample_node :: Node where
  "dead_sample_node = \<lparr>nd_Name = ''p-7'', nd_Labels = [(LabelPool, ''p'')], nd_Annotations = [], nd_Conditions = [],
     nd_Unschedulable = False, nd_Taints = []\<rparr>"

definition sweep_env :: Env where
  "sweep_env = sample_env\<lparr>en_GetSecret := (\<lambda>_ _ _. Inr sample_secret), en_ListObjects := (\<lambda>_ _ _ _. Inr []),
     en_ListNodes := (\<lambda>_ _ _. Inr [dead_sample_node]),
     en_GetLease := (\<lambda>_ _ _. Inr (Some 1)), en_DeleteNode := (\<lambda>_ _ _. Inl refused)\<rparr>"

lemma sweep_pass: "EvDeleteNode ''k'' ''p-7'' (Inl refused) \<in> set (pass_trace sweep_env [])"
proof -
  have client: "For Inr Inr (clientKey sample_live_pool) sample_secret (wc_Key (sp_WorkloadCluster (po_Spec sample_live_pool))) [] =
      (Inr ''k'', [(clientKey sample_live_pool, \<lparr>ce_resourceVersion = ''1'', ce_client = ''k''\<rparr>)])" by code_simp
  have nodes: "ListPoolNodes (\<lambda>_. Inr [dead_sample_node]) (\<lambda>_. Inr (Some 1)) (po_Name sample_live_pool) now =
      Inr [(''p-7'', node_state_of (\<lambda>_. Inr (Some 1)) dead_sample_node now)]" for now
    by (simp add: ListPoolNodes_def dead_sample_node_def)
  have dead: "\<not> ns_KubeletLive (node_state_of (\<lambda>_. Inr (Some 1)) dead_sample_node (3600 * Second))" by code_simp
  have rows: "map cs_Name (tombstones (sp_Replicas (po_Spec sample_live_pool)) (previous_rows (st_Cells (po_Status sample_live_pool))) []) =
      [''p-0'']" by code_simp
  show ?thesis
    using sample_provisioner
    by (simp add: pass_trace_def Reconcile_def reconcile_live_def reconcile_with_eq workloadClient_def get_secret_def client_for_def
        discoverCells_def prov_List_def by_name_def sg_List_def listCellNames_def reapOrphanNodes_def list_pool_nodes_def DeleteNode_def
        io_eval Let_def sweep_env_def sample_env_def client nodes dead rows)
qed

lemma sweep_pass_pool: "pass_pool sweep_env ProvisionerSwiftGuest sample_live_pool"
  using sample_provisioner by (auto simp: pass_pool_def sweep_env_def sample_env_def)

end
