(* ===== verification/ReconcilerSafety.thy ===== *)
theory ReconcilerSafety
  imports RemovalRules SamplePass
begin

text \<open>
  What the calls of one pass over a live pool are allowed to be, given the calls before them, and
  that \<open>reconcile_live\<close> only makes allowed ones, whatever the two clusters answer. The rule
  \<open>lawful\<close> speaks of removing cells, deleting Nodes and creating guests; the properties at the end
  read it off for whole passes.
\<close>

section \<open>What a call must have before it\<close>

definition observed :: "Env \<Rightarrow> GPUCellPool \<Rightarrow> string \<Rightarrow> event list \<Rightarrow> CellStatus \<Rightarrow> bool" where
  \<comment> \<open>a row that a discovery of this pool has returned\<close>
  "observed env pool prov pre c \<longleftrightarrow>
     (\<exists>p inner w w' cells post. same_pool p pool \<and> run_state (discoverCells env p prov inner) w = (Inr cells, w') \<and>
        c \<in> set cells \<and> pre = wo_trace w' @ post)"

definition removable :: "Env \<Rightarrow> GPUCellPool \<Rightarrow> string \<Rightarrow> event list \<Rightarrow> CellRequest \<Rightarrow> bool" where
  "removable env pool prov pre req \<longleftrightarrow>
     (\<exists>c. observed env pool prov pre c \<and> req = cellRequest env pool (cs_Index c) \<and>
        (drained pre (cs_Name c) \<or> ShouldReplace c (en_now env) True))"

definition dead_node :: "GPUCellPool \<Rightarrow> event list \<Rightarrow> client \<Rightarrow> string \<Rightarrow> bool" where
  "dead_node pool pre cs name \<longleftrightarrow>
     (\<exists>ns req outer. EvNodeState cs name (Inr ns) \<in> set pre \<and> EvEnsure req (Inr outer) \<in> set pre \<and> stale_node ns outer) \<or>
     (\<exists>nodes ns. EvPoolNodes cs (po_Name pool) (Inr nodes) \<in> set pre \<and> (name, ns) \<in> set nodes \<and> \<not> ns_KubeletLive ns)"

fun seeded :: "GPUCellPool \<Rightarrow> i32 \<Rightarrow> string \<Rightarrow> event \<Rightarrow> bool" where
  \<comment> \<open>the cell's Secret holds this cloud-init\<close>
  "seeded pool idx rendered (EvGetSecret ns n (Inr s)) \<longleftrightarrow>
     n = BootstrapSecretName (Name (po_Name pool) idx) \<and> smap_get (se_Data s) SecretKey = rendered"
| "seeded pool idx rendered (EvCreateSecret s (Inr _)) \<longleftrightarrow> s = bootstrap_secret pool idx rendered"
| "seeded pool idx rendered (EvUpdateSecret s (Inr _)) \<longleftrightarrow> se_Data s = se_Data (bootstrap_secret pool idx rendered)"
| "seeded pool idx rendered _ \<longleftrightarrow> False"

definition bootable :: "GPUCellPool \<Rightarrow> event list \<Rightarrow> i32 \<Rightarrow> bool" where
  "bootable pool pre idx \<longleftrightarrow> capiOwnsBootstrap pool \<or>
     (pre \<noteq> [] \<and> (\<exists>tmpl rendered. Render tmpl (bootstrap_values pool idx) = Inr rendered \<and>
        seeded pool idx rendered (last pre)))"

abbreviation builds_of :: "string \<Rightarrow> CellRequest \<Rightarrow> Unstructured \<Rightarrow> bool" where
  "builds_of prov \<equiv> by_name prov sg_builds capi_builds"

fun lawful :: "Env \<Rightarrow> GPUCellPool \<Rightarrow> string \<Rightarrow> event list \<Rightarrow> event \<Rightarrow> bool" where
  "lawful env pool prov pre (EvAllocations cs name r) \<longleftrightarrow>
     r = provider_Allocations (provider env pool cs pre) name"
| "lawful env pool prov pre (EvAsk (AskClear req)) \<longleftrightarrow> removable env pool prov pre req"
| "lawful env pool prov pre (EvUpdateObject obj r) \<longleftrightarrow>
     (\<exists>req g. removable env pool prov pre req \<and> obj = unguarded g \<and>
        EvGetObject (holder_of prov) (cr_Namespace req) (cr_CellName req) (Inr g) \<in> set pre)"
| "lawful env pool prov pre (EvAsk (AskDelete req)) \<longleftrightarrow>
     pre \<noteq> [] \<and> last pre = EvClearDrainFinalizer req (Inr ())"
| "lawful env pool prov pre (EvDeleteObject gvk ns name r) \<longleftrightarrow>
     (\<exists>req part. removable env pool prov pre req \<and> EvAsk (AskDelete req) \<in> set pre \<and>
        part \<in> set (parts_of prov req) \<and> refers pre (cr_Namespace req) part gvk ns name)"
| "lawful env pool prov pre (EvDeleteNode cs name r) \<longleftrightarrow> dead_node pool pre cs name \<or> drained pre name"
| "lawful env pool prov pre (EvAsk (AskEnsure req)) \<longleftrightarrow>
     (\<exists>idx. req = cellRequest env pool idx \<and> bootable pool pre idx)"
| "lawful env pool prov pre (EvCreateObject obj r) \<longleftrightarrow>
     (\<exists>req. EvAsk (AskEnsure req) \<in> set pre \<and> builds_of prov req obj \<and> found_absent obj pre)"
| "lawful env pool prov pre (EvUpdatePool p r) \<longleftrightarrow> FinalizerPool \<in> set (po_Finalizers p)"
| "lawful env pool prov pre _ \<longleftrightarrow> True"

section \<open>Facts on the rule\<close>

lemma cellRequest_simps [simp]:
  "cr_Pool (cellRequest env p idx) = po_Name p" "cr_Namespace (cellRequest env p idx) = po_Namespace p"
  "cr_Index (cellRequest env p idx) = idx" "cr_CellName (cellRequest env p idx) = Name (po_Name p) idx"
  "cr_GuestTemplate (cellRequest env p idx) = ce_GuestTemplate (sp_Cell (po_Spec p))"
  "cr_ClusterAPI (cellRequest env p idx) = ce_ClusterAPI (sp_Cell (po_Spec p))"
  "cr_TemplateHash (cellRequest env p idx) = TemplateHash (en_sha256 env) [ce_GuestTemplate (sp_Cell (po_Spec p))]"
  by (simp_all add: cellRequest_def Let_def)

lemma stable_observed [intro]: "stable (\<lambda>tr. observed env pool prov tr c)"
  unfolding stable_def observed_def by (metis append_assoc)

lemma stable_dead_node [intro]: "stable (\<lambda>tr. dead_node pool tr cs name)"
  unfolding stable_def dead_node_def by (metis Un_iff set_append)

lemma stable_removable [intro]: "stable (\<lambda>tr. removable env pool prov tr req)"
  using stable_observed stable_drained unfolding stable_def removable_def by metis

lemma harmless_lawful: "harmless ev \<Longrightarrow> lawful env q prov pre ev"
  by (cases ev) simp_all

interpretation lw: drain_rule "lawful env q prov" env q prov "removable env q prov" drained for env q prov
  by unfold_locales (auto intro: harmless_lawful)

section \<open>Creating\<close>

lemma store_bootstrap_seeds:
  assumes "desired = bootstrap_secret p idx rendered"
  shows "trip P (store_bootstrap env desired rendered) (\<lambda>r tr. r = Inr () \<longrightarrow> tr \<noteq> [] \<and> seeded p idx rendered (last tr))"
  unfolding store_bootstrap_def get_secret_def Let_def
proof (rule trip_bind)
  let ?n = "BootstrapSecretName (Name (po_Name p) idx)"
  show "trip P (call (\<lambda>tr. en_GetSecret env tr (se_Namespace desired) (se_Name desired))
      (EvGetSecret (se_Namespace desired) (se_Name desired)))
      (\<lambda>r tr. tr \<noteq> [] \<and> (\<exists>ns. last tr = EvGetSecret ns ?n r))"
    by (rule trip_call) (simp add: assms bootstrap_secret_def)
qed (auto intro!: trip_rules simp: assms)

lemma bootable_capi: "capiOwnsBootstrap p \<Longrightarrow> bootable p tr idx"
  by (simp add: bootable_def)

lemma ensureBootstrapSecret_boots:
  "trip P (ensureBootstrapSecret env p idx) (\<lambda>r tr. r = Inr () \<longrightarrow> bootable p tr idx)"
proof -
  have store: "trip P' (store_bootstrap env (bootstrap_secret p idx rendered) rendered) (\<lambda>r tr. r = Inr () \<longrightarrow> bootable p tr idx)"
    if "Render tmpl (bootstrap_values p idx) = Inr rendered" for P' tmpl rendered
    by (rule trip_weaken [OF store_bootstrap_seeds [OF refl, of "P'"]]) (use that in \<open>auto simp: bootable_def\<close>)
  show ?thesis
    unfolding ensureBootstrapSecret_def Let_def
    by (auto intro!: trip_rules trip_attempt [where R = "\<lambda>_ _. True"] store trip_wrapping
        simp: bootable_capi get_secret_def)
qed

lemma same_pool_bootable:
  assumes "same_pool p q"
  shows "bootable p = bootable q"
proof -
  have "seeded p idx rendered ev = seeded q idx rendered ev" for idx rendered ev
    by (cases "(q, idx, rendered, ev)" rule: seeded.cases) (simp_all add: same_pool_simps [OF assms])
  then show ?thesis by (simp add: fun_eq_iff bootable_def same_pool_simps [OF assms])
qed

text \<open>A guest is only ever ensured right after its Secret was found or made to hold its cloud-init.\<close>

lemma prov_Ensure_allowed:
  assumes "stable X" and "same_pool p q"
  shows "trip (\<lambda>tr. inv_of (lawful env q prov) X tr \<and> bootable p tr idx) (prov_Ensure env prov (cellRequest env p idx))
    (\<lambda>r tr. inv_of (lawful env q prov) X tr \<and>
       (\<forall>outer. r = Inr outer \<longrightarrow> EvEnsure (cellRequest env p idx) (Inr outer) \<in> set tr))"
proof -
  let ?req = "cellRequest env p idx" and ?L = "lawful env q prov"
  have ask: "stable (\<lambda>tr. X tr \<and> EvAsk a \<in> set tr)" for a using assms(1) by auto
  have "trip (\<lambda>tr. inv_of ?L X tr \<and> bootable p tr idx) (prov_Ensure env prov ?req)
      (\<lambda>r tr. inv_of ?L X tr \<and> (\<exists>pre. tr = pre @ [EvEnsure ?req r]))"
    unfolding prov_Ensure_def
    by (rule lw.trip_bracket [OF assms(1)])
      (use assms(2) in \<open>auto simp: same_pool_simps same_pool_bootable intro!: pv.ensure_keeps lw.trace_rule_axioms ask\<close>)
  then show ?thesis by (rule trip_weaken) auto
qed

lemma keeps_boot_then:
  assumes "stable X" and "same_pool p q"
    and "m = prov_Ensure env prov (cellRequest env p idx) \<or> m = wrapping msg (prov_Ensure env prov (cellRequest env p idx))"
    and "\<And>outer. keeps (inv_of (lawful env q prov) (\<lambda>tr. X tr \<and> EvEnsure (cellRequest env p idx) (Inr outer) \<in> set tr)) (f outer)"
  shows "keeps (inv_of (lawful env q prov) X) (attempt (ensureBootstrapSecret env p idx) (\<lambda>_. attempt m f))"
  unfolding keeps_def
proof (rule trip_attempt)
  let ?I = "inv_of (lawful env q prov) X"
  have keep: "trip ?I (ensureBootstrapSecret env p idx) (\<lambda>_. ?I)"
    using lw.keeps_ensureBootstrapSecret [OF assms(1)] by (simp add: keeps_def)
  show "trip ?I (ensureBootstrapSecret env p idx) (\<lambda>r tr. ?I tr \<and> (r = Inr () \<longrightarrow> bootable p tr idx))"
    by (rule trip_weaken [OF trip_conj [OF keep ensureBootstrapSecret_boots [of "\<lambda>_. True"]]]) auto
  have "trip (\<lambda>tr. ?I tr \<and> bootable p tr idx) m
      (\<lambda>r tr. ?I tr \<and> (\<forall>outer. r = Inr outer \<longrightarrow> EvEnsure (cellRequest env p idx) (Inr outer) \<in> set tr))"
    using assms(3) prov_Ensure_allowed [OF assms(1,2)]
    by (auto intro!: trip_wrapping trip_weaken [OF prov_Ensure_allowed [OF assms(1,2)]] split: sum.splits)
  from trip_attempt [OF this, of f "\<lambda>_. ?I"] keeps_extra [OF assms(4)]
  show "trip (\<lambda>tr. ?I tr \<and> (Inr u = Inr () \<longrightarrow> bootable p tr idx)) (attempt m f) (\<lambda>_. ?I)" for u :: unit
    by simp
qed simp

lemma keeps_boot_createCell:
  "stable X \<Longrightarrow> same_pool p q \<Longrightarrow> keeps (inv_of (lawful env q prov) X) (createCell env p prov idx)"
  unfolding createCell_def
  by (intro keeps_case_option keeps_ret keeps_boot_then [where msg = "[]"]) auto

section \<open>Observing\<close>

lemma keeps_reap:
  assumes "stable X" and "\<And>tr. X tr \<Longrightarrow> dead_node q tr cs name \<or> drained tr name"
  shows "keeps (inv_of (lawful env q prov) X) (DeleteNode env cs name)"
  unfolding DeleteNode_def by (intro keeps_rules keeps_allowed_call) (use assms in auto)

lemma get_node_state_reads:
  "trip P (wrapping msg (get_node_state env cs name)) (\<lambda>r tr. \<forall>node. r = Inr node \<longrightarrow> EvNodeState cs name (Inr node) \<in> set tr)"
  unfolding get_node_state_def by (intro trip_wrapping trip_call) (auto split: sum.splits)

lemma read_inner_node:
  assumes X: "stable X"
  shows "trip (inv_of (lawful env q prov) X) (read_inner env p inner name idx outer)
    (\<lambda>r tr. inv_of (lawful env q prov) X tr \<and>
       (\<forall>rd. r = Inr (Some rd) \<longrightarrow> (\<exists>cs. inner = Some cs \<and> EvNodeState cs name (Inr (in_Node rd)) \<in> set tr)))"
proof (cases inner)
  case None
  then show ?thesis by (auto simp: read_inner_def intro: trip_ret)
next
  case (Some cs)
  let ?I = "inv_of (lawful env q prov) X" and ?N = "\<lambda>node tr. EvNodeState cs name (Inr node) \<in> set tr"
  let ?J = "\<lambda>node. inv_of (lawful env q prov) (\<lambda>tr. X tr \<and> ?N node tr)"
  have stable: "stable (\<lambda>tr. X tr \<and> ?N node tr)" for node using X by auto
  have first: "trip ?I (wrapping (''cell '' @ name) (get_node_state env cs name))
      (\<lambda>r tr. ?I tr \<and> (\<forall>node. r = Inr node \<longrightarrow> ?N node tr))"
    by (rule trip_weaken [OF trip_conj [OF lw.keeps_get_node_state [OF X, unfolded keeps_def] get_node_state_reads [of "\<lambda>_. True"]]]) auto
  have meta: "trip (?J node) (if b then wrapping msg (EnsureNodeMetadata env cs name l a t) else ret (Inr False)) (\<lambda>_. ?J node)"
    for node b msg l a t
    using lw.keeps_EnsureNodeMetadata [OF stable] by (auto simp: keeps_def [symmetric] intro!: keeps_rules)
  have last: "trip (?J node) (if b then do { h \<leftarrow> provider_health env p cs [name]; d \<leftarrow> provider_devices env p cs name;
        ret (Inr (Some \<lparr>in_Node = node, in_Health = ok h, in_Devices = ok d\<rparr>)) }
      else ret (Inr (Some \<lparr>in_Node = node, in_Health = None, in_Devices = None\<rparr>)))
      (\<lambda>r tr. ?I tr \<and> (\<forall>rd. r = Inr (Some rd) \<longrightarrow> ?N (in_Node rd) tr))" for node b
    by (auto intro!: trip_rules trip_bind [OF lw.keeps_provider_health [OF stable, unfolded keeps_def]]
        trip_bind [OF lw.keeps_provider_devices [OF stable, unfolded keeps_def]] simp: inv_of_def)
  show ?thesis
    unfolding read_inner_def Some option.case
  proof (rule trip_attempt [OF first], goal_cases)
    case (1 node)
    show ?case by (rule trip_weaken [OF trip_attempt [OF meta last]]) (auto simp: inv_of_def)
  qed simp
qed

lemma obs_stale:
  "ob_StaleNode (observation_of p prev outer reading now) \<longleftrightarrow>
     (\<exists>rd. reading = Some rd \<and> stale_node (in_Node rd) outer)"
  by (auto simp: observation_of_def stale_node_def Let_def split: option.split)

lemma keeps_discover_cell:
  assumes X: "stable X" and same: "same_pool p q"
  shows "keeps (inv_of (lawful env q prov) X) (discover_cell env p prov inner row name idx)"
  unfolding discover_cell_def
proof (rule keeps_boot_then [OF X same, where msg = "''observing cell '' @ name"], goal_cases)
  case (2 outer)
  let ?E = "\<lambda>tr. X tr \<and> EvEnsure (cellRequest env p idx) (Inr outer) \<in> set tr"
  let ?Y = "\<lambda>reading tr. \<forall>rd. reading = Some rd \<longrightarrow> (\<exists>cs. inner = Some cs \<and> EvNodeState cs name (Inr (in_Node rd)) \<in> set tr)"
  have E: "stable ?E" using X by auto
  have Y: "stable (\<lambda>tr. ?E tr \<and> ?Y reading tr)" for reading
    using E by (auto simp: stable_def)
  show ?case
    unfolding Let_def
  proof (rule keeps_attempt_gain [where Y = ?Y])
    show "trip (inv_of (lawful env q prov) ?E) (read_inner env p inner name idx outer)
        (\<lambda>r tr. inv_of (lawful env q prov) ?E tr \<and> (\<forall>x. r = Inr x \<longrightarrow> ?Y x tr))"
      by (rule trip_weaken [OF read_inner_node [OF E]]) auto
  qed (intro keeps_rules keeps_reap keeps_allowed_emit keeps_allowed_emit_all Y,
       auto simp: AdvanceCell_reap obs_stale dead_node_def row_metrics_def split: option.splits if_splits)
qed simp

lemma keeps_reapOrphanNodes:
  assumes X: "stable X" and same: "same_pool p q"
  shows "keeps (inv_of (lawful env q prov) X) (reapOrphanNodes env p cs keep)"
  unfolding reapOrphanNodes_def list_pool_nodes_def
proof (rule keeps_bind_gain [where Y = "\<lambda>r tr. EvPoolNodes cs (po_Name q) r \<in> set tr"], goal_cases)
  case 1
  show ?case
    by (rule trip_call) (auto intro!: inv_of_snoc X simp: same_pool_simps [OF same])
next
  case (2 r)
  have Y: "stable (\<lambda>tr. X tr \<and> EvPoolNodes cs (po_Name q) r \<in> set tr)" using X by auto
  show ?case
    by (intro keeps_rules keeps_reap keeps_allowed_emit Y) (auto simp: dead_node_def)
qed

lemma keeps_discoverCells:
  "stable X \<Longrightarrow> same_pool p q \<Longrightarrow> keeps (inv_of (lawful env q prov) X) (discoverCells env p prov inner)"
  unfolding discoverCells_def Let_def
  by (intro keeps_rules lw.keeps_prov_List keeps_discover_cell keeps_reapOrphanNodes)

lemma discoverCells_observed:
  assumes "stable X" and "same_pool p q"
  shows "trip (inv_of (lawful env q prov) X) (discoverCells env p prov inner)
    (\<lambda>r tr. inv_of (lawful env q prov) X tr \<and> (\<forall>cells. r = Inr cells \<longrightarrow> (\<forall>c \<in> set cells. observed env q prov tr c)))"
proof -
  have "trip (\<lambda>_. True) (discoverCells env p prov inner)
      (\<lambda>r tr. \<forall>cells. r = Inr cells \<longrightarrow> (\<forall>c \<in> set cells. observed env q prov tr c))"
    using assms(2) unfolding trip_def observed_def
    by (auto split: prod.splits) (metis append_Nil2)
  from trip_conj [OF keeps_discoverCells [OF assms, unfolded keeps_def] this] show ?thesis by simp
qed

section \<open>Removing\<close>

lemma marked_rows:
  "c' \<in> set (foldl (\<lambda>cs n. markDraining cs n now) cells ns) \<Longrightarrow>
   \<exists>c \<in> set cells. cs_Name c' = cs_Name c \<and> cs_Index c' = cs_Index c \<and> (cs_Phase c' = CellPhaseFailed \<longrightarrow> c' = c)"
proof (induction ns arbitrary: cells)
  case (Cons n ns)
  from Cons.IH [OF Cons.prems [simplified]] show ?case
    by (auto simp: markDraining_def mark_row_def split: if_splits)
qed auto

lemma keeps_replace_failed:
  assumes X: "stable X" and same: "same_pool p q"
    and obs: "\<And>tr c. X tr \<Longrightarrow> c \<in> set cells \<Longrightarrow> cs_Phase c = CellPhaseFailed \<Longrightarrow> observed env q prov tr c"
  shows "keeps (inv_of (lawful env q prov) X) (replace_failed env p prov ready cells)"
  unfolding replace_failed_def
proof (intro keeps_rules lw.keeps_deleteCell [OF X same], goal_cases)
  case (1 c tr)
  then have "cs_Phase c = CellPhaseFailed" "ShouldReplace c (en_now env) True"
    by (auto simp: ShouldReplace_def RebuildWouldNotHelp_def split: if_splits)
  with 1 obs [of tr c] show ?case by (auto simp: removable_def same_pool_simps [OF same])
qed simp

lemma keeps_drain_cells:
  assumes "stable X" and "same_pool p q"
    and "\<And>tr c. X tr \<Longrightarrow> c \<in> set cells \<Longrightarrow> \<exists>c0. observed env q prov tr c0 \<and> cs_Name c0 = cs_Name c \<and> cs_Index c0 = cs_Index c"
  shows "keeps (inv_of (lawful env q prov) X) (drain_cells env p prov inner cells)"
  unfolding drain_cells_def
  by (intro keeps_rules lw.keeps_progressDrain)
    (use assms in \<open>auto simp: rough_def removable_def same_pool_simps dest!: assms(3)\<close>)

section \<open>A whole pass\<close>

lemma keeps_act:
  assumes X: "stable X" and same: "same_pool p q"
    and obs: "\<And>tr c. X tr \<Longrightarrow> c \<in> set cells \<Longrightarrow> observed env q prov tr c"
  shows "keeps (inv_of (lawful env q prov) X) (act env p prov inner ready idle scale plan cells)"
  unfolding act_def
proof (rule keeps_attempt, goal_cases)
  case 1
  show ?case
    unfolding create_cells_def by (intro keeps_rules keeps_boot_createCell keeps_allowed_emit X same) auto
next
  case (2 u)
  let ?Y = "\<lambda>cells tr. \<forall>c \<in> set cells. observed env q prov tr c"
  show ?case
  proof (rule keeps_attempt_gain [where Y = ?Y], goal_cases)
    case 1
    show ?case
      using discoverCells_observed [OF X same] obs by (auto intro!: trip_ret dest: inv_ofD)
  next
    case (2 found)
    let ?Z = "\<lambda>tr. X tr \<and> ?Y found tr"
    have Z: "stable ?Z" using X stable_observed by (auto simp: stable_def)
    have marked: "\<exists>c0. observed env q prov tr c0 \<and> cs_Name c0 = cs_Name c \<and> cs_Index c0 = cs_Index c \<and>
        (cs_Phase c = CellPhaseFailed \<longrightarrow> c = c0)"
      if "?Z tr" "c \<in> set (foldl (\<lambda>cs n. markDraining cs n now) found ns)" for tr c now ns
      using marked_rows [OF that(2)] that(1) by fastforce
    have marked2: "\<exists>c0. observed env q prov tr c0 \<and> cs_Name c0 = cs_Name c \<and> cs_Index c0 = cs_Index c"
      if "?Z tr" "c \<in> set (if b then markDraining (foldl (\<lambda>cs n. markDraining cs n now) found ns) d now
             else foldl (\<lambda>cs n. markDraining cs n now) found ns)" for tr c now ns b d
      using marked [OF that(1), of c now "ns @ [d]"] marked [OF that(1), of c now ns] that(2)
      by (auto split: if_splits)
    have replace: "keeps (inv_of (lawful env q prov) ?Z)
        (replace_failed env p prov r (foldl (\<lambda>cs n. markDraining cs n now) found ns))" for r now ns
      by (rule keeps_replace_failed [OF Z same]) (use marked in blast)
    have drain: "keeps (inv_of (lawful env q prov) ?Z) (drain_cells env p prov inner
        (if b then markDraining (foldl (\<lambda>cs n. markDraining cs n now) found ns) d now
         else foldl (\<lambda>cs n. markDraining cs n now) found ns))" for b d now ns
      by (rule keeps_drain_cells [OF Z same]) (rule marked2)
    show ?case
      unfolding Let_def
      by (intro keeps_rules replace drain keeps_allowed_emit_all Z) (auto split: if_splits)
  qed
qed

lemma keeps_reconcile_with:
  assumes X: "stable X"
  shows "keeps (inv_of (lawful env q prov) X) (reconcile_with env q prov c)"
  unfolding reconcile_with_eq Let_def
proof (rule keeps_attempt_gain [OF discoverCells_observed [OF X same_pool_refl]], goal_cases)
  case (1 cells)
  let ?Z = "\<lambda>tr. X tr \<and> (\<forall>c \<in> set cells. observed env q prov tr c)"
  have Z: "stable ?Z" using X stable_observed by (auto simp: stable_def)
  show ?case
    by (intro keeps_rules lw.keeps_read_capacity lw.keeps_read_idle keeps_act keeps_allowed_call keeps_allowed_emit
        keeps_allowed_emit_all Z)
      (auto simp: scale_events_def split: if_splits intro: same_pool_trans same_pool_steps)
qed

section \<open>Passes\<close>

lemma Reconcile_unfold:
  assumes "pass_pool env prov q"
  obtains tr0 where "run_state (Reconcile env) \<lparr>wo_trace = [], wo_cache = cache\<rparr> =
      run_state (reconcile_live env q prov) \<lparr>wo_trace = tr0, wo_cache = cache\<rparr>"
    and "\<And>R. (\<And>pre p r. FinalizerPool \<in> set (po_Finalizers p) \<Longrightarrow> R pre (EvUpdatePool p r)) \<Longrightarrow>
      (\<And>pre s. R pre (EvRead s)) \<Longrightarrow> obeys R tr0"
proof -
  obtain pool where pool: "en_GetPool env [] = Inr pool" "IsZero (po_DeletionTimestamp pool)" "provisioner pool = Inr prov"
    and q: "if FinalizerPool \<in> set (po_Finalizers pool) then q = pool
         else en_UpdatePool env [EvRead ''GetPool''] (pool\<lparr>po_Finalizers := po_Finalizers pool @ [FinalizerPool]\<rparr>) = Inr q"
    using assms by (auto simp: pass_pool_def)
  let ?p = "pool\<lparr>po_Finalizers := po_Finalizers pool @ [FinalizerPool]\<rparr>"
  let ?tr = "[EvRead ''GetPool''] @ (if FinalizerPool \<in> set (po_Finalizers pool) then [] else [EvUpdatePool ?p (Inr q)])"
  show ?thesis
  proof
    show "run_state (Reconcile env) \<lparr>wo_trace = [], wo_cache = cache\<rparr> =
        run_state (reconcile_live env q prov) \<lparr>wo_trace = ?tr, wo_cache = cache\<rparr>"
      using pool q by (auto simp: Reconcile_def call_def attempt_def wrapping_def Let_def)
    show "obeys R ?tr" if "\<And>pre p r. FinalizerPool \<in> set (po_Finalizers p) \<Longrightarrow> R pre (EvUpdatePool p r)"
      "\<And>pre s. R pre (EvRead s)" for R
      using that by (auto simp: obeys_def less_Suc_eq nth_append)
  qed
qed

lemma keeps_reconcile_live: "stable X \<Longrightarrow> keeps (inv_of (lawful env q prov) X) (reconcile_live env q prov)"
  unfolding reconcile_live_def by (intro keeps_rules lw.keeps_workloadClient keeps_reconcile_with)

lemma pass_lawful:
  assumes "pass_pool env prov q"
  shows "obeys (lawful env q prov) (pass_trace env cache)"
proof -
  have any: "FinalizerPool \<in> set (po_Finalizers p) \<Longrightarrow> lawful env q prov pre (EvUpdatePool p r)"
    "lawful env q prov pre (EvRead s)" for pre p r s by simp_all
  obtain tr0 where run: "run_state (Reconcile env) \<lparr>wo_trace = [], wo_cache = cache\<rparr> =
      run_state (reconcile_live env q prov) \<lparr>wo_trace = tr0, wo_cache = cache\<rparr>"
    and ok0: "obeys (lawful env q prov) tr0"
    by (rule Reconcile_unfold [OF assms, of cache]) (simp add: any)
  obtain r w where w: "run_state (reconcile_live env q prov) \<lparr>wo_trace = tr0, wo_cache = cache\<rparr> = (r, w)" by fastforce
  have "inv_of (lawful env q prov) (\<lambda>_. True) (wo_trace w)"
    by (rule trip_run [OF keeps_reconcile_live [OF stable_True, unfolded keeps_def] _ w]) (simp add: inv_of_def ok0)
  then show ?thesis by (simp add: pass_trace_def run w inv_of_def)
qed

section \<open>Properties\<close>

lemma removable_evidence:
  assumes law: "obeys (lawful env q prov) (pre @ post)" and "removable env q prov pre req"
  obtains c where "observed env q prov pre c" and "req = cellRequest env q (cs_Index c)"
    and "ShouldReplace c (en_now env) True \<or>
     (\<exists>pre1 ev cs a pre2. pre = (pre1 @ [ev]) @ EvAllocations cs (cs_Name c) (Inr a) # pre2 \<and>
        cordon_done cs (cs_Name c) ev \<and> \<not> provider_holder (provider env q cs (pre1 @ [ev])) (cs_Name c))"
proof -
  obtain c where c: "observed env q prov pre c" "req = cellRequest env q (cs_Index c)"
    "drained pre (cs_Name c) \<or> ShouldReplace c (en_now env) True"
    using assms(2) unfolding removable_def by blast
  show ?thesis
    by (rule that [OF c(1,2)]) (use c(3) drained_unheld [OF law, of "cs_Name c" env q] in auto)
qed

lemma delete_evidence:
  assumes law: "obeys (lawful env q prov) (pre @ EvDeleteObject gvk ns name d # post)"
  obtains c part where "observed env q prov pre c"
    and "part \<in> set (parts_of prov (cellRequest env q (cs_Index c)))" and "refers pre (po_Namespace q) part gvk ns name"
    and "EvClearDrainFinalizer (cellRequest env q (cs_Index c)) (Inr ()) \<in> set pre"
    and "ShouldReplace c (en_now env) True \<or>
     (\<exists>pre1 ev cs a pre2. pre = (pre1 @ [ev]) @ EvAllocations cs (cs_Name c) (Inr a) # pre2 \<and>
        cordon_done cs (cs_Name c) ev \<and> \<not> provider_holder (provider env q cs (pre1 @ [ev])) (cs_Name c))"
proof -
  obtain req part where req: "removable env q prov pre req" "EvAsk (AskDelete req) \<in> set pre"
      "part \<in> set (parts_of prov req)" "refers pre (cr_Namespace req) part gvk ns name"
    using obeysD [OF law] by auto
  have clear: "EvClearDrainFinalizer req (Inr ()) \<in> set pre"
  proof (rule obeys_before [OF law req(2)])
    fix a b
    assume "pre = a @ EvAsk (AskDelete req) # b" and "lawful env q prov a (EvAsk (AskDelete req))"
    then show ?thesis by (cases a rule: rev_cases) auto
  qed
  obtain c where c: "observed env q prov pre c" "req = cellRequest env q (cs_Index c)"
    "ShouldReplace c (en_now env) True \<or>
     (\<exists>pre1 ev cs a pre2. pre = (pre1 @ [ev]) @ EvAllocations cs (cs_Name c) (Inr a) # pre2 \<and>
        cordon_done cs (cs_Name c) ev \<and> \<not> provider_holder (provider env q cs (pre1 @ [ev])) (cs_Name c))"
    by (rule removable_evidence [OF law req(1)])
  show ?thesis
    by (rule that [of c part]) (use req(3,4) clear c in auto)
qed

text \<open>
  C1. A pass over a live pool removes a cell only on evidence, whatever the two clusters answer and in
  whatever order errors strike. Every request to delete an object of the infrastructure cluster is
  for a part of a cell this pass observed, comes after the cell's drain finalizer was cleared
  successfully, and the cell either is Failed with its backoff expired and replacements left, or was
  drained: its Node was cordoned first, and then, read by the capacity provider with nothing in
  between, nothing held a share of the cell's GPU.
\<close>

theorem reconcile_removes_on_evidence:
  assumes "pass_pool env prov q" and "pass_trace env cache = pre @ EvDeleteObject gvk ns name d # post"
  shows "\<exists>c part. observed env q prov pre c \<and>
    part \<in> set (by_name prov sg_parts capi_parts (cellRequest env q (cs_Index c))) \<and>
    refers pre (po_Namespace q) part gvk ns name \<and>
    EvClearDrainFinalizer (cellRequest env q (cs_Index c)) (Inr ()) \<in> set pre \<and>
    (ShouldReplace c (en_now env) True \<or>
     (\<exists>pre1 ev cs a pre2. pre = (pre1 @ [ev]) @ EvAllocations cs (cs_Name c) (Inr a) # pre2 \<and>
        cordon_done cs (cs_Name c) ev \<and> \<not> provider_holder (provider env q cs (pre1 @ [ev])) (cs_Name c)))"
  using delete_evidence [OF pass_lawful [OF assms(1), of cache, unfolded assms(2)]] by metis

theorem reconcile_removes_on_evidence_witness:
  "\<exists>pre post (c :: CellStatus). pass_trace sample_env [] = pre @ EvDeleteObject SwiftGuestGVK ''ns'' ''p-0'' (Inl refused) # post \<and>
     EvClearDrainFinalizer (cellRequest sample_env sample_live_pool (cs_Index c)) (Inr ()) \<in> set pre"
proof -
  obtain pre post where tr: "pass_trace sample_env [] = pre @ EvDeleteObject SwiftGuestGVK ''ns'' ''p-0'' (Inl refused) # post"
    using sample_pass split_list by metis
  obtain c :: CellStatus where "EvClearDrainFinalizer (cellRequest sample_env sample_live_pool (cs_Index c)) (Inr ()) \<in> set pre"
    using reconcile_removes_on_evidence [OF sample_pass_pool tr] by blast
  with tr show ?thesis by (intro exI conjI)
qed

text \<open>
  The drain finalizer is the only thing a live pass ever changes on an existing object of the
  infrastructure cluster, and it comes off only on the same evidence: an update writes back the
  very object that was read for a cell, less that one finalizer, and the cell was observed and is
  to be replaced or drained. Until then nobody's deletion of the guest can complete.
\<close>

theorem reconcile_unguards_on_evidence:
  assumes "pass_pool env prov q" and "pass_trace env cache = pre @ EvUpdateObject obj d # post"
  shows "\<exists>c g. observed env q prov pre c \<and>
    EvGetObject (by_name prov SwiftGuestGVK MachineGVK) (po_Namespace q) (Name (po_Name q) (cs_Index c)) (Inr g) \<in> set pre \<and>
    obj = g\<lparr>un_Finalizers := filter (\<lambda>f. f \<noteq> FinalizerCellDrain) (un_Finalizers g)\<rparr> \<and>
    (ShouldReplace c (en_now env) True \<or>
     (\<exists>pre1 ev cs a pre2. pre = (pre1 @ [ev]) @ EvAllocations cs (cs_Name c) (Inr a) # pre2 \<and>
        cordon_done cs (cs_Name c) ev \<and> \<not> provider_holder (provider env q cs (pre1 @ [ev])) (cs_Name c)))"
proof -
  note law = pass_lawful [OF assms(1), of cache, unfolded assms(2)]
  obtain req g where req: "removable env q prov pre req" "obj = unguarded g"
      "EvGetObject (holder_of prov) (cr_Namespace req) (cr_CellName req) (Inr g) \<in> set pre"
    using obeysD [OF law] by auto
  obtain c where c: "observed env q prov pre c" "req = cellRequest env q (cs_Index c)"
    "ShouldReplace c (en_now env) True \<or>
     (\<exists>pre1 ev cs a pre2. pre = (pre1 @ [ev]) @ EvAllocations cs (cs_Name c) (Inr a) # pre2 \<and>
        cordon_done cs (cs_Name c) ev \<and> \<not> provider_holder (provider env q cs (pre1 @ [ev])) (cs_Name c))"
    by (rule removable_evidence [OF law req(1)])
  show ?thesis
    using req(2,3) c(1,3) unfolding c(2)
    by (intro exI [of _ c] exI [of _ g]) (simp add: unguarded_def withoutDrainFinalizer_def)
qed

theorem reconcile_unguards_on_evidence_witness:
  "\<exists>pre post (c :: CellStatus) g. pass_trace sample_env [] = pre @ EvUpdateObject (sample_guest\<lparr>un_Finalizers := [''other'']\<rparr>) (Inr ()) # post \<and>
     EvGetObject SwiftGuestGVK ''ns'' (Name ''p'' (cs_Index c)) (Inr g) \<in> set pre"
proof -
  obtain pre post where tr: "pass_trace sample_env [] =
      pre @ EvUpdateObject (sample_guest\<lparr>un_Finalizers := [''other'']\<rparr>) (Inr ()) # post"
    using sample_pass split_list by metis
  have simps: "by_name ProvisionerSwiftGuest SwiftGuestGVK MachineGVK = SwiftGuestGVK"
    "po_Namespace sample_live_pool = ''ns''" "po_Name sample_live_pool = ''p''"
    by (simp_all add: by_name_def sample_live_pool_def sample_pool_def)
  obtain c :: CellStatus and g where "EvGetObject SwiftGuestGVK ''ns'' (Name ''p'' (cs_Index c)) (Inr g) \<in> set pre"
    using reconcile_unguards_on_evidence [OF sample_pass_pool tr] unfolding simps by blast
  with tr show ?thesis by (intro exI conjI)
qed

text \<open>
  C11. A Node of the workload cluster is deleted by a live pass only on evidence that this is safe:
  the Node was read with no live kubelet behind it, either as a Node an earlier incarnation of the
  cell left behind, or in the sweep over the pool's label; or its cell was drained in this pass. So
  a Node whose kubelet heartbeats is never deleted under work.
\<close>

theorem reconcile_deletes_nodes_on_evidence:
  assumes "pass_pool env prov q" and "pass_trace env cache = pre @ EvDeleteNode cs name d # post"
  shows "(\<exists>ns req outer. EvNodeState cs name (Inr ns) \<in> set pre \<and> EvEnsure req (Inr outer) \<in> set pre \<and>
       \<not> ns_KubeletLive ns \<and> IsStaleNode (ns_Labels ns) (os_UID outer)) \<or>
     (\<exists>nodes ns. EvPoolNodes cs (po_Name q) (Inr nodes) \<in> set pre \<and> (name, ns) \<in> set nodes \<and> \<not> ns_KubeletLive ns) \<or>
     (\<exists>cs' a. EvAllocations cs' name (Inr a) \<in> set pre \<and> Empty a)"
proof -
  have "lawful env q prov pre (EvDeleteNode cs name d)"
    using obeysD pass_lawful [OF assms(1), of cache] assms(2) by metis
  then show ?thesis
    by (auto simp: dead_node_def stale_node_def drained_def) blast+
qed

theorem reconcile_deletes_nodes_on_evidence_witness:
  "\<exists>pre post. pass_trace sweep_env [] = pre @ EvDeleteNode ''k'' ''p-7'' (Inl refused) # post \<and>
     ((\<exists>ns. EvNodeState ''k'' ''p-7'' (Inr ns) \<in> set pre) \<or> (\<exists>nodes. EvPoolNodes ''k'' (po_Name sample_live_pool) (Inr nodes) \<in> set pre) \<or>
      (\<exists>cs a. EvAllocations cs ''p-7'' (Inr a) \<in> set pre))"
proof -
  obtain pre post where tr: "pass_trace sweep_env [] = pre @ EvDeleteNode ''k'' ''p-7'' (Inl refused) # post"
    using sweep_pass split_list by metis
  have "(\<exists>ns. EvNodeState ''k'' ''p-7'' (Inr ns) \<in> set pre) \<or> (\<exists>nodes. EvPoolNodes ''k'' (po_Name sample_live_pool) (Inr nodes) \<in> set pre) \<or>
      (\<exists>cs a. EvAllocations cs ''p-7'' (Inr a) \<in> set pre)"
    using reconcile_deletes_nodes_on_evidence [OF sweep_pass_pool tr] by blast
  with tr show ?thesis by (intro exI conjI)
qed

text \<open>
  C6. No VM boots without its cloud-init, and no object is created twice: every object a live pass
  creates in the infrastructure cluster is one the pool's provisioner builds for a cell of this pool,
  a Get of exactly that object came back not found, and the provisioner was asked for the cell
  directly after its Secret was found with, or made to hold, the rendered cloud-init (unless
  Cluster API owns the bootstrap).
\<close>

theorem reconcile_seeds_before_boot:
  assumes "pass_pool env prov q" and "pass_trace env cache = pre @ EvCreateObject obj r # post"
  shows "\<exists>idx pre1 pre2. by_name prov sg_builds capi_builds (cellRequest env q idx) obj \<and>
    (\<exists>e. EvGetObject (un_GVK obj) (un_Namespace obj) (un_Name obj) (Inl e) \<in> set pre \<and> IsNotFound e) \<and>
    pre = pre1 @ EvAsk (AskEnsure (cellRequest env q idx)) # pre2 \<and>
    (capiOwnsBootstrap q \<or> (\<exists>tmpl rendered. Render tmpl (bootstrap_values q idx) = Inr rendered \<and>
       pre1 \<noteq> [] \<and> seeded q idx rendered (last pre1)))"
proof -
  note law = pass_lawful [OF assms(1), of cache, unfolded assms(2)]
  obtain req where req: "EvAsk (AskEnsure req) \<in> set pre" "builds_of prov req obj" "found_absent obj pre"
    using obeysD [OF law] by auto
  obtain a b where pre: "pre = a @ EvAsk (AskEnsure req) # b" and "lawful env q prov a (EvAsk (AskEnsure req))"
    by (rule obeys_before [OF law req(1)])
  then obtain idx where "req = cellRequest env q idx" "bootable q a idx" by auto
  with req(2,3) pre show ?thesis
    unfolding bootable_def found_absent_def by blast
qed

theorem reconcile_seeds_before_boot_witness:
  "\<exists>pre d post idx pre1 pre2. pass_trace sample_env [] =
     pre @ EvCreateObject (seed_object (cellRequest sample_env sample_live_pool 0)) d # post \<and>
     pre = pre1 @ EvAsk (AskEnsure (cellRequest sample_env sample_live_pool idx)) # pre2"
proof -
  obtain pre d post where tr: "pass_trace sample_env [] =
      pre @ EvCreateObject (seed_object (cellRequest sample_env sample_live_pool 0)) d # post"
    using sample_pass split_list by metis
  obtain idx pre1 pre2 where "pre = pre1 @ EvAsk (AskEnsure (cellRequest sample_env sample_live_pool idx)) # pre2"
    using reconcile_seeds_before_boot [OF sample_pass_pool tr] by blast
  with tr show ?thesis by (intro exI conjI)
qed

end
