(* ===== verification/Admission.thy ===== *)
theory Admission
  imports Webhook ReconcilerSafety
begin

text \<open>
  What admission buys the rest of the operator: a pool the webhook lets through is one whose cells
  the provisioners can render, whose GPU request is the one the provisioner checks again, and whose
  size the autoscaler keeps within what was admitted.
\<close>

section \<open>Facts\<close>

lemma Validate_NilD:
  assumes "Validate dns pool old = []"
  shows "ValidatePool dns (po_Name pool) = None" and "validateProvisioner ''spec.cell'' pool = []"
    and "validateGPU ''spec.cell.gpu'' (ce_GPU (sp_Cell (po_Spec pool))) = []"
    and "validateSharedClaimIsSingleCell ''spec'' pool = []" and "validateTemplate ''spec.cell'' pool = []"
    and "validateBootstrap ''spec.bootstrap'' pool = []" and "validateAutoscaling ''spec.autoscaling'' pool = []"
    and "\<And>before. old = Some before \<Longrightarrow> sp_Replicas (po_Spec pool) < sp_Replicas (po_Spec before) \<Longrightarrow> workloadReachable before"
  using assms by (auto simp: Validate_def split: option.splits if_splits)

text \<open>The binding that \<^verbatim>\<open>cellRequest\<close> resolves from the GPU block.\<close>

definition backend_of :: "CellGPUSpec \<Rightarrow> string" where
  "backend_of gpu = (if gs_Backend gpu = [] then GPUBackendDRA else gs_Backend gpu)"

lemma cellRequest_GPU:
  fixes env :: Env and pool :: GPUCellPool and idx :: i32
  defines "g \<equiv> cr_GPU (cellRequest env pool idx)" and "gpu \<equiv> ce_GPU (sp_Cell (po_Spec pool))"
  shows "gb_Backend g = backend_of gpu"
    and "gb_ResourceClaimTemplateName g = (case gs_DRA gpu of None \<Rightarrow> [] | Some d \<Rightarrow> gd_ResourceClaimTemplateName d)"
    and "gb_ResourceClaimName g = (case gs_DRA gpu of None \<Rightarrow> [] | Some d \<Rightarrow> gd_ResourceClaimName d)"
    and "gb_Tier g = (case gs_DRA gpu of None \<Rightarrow> [] | Some d \<Rightarrow> gd_Tier d)"
    and "gb_GPUProfileName g = (case gs_Native gpu of None \<Rightarrow> [] | Some n \<Rightarrow> gn_GPUProfileRef n)"
  by (simp_all add: g_def gpu_def cellRequest_def Let_def backend_of_def split: option.split)

lemma ValidateTemplate_raw:
  assumes "ValidateTemplate raw = Inr ()"
  obtains tmpl where "Unmarshal decode_any_map raw = Inr tmpl" "template_ok tmpl"
  using assms ValidateTemplate_iff by blast

lemma machineGPU_total: "ValidateGPU g = Inr () \<Longrightarrow> \<exists>gpu. machineGPU g = Some gpu"
  by (auto simp: ValidateGPU_iff gpu_ok_def machineGPU_def)

section \<open>Properties\<close>

text \<open>
  C19. The GPU block is checked twice, at admission and again when a cell is rendered, and the two
  checks agree: the webhook accepts a block exactly when the provisioner accepts the binding the
  reconciler resolves from it and, beyond that, the block asks for at most one GPU and does not
  configure the backend it does not use.
\<close>

theorem validateGPU_agrees_with_render:
  "validateGPU p (ce_GPU (sp_Cell (po_Spec pool))) = [] \<longleftrightarrow>
     ValidateGPU (cr_GPU (cellRequest env pool idx)) = Inr () \<and>
     gs_Count (ce_GPU (sp_Cell (po_Spec pool))) \<in> {0, 1} \<and>
     (if backend_of (ce_GPU (sp_Cell (po_Spec pool))) = GPUBackendNative
      then gs_DRA (ce_GPU (sp_Cell (po_Spec pool))) = None else gs_Native (ce_GPU (sp_Cell (po_Spec pool))) = None)"
  by (cases "gs_DRA (ce_GPU (sp_Cell (po_Spec pool)))"; cases "gs_Native (ce_GPU (sp_Cell (po_Spec pool)))")
    (auto simp: validateGPU_def ValidateGPU_iff gpu_ok_def cellRequest_GPU backend_of_def Let_def)

text \<open>
  C18. An admitted pool can be built. Its provisioner is known, its name leaves room for every cell
  index, the template and the GPU request of every cell render without error under the provisioner
  the pool chose (under Cluster API with the cluster block present and a GPU in the machine), and
  there is join data: a named join Secret, or a bootstrap template of the workload cluster.
\<close>

theorem admitted_pool_renders:
  assumes "Validate dns pool old = []" and "bs_Provider (sp_Bootstrap (po_Spec pool)) \<in> {[], BootstrapProviderOpaque}"
  shows "\<exists>prov. provisioner pool = Inr prov \<and> length (po_Name pool) + 1 + maxIndexDigits \<le> hostnameMaxLen \<and>
    (prov = ProvisionerSwiftGuest \<and> (\<exists>spec. renderGuestSpec (cellRequest env pool idx) = Inr spec) \<or>
     prov = ProvisionerClusterAPI \<and> (\<exists>cfg backend gpu. cr_ClusterAPI (cellRequest env pool idx) = Some cfg \<and>
       renderMachineBackend (cellRequest env pool idx) = Inr backend \<and> machineGPU (cr_GPU (cellRequest env pool idx)) = Some gpu)) \<and>
    (capiOwnsBootstrap pool \<or> (\<exists>n. bs_JoinSecretRef (sp_Bootstrap (po_Spec pool)) = Some n \<and> n \<noteq> []))"
proof -
  let ?req = "cellRequest env pool idx"
  note parts = Validate_NilD [OF assms(1)]
  have name: "length (po_Name pool) + 1 + maxIndexDigits \<le> hostnameMaxLen"
    using parts(1) by (auto simp: ValidatePool_def Let_def split: if_splits)
  have gpu: "ValidateGPU (cr_GPU ?req) = Inr ()"
    using parts(3) by (cases "gs_DRA (ce_GPU (sp_Cell (po_Spec pool)))"; cases "gs_Native (ce_GPU (sp_Cell (po_Spec pool)))")
      (auto simp: validateGPU_def ValidateGPU_iff gpu_ok_def cellRequest_GPU backend_of_def Let_def split: if_splits)
  have tmpl: "ValidateTemplate (cr_GuestTemplate ?req) = Inr ()"
    using parts(5) by (auto simp: validateTemplate_def Let_def split: sum.splits)
  have join: "capiOwnsBootstrap pool \<or> (\<exists>n. bs_JoinSecretRef (sp_Bootstrap (po_Spec pool)) = Some n \<and> n \<noteq> [])"
    using parts(6) assms(2) by (auto simp: validateBootstrap_def Let_def split: if_splits option.splits)
  obtain t where "Unmarshal decode_any_map (cr_GuestTemplate ?req) = Inr t"
    using tmpl by (rule ValidateTemplate_raw)
  then have machine: "\<exists>backend. renderMachineBackend ?req = Inr backend"
    by (auto simp: renderMachineBackend_def Let_def)
  have "provisioner pool = Inr ProvisionerSwiftGuest \<or>
      (provisioner pool = Inr ProvisionerClusterAPI \<and> ce_ClusterAPI (sp_Cell (po_Spec pool)) \<noteq> None)"
    using parts(2) by (auto simp: validateProvisioner_def provisioner_def Let_def split: if_splits option.splits)
  then show ?thesis
  proof
    assume "provisioner pool = Inr ProvisionerSwiftGuest"
    with name join gpu tmpl renderGuestSpec_succeeds [of ?req] show ?thesis by auto
  next
    assume "provisioner pool = Inr ProvisionerClusterAPI \<and> ce_ClusterAPI (sp_Cell (po_Spec pool)) \<noteq> None"
    with name join machine machineGPU_total [OF gpu] show ?thesis by auto
  qed
qed

definition admitted_sample :: GPUCellPool where
  "admitted_sample = sample_pool\<lparr>po_Spec := (po_Spec sample_pool)\<lparr>
     sp_Cell := (sp_Cell (po_Spec sample_pool))\<lparr>ce_GuestTemplate := cr_GuestTemplate sample_request,
       ce_GPU := \<lparr>gs_Count = 1, gs_Backend = [], gs_DRA = Some \<lparr>gd_ResourceClaimTemplateName = [], gd_ResourceClaimName = ''gpu'',
         gd_RequestName = [], gd_Tier = [], gd_Hugepages = []\<rparr>, gs_Native = None\<rparr>\<rparr>,
     sp_Bootstrap := (sp_Bootstrap (po_Spec sample_pool))\<lparr>bs_JoinSecretRef := Some ''join''\<rparr>\<rparr>\<rparr>"

lemma admitted_sample_valid: "Validate (\<lambda>_. []) admitted_sample None = []"
  by code_simp

theorem admitted_pool_renders_witness:
  "Validate (\<lambda>_. []) admitted_sample None = [] \<and> provisioner admitted_sample = Inr ProvisionerSwiftGuest \<and>
   (\<exists>spec. renderGuestSpec (cellRequest sample_env admitted_sample 7) = Inr spec)"
proof -
  have "bs_Provider (sp_Bootstrap (po_Spec admitted_sample)) \<in> {[], BootstrapProviderOpaque}"
    by (simp add: admitted_sample_def sample_pool_def)
  note admitted = admitted_pool_renders [OF admitted_sample_valid this, of sample_env 7]
  have prov: "provisioner admitted_sample = Inr ProvisionerSwiftGuest" by code_simp
  have "ProvisionerSwiftGuest \<noteq> ProvisionerClusterAPI" by code_simp
  with admitted prov admitted_sample_valid show ?thesis by auto
qed

text \<open>
  C22. What admission promises of the size of a pool. With autoscaling off the desired count is the
  admitted replica count. With it on there is a maximum, and the desired count never exceeds it
  (where no minimum is set the replica count is the floor, and may itself exceed the maximum). The
  desired count of a pool with one named claim is at most one; this bounds what the pool wants and not the
  guests there are, since a draining cell still holds the claim (\<open>shared_claim_double_books\<close>).
\<close>

theorem admitted_pool_size_bounded:
  assumes "Validate dns pool old = []" and "inp = scale_input pool cells idle demand known shape free now" and "sane_scale inp"
  shows "(\<forall>as. sp_Autoscaling (po_Spec pool) = Some as \<and> as_Enabled as \<longrightarrow> (\<exists>m. as_MaxReplicas as = Some m \<and>
       sd_Desired (DecideScale inp) \<le> (if as_MinReplicas as = None then max m (sp_Replicas (po_Spec pool)) else m))) \<and>
    (\<not> autoscalingEnabled pool \<longrightarrow> sd_Desired (DecideScale inp) = sp_Replicas (po_Spec pool)) \<and>
    (\<forall>dra. gs_DRA (ce_GPU (sp_Cell (po_Spec pool))) = Some dra \<and> gd_ResourceClaimName dra \<noteq> [] \<longrightarrow>
       sd_Desired (DecideScale inp) \<le> 1)"
proof -
  note parts = Validate_NilD [OF assms(1)]
  have on: "\<exists>m. as_MaxReplicas as = Some m \<and>
      sd_Desired (DecideScale inp) \<le> (if as_MinReplicas as = None then max m (sp_Replicas (po_Spec pool)) else m)"
    if as: "sp_Autoscaling (po_Spec pool) = Some as" "as_Enabled as" for as
  proof -
    have spec: "si_Autoscaling inp = Some as" "si_Replicas inp = sp_Replicas (po_Spec pool)"
      using as(1) by (simp_all add: assms(2) scale_input_def)
    obtain m where m: "as_MaxReplicas as = Some m" "\<And>mn. as_MinReplicas as = Some mn \<Longrightarrow> mn \<le> m"
      using parts(7) as by (auto simp: validateAutoscaling_def split: option.splits if_splits)
    have "sd_Desired (DecideScale inp) \<le> scale_ceiling inp as"
      using DecideScale_desired [OF assms(3) spec(1) as(2)] scale_base_bounds(2) [of inp as] by (auto simp: grow_ok_def)
    also have "scale_ceiling inp as \<le> (if as_MinReplicas as = None then max m (sp_Replicas (po_Spec pool)) else m)"
      using m by (cases "as_MinReplicas as") (auto simp: scale_ceiling_def scale_floor_def spec Let_def)
    finally show ?thesis using m(1) by blast
  qed
  have off: "sd_Desired (DecideScale inp) = sp_Replicas (po_Spec pool)" if "\<not> autoscalingEnabled pool"
    using that by (auto simp: autoscalingEnabled_def assms(2) DecideScale_def scale_input_def hold_at_def split: option.splits)
  have one: "sd_Desired (DecideScale inp) \<le> 1"
    if "gs_DRA (ce_GPU (sp_Cell (po_Spec pool))) = Some dra" "gd_ResourceClaimName dra \<noteq> []" for dra
  proof -
    have single: "sp_Replicas (po_Spec pool) \<le> 1"
      "\<And>as m. sp_Autoscaling (po_Spec pool) = Some as \<Longrightarrow> as_Enabled as \<Longrightarrow> as_MaxReplicas as = Some m \<Longrightarrow> m \<le> 1"
      using parts(4) that by (auto simp: validateSharedClaimIsSingleCell_def split: option.splits if_splits)
    show ?thesis
    proof (cases "autoscalingEnabled pool")
      case True
      then obtain as where as: "sp_Autoscaling (po_Spec pool) = Some as" "as_Enabled as"
        by (auto simp: autoscalingEnabled_def split: option.splits)
      obtain m where "m \<le> 1" "sd_Desired (DecideScale inp) \<le> (if as_MinReplicas as = None then max m (sp_Replicas (po_Spec pool)) else m)"
        using on [OF as] single(2) [OF as] by blast
      with single(1) show ?thesis by (auto split: if_splits)
    qed (use off single(1) in simp)
  qed
  from on off one show ?thesis by blast
qed

theorem admitted_pool_size_bounded_witness:
  "sd_Desired (DecideScale (scale_input admitted_sample [] [] zero_Demand True True None 0)) = 1"
proof -
  have "sane_scale (scale_input admitted_sample [] [] zero_Demand True True None 0)"
    by (simp add: sane_scale_def scale_input_def admitted_sample_def sample_pool_def in_i32_def)
  from admitted_pool_size_bounded [OF admitted_sample_valid refl this] show ?thesis
    by (simp add: autoscalingEnabled_def admitted_sample_def sample_pool_def)
qed

text \<open>
  The single-claim rule bounds the desired count, not the guests: an admitted pool with one named
  claim whose cell is draining, and so still holds its device, creates a second guest on the same
  claim in the same pass.
\<close>

theorem shared_claim_double_books:
  "Validate (\<lambda>_. []) admitted_sample None = [] \<and>
   mp_Create (snd (scaling_pass admitted_sample [sample_row ''p-0'' 0 CellPhaseDraining] [] zero_Demand False False
     (Some 1) True True 100)) = [1] \<and>
   gb_ResourceClaimName (cr_GPU (cellRequest env admitted_sample 0)) = ''gpu'' \<and>
   gb_ResourceClaimName (cr_GPU (cellRequest env admitted_sample 1)) = ''gpu''"
proof -
  have "mp_Create (snd (scaling_pass admitted_sample [sample_row ''p-0'' 0 CellPhaseDraining] [] zero_Demand False False
      (Some 1) True True 100)) = [1]" by code_simp
  then show ?thesis
    using admitted_sample_valid by (simp add: cellRequest_GPU) (simp add: admitted_sample_def)
qed

text \<open>
  What the webhook does not refuse: under Cluster API a third interface passes admission, since the
  field \<^verbatim>\<open>interfaces\<close> is expressible, and the rendered machine has no trace of its network.
\<close>

definition capi_sample :: GPUCellPool where
  "capi_sample = admitted_sample\<lparr>po_Spec := (po_Spec admitted_sample)\<lparr>
     sp_Cell := (sp_Cell (po_Spec admitted_sample))\<lparr>ce_Provisioner := ProvisionerClusterAPI,
       ce_ClusterAPI := Some \<lparr>ca_ClusterName = ''wl'', ca_Version = [], ca_BootstrapConfigTemplateRef = None\<rparr>,
       ce_GuestTemplate := map (\<lambda>c. if c = CHR ''~'' then CHR 0x22 else c)
         (''{~imageRef~: {~name~: ~img~}, ~guestClassRef~: {~name~: ~gpu~}, ~interfaces~: [{~primary~: true, ~networkRef~: {~name~: ~a~}}, '' @
          ''{~networkRef~: {~name~: ~b~}}, {~networkRef~: {~name~: ~c~}}]}'')\<rparr>\<rparr>\<rparr>"

lemma capi_sample_parses:
  "parse_json (ce_GuestTemplate (sp_Cell (po_Spec capi_sample))) =
   Inr (JObj [(''imageRef'', JObj [(''name'', JStr ''img'')]), (''guestClassRef'', JObj [(''name'', JStr ''gpu'')]),
     (''interfaces'', JArr [JObj [(''primary'', JBool True), (''networkRef'', JObj [(''name'', JStr ''a'')])],
        JObj [(''networkRef'', JObj [(''name'', JStr ''b'')])], JObj [(''networkRef'', JObj [(''name'', JStr ''c'')])]])])"
  by code_simp

theorem capi_drops_third_network:
  "Validate (\<lambda>_. []) capi_sample None = [] \<and>
   renderMachineBackend (cellRequest sample_env capi_sample 0) = Inr [(''type'', JStr ''SwiftGuest''),
     (''swiftGuest'', JObj [(''imageRef'', JStr ''img''), (''guestClassRef'', JStr ''gpu''), (''networkRef'', JStr ''a''),
        (''nodeNetworkRef'', JStr ''b''), (''gpu'', JObj [(''resourceClaimName'', JStr ''gpu'')])])]"
proof -
  let ?raw = "ce_GuestTemplate (sp_Cell (po_Spec capi_sample))"
  have raw: "?raw \<noteq> []" by (simp add: capi_sample_def)
  have pool: "po_Name capi_sample = ''p''" "ce_Provisioner (sp_Cell (po_Spec capi_sample)) = ProvisionerClusterAPI"
    "ce_NodeIPFrom (sp_Cell (po_Spec capi_sample)) = []" "sp_Autoscaling (po_Spec capi_sample) = None"
    "ce_ClusterAPI (sp_Cell (po_Spec capi_sample)) = Some \<lparr>ca_ClusterName = ''wl'', ca_Version = [], ca_BootstrapConfigTemplateRef = None\<rparr>"
    "sp_WorkloadCluster (po_Spec capi_sample) = sp_WorkloadCluster (po_Spec sample_pool)"
    "sp_Capacity (po_Spec capi_sample) = sp_Capacity (po_Spec sample_pool)" "sp_Replicas (po_Spec capi_sample) = 1"
    "sp_Bootstrap (po_Spec capi_sample) = sp_Bootstrap (po_Spec admitted_sample)"
    "ce_GPU (sp_Cell (po_Spec capi_sample)) = ce_GPU (sp_Cell (po_Spec admitted_sample))"
    by (simp_all add: capi_sample_def admitted_sample_def sample_pool_def)
  have tmpl: "ValidateTemplate ?raw = Inr ()"
    by (simp add: ValidateTemplate_iff Unmarshal_def capi_sample_parses last_wins_def template_ok_def ownedFields_def
        deniedFields_def requiredFields_def)
  have "Validate (\<lambda>_. []) capi_sample None = []"
    using Validate_NilD(3) [OF admitted_sample_valid]
    by (simp add: Validate_def ValidatePool_def validateProvisioner_def validate_capi_def validateSharedClaimIsSingleCell_def
        validateTemplate_def validateBootstrap_def validateWorkloadCluster_def validateCapacity_def validateAutoscaling_def
        capiOwnsBootstrap_def Let_def pool raw tmpl Unmarshal_def capi_sample_parses last_wins_def capiExpressibleTemplateFields_def)
      (simp add: admitted_sample_def sample_pool_def pool(4))
  moreover have "machineGPU (cr_GPU (cellRequest sample_env capi_sample 0)) = Some [(''resourceClaimName'', JStr ''gpu'')]"
    by (simp add: machineGPU_def cellRequest_def capi_sample_def admitted_sample_def sample_pool_def Let_def put_nonempty_def
        gpu_tail_def)
  ultimately show ?thesis
    using raw by (simp add: renderMachineBackend_def interfaceNetworks_def put_nonempty_def Let_def Unmarshal_def capi_sample_parses
        last_wins_def)
qed

end
