(* ===== verification/CellObjects.thy ===== *)
theory CellObjects
  imports Admission
begin

text \<open>
  What both provisioners guarantee of the objects that make up a cell: the object that stands for
  the cell is created after all its other parts, and what was created is what the reconciler finds
  again.
\<close>

section \<open>Order of creation\<close>

definition present :: "event list \<Rightarrow> string \<Rightarrow> GroupVersionKind \<times> string \<Rightarrow> bool" where
  \<comment> \<open>an object with this key was read, or created\<close>
  "present tr ns part \<longleftrightarrow> (\<exists>g. EvGetObject (fst part) ns (snd part) (Inr g) \<in> set tr) \<or>
     (\<exists>obj stored. EvCreateObject obj (Inr stored) \<in> set tr \<and> un_GVK obj = fst part \<and> un_Namespace obj = ns \<and> un_Name obj = snd part)"

lemma stable_present [intro]: "stable (\<lambda>tr. present tr ns part)"
  by (auto simp: stable_def present_def)

lemma present_read [intro]: "EvGetObject gvk ns name (Inr g) \<in> set tr \<Longrightarrow> present tr ns (gvk, name)"
  by (auto simp: present_def)

lemma present_created [intro]:
  "EvCreateObject obj (Inr stored) \<in> set tr \<Longrightarrow> un_GVK obj = gvk \<Longrightarrow> un_Namespace obj = ns \<Longrightarrow> un_Name obj = name \<Longrightarrow>
   present tr ns (gvk, name)"
  unfolding present_def by auto

fun completing :: "string \<Rightarrow> (GroupVersionKind \<times> string) list \<Rightarrow> event list \<Rightarrow> event \<Rightarrow> bool" where
  "completing ns others pre (EvCreateObject obj r) \<longleftrightarrow>
     (FinalizerCellDrain \<in> set (un_Finalizers obj) \<longrightarrow> (\<forall>part \<in> set others. present pre ns part))"
| "completing ns others pre _ \<longleftrightarrow> True"

interpretation cm: trace_rule "completing ns others" for ns others
proof
  fix pre ev
  assume "harmless ev"
  then show "completing ns others pre ev" by (cases ev) simp_all
qed

lemma trip_create_object:
  "trip P (create_object env obj) (\<lambda>r tr. \<forall>stored. r = Inr stored \<longrightarrow> EvCreateObject obj (Inr stored) \<in> set tr)"
  unfolding create_object_def by (rule trip_call) auto

lemma trip_read_or_create:
  assumes "un_GVK obj = gvk" "un_Namespace obj = ns" "un_Name obj = name"
  shows "trip P (do { r \<leftarrow> get_object env gvk ns name;
      case r of Inr existing \<Rightarrow> ret (Inr x)
      | Inl e \<Rightarrow> if \<not> IsNotFound e then ret (Inl e) else attempt (create_object env obj) (\<lambda>_. ret (Inr x)) })
    (\<lambda>r tr. r = Inr x \<longrightarrow> present tr ns (gvk, name))"
  by (rule trip_bind [OF get_object_reads], intro trip_case_sum trip_if)
    (use assms in \<open>auto intro!: trip_ret trip_attempt [OF trip_create_object]\<close>)

lemma un_Finalizers_parts [simp]:
  "un_Finalizers (seed_object req) = []" "un_Finalizers (capi_object gvk req cfg spec) = []" "un_Finalizers (infra_object req cfg b) = []"
  by (simp_all add: seed_object_def capi_object_def infra_object_def newUnstructured_def)

lemma sg_completes:
  "keeps (inv_of (completing (cr_Namespace req) (tl (sg_parts req))) (\<lambda>_. True)) (sg_Ensure env req)"
proof -
  let ?seed = "(SwiftSeedProfileGVK, SeedName (cr_CellName req))"
  let ?R = "completing (cr_Namespace req) (tl (sg_parts req))"
  have seed: "keeps (inv_of ?R (\<lambda>_. True)) (ensureSeedProfile env req)"
    unfolding ensureSeedProfile_def
    by (intro keeps_rules cm.keeps_get_object cm.keeps_create_object) auto
  have "trip (\<lambda>_. True) (ensureSeedProfile env req) (\<lambda>r tr. r = Inr () \<longrightarrow> present tr (cr_Namespace req) ?seed)"
    unfolding ensureSeedProfile_def by (rule trip_read_or_create) simp_all
  from trip_conj [OF seed [unfolded keeps_def] this]
  have first: "trip (inv_of ?R (\<lambda>_. True)) (wrapping msg (ensureSeedProfile env req))
      (\<lambda>r tr. inv_of ?R (\<lambda>_. True) tr \<and> (\<forall>u. r = Inr u \<longrightarrow> present tr (cr_Namespace req) ?seed))" for msg
    by (intro trip_wrapping_gain) simp
  show ?thesis
    unfolding sg_Ensure_def ensureGuest_def
    by (rule keeps_attempt_gain [OF first], intro keeps_rules cm.keeps_get_object cm.keeps_create_object)
      (auto simp: sg_parts_def)
qed

lemma config_present:
  "trip P (ensureBootstrapConfig env req cfg)
     (\<lambda>r tr. \<forall>x. r = Inr x \<longrightarrow> (\<forall>ref. bootstrapTemplateRef req = Some ref \<longrightarrow>
        present tr (cr_Namespace req) (bootstrapConfigGVK ref, cr_CellName req)))"
  unfolding ensureBootstrapConfig_def Let_def
proof (intro trip_case_option trip_ret, simp, goal_cases)
  case (1 ref)
  show ?case
    by (rule trip_bind [OF get_object_reads], intro trip_case_sum trip_if trip_ret trip_attempt [OF trip_any] trip_case_option
        trip_attempt [OF trip_create_object])
      (use 1 in auto)
qed

lemma infra_present:
  "trip P (ensureInfraMachine env req cfg) (\<lambda>r tr. r = Inr () \<longrightarrow> present tr (cr_Namespace req) (KubeSwiftMachineGVK, cr_CellName req))"
  unfolding ensureInfraMachine_def
  by (rule trip_bind [OF get_object_reads], intro trip_case_sum trip_if)
    (auto intro!: trip_ret trip_attempt [OF trip_create_object])

lemma capi_completes:
  "keeps (inv_of (completing (cr_Namespace req) (tl (capi_parts req))) (\<lambda>_. True)) (capi_Ensure env req)"
proof -
  let ?R = "completing (cr_Namespace req) (tl (capi_parts req))"
  let ?C = "\<lambda>tr. \<forall>ref. bootstrapTemplateRef req = Some ref \<longrightarrow> present tr (cr_Namespace req) (bootstrapConfigGVK ref, cr_CellName req)"
  let ?I = "\<lambda>tr. present tr (cr_Namespace req) (KubeSwiftMachineGVK, cr_CellName req)"
  have C: "stable ?C" using stable_present by (auto simp: stable_def)
  note steps = keeps_rules cm.keeps_get_object cm.keeps_create_object
  have keep: "keeps (inv_of ?R X) (ensureBootstrapConfig env req cfg)" "keeps (inv_of ?R X) (ensureInfraMachine env req cfg)"
    if "stable X" for X cfg
    unfolding ensureBootstrapConfig_def ensureInfraMachine_def Let_def by (intro steps that; simp)+
  have config: "trip (inv_of ?R (\<lambda>_. True)) (wrapping msg (ensureBootstrapConfig env req cfg))
      (\<lambda>r tr. inv_of ?R (\<lambda>_. True) tr \<and> (\<forall>x. r = Inr x \<longrightarrow> ?C tr))" for msg cfg
    using trip_conj [OF keep(1) [OF stable_True, unfolded keeps_def] config_present [of "\<lambda>_. True"]]
    by (intro trip_wrapping_gain) simp
  have infra: "trip (inv_of ?R (\<lambda>tr. True \<and> ?C tr)) (wrapping msg (ensureInfraMachine env req cfg))
      (\<lambda>r tr. inv_of ?R (\<lambda>tr. True \<and> ?C tr) tr \<and> (\<forall>x. r = Inr x \<longrightarrow> ?I tr))" for msg cfg
    using trip_conj [OF keep(2) [of "\<lambda>tr. True \<and> ?C tr", unfolded keeps_def] infra_present [of "\<lambda>_. True"]] C
    by (intro trip_wrapping_gain) simp
  have all: "stable (\<lambda>tr. (True \<and> ?C tr) \<and> ?I tr)" using C stable_present by (auto simp: stable_def)
  have last: "keeps (inv_of ?R (\<lambda>tr. (True \<and> ?C tr) \<and> ?I tr)) (ensureMachine env req cfg ref)"
      "keeps (inv_of ?R (\<lambda>tr. (True \<and> ?C tr) \<and> ?I tr)) (observeMachine env req machine)" for cfg ref machine
    unfolding ensureMachine_def observeMachine_def providerID_def Let_def
    by (intro steps all; auto simp: capi_parts_def split: option.splits)+
  show ?thesis
    unfolding capi_Ensure_def
    by (intro keeps_case_option keeps_ret keeps_attempt_gain [OF config] keeps_attempt_gain [OF infra] keeps_attempt keeps_wrapping last)
qed

locale ordered_provisioner = provisioner_contract +
  assumes completes:
    "keeps (inv_of (completing (cr_Namespace req) (tl (parts req))) (\<lambda>_. True)) (ensure env req)"
begin

lemma creates_cell_last:
  assumes "run_state (ensure env req) \<lparr>wo_trace = [], wo_cache = c\<rparr> = (res, w)"
    and "wo_trace w = pre @ EvCreateObject obj d # post" and "FinalizerCellDrain \<in> set (un_Finalizers obj)"
    and "part \<in> set (tl (parts req))"
  shows "present pre (cr_Namespace req) part"
proof -
  have "inv_of (completing (cr_Namespace req) (tl (parts req))) (\<lambda>_. True) (wo_trace w)"
    using trip_run [OF completes [unfolded keeps_def] _ assms(1)] by (simp add: inv_of_def)
  with assms(2) have "completing (cr_Namespace req) (tl (parts req)) pre (EvCreateObject obj d)"
    by (auto simp: inv_of_def dest: obeysD)
  with assms(3,4) show ?thesis by simp
qed

end

interpretation ov: ordered_provisioner
  "by_name prov sg_Ensure capi_Ensure" "by_name prov sg_Delete capi_Delete"
  "by_name prov sg_ClearDrainFinalizer capi_ClearDrainFinalizer" "by_name prov sg_List capi_List"
  "by_name prov SwiftGuestGVK MachineGVK" "by_name prov sg_builds capi_builds"
  "by_name prov sg_cell_object capi_cell_object" "by_name prov sg_parts capi_parts" for prov
proof
  show "keeps (inv_of (completing (cr_Namespace req) (tl (by_name prov sg_parts capi_parts req))) (\<lambda>_. True))
      (by_name prov sg_Ensure capi_Ensure env req)" for req env
    using sg_completes capi_completes by (simp add: by_name_def)
qed

text \<open>A cell that has no object yet: the SwiftGuest provisioner creates the seed profile, then the guest.\<close>

definition sample_fresh_env :: Env where
  "sample_fresh_env = sample_env\<lparr>en_GetObject := (\<lambda>_ _ _ _. Inl not_found)\<rparr>"

lemma sample_fresh:
  assumes "renderGuestSpec sample_request = Inr spec"
  shows "\<exists>res w. run_state (by_name ProvisionerSwiftGuest sg_Ensure capi_Ensure sample_fresh_env sample_request) \<lparr>wo_trace = [], wo_cache = []\<rparr> = (res, w) \<and>
    EvCreateObject (guest_object sample_request spec) (Inr (guest_object sample_request spec)) \<in> set (wo_trace w)"
  using assms by (simp add: by_name_def sg_Ensure_def ensureSeedProfile_def ensureGuest_def get_object_def create_object_def
      io_eval Let_def sample_fresh_env_def sample_env_def)

text \<open>
  The object that stands for a cell, the one that carries the drain finalizer and that the platform
  starts acting on, is created last: by then every other object of the cell (the seed profile of a
  SwiftGuest; the KubeSwiftMachine and the bootstrap config of a Machine) was read or created
  successfully in the same call, so it never refers to something that is not there.
\<close>

theorem Ensure_creates_cell_last:
  assumes "run_state (by_name prov sg_Ensure capi_Ensure env req) \<lparr>wo_trace = [], wo_cache = c\<rparr> = (res, w)"
    and "wo_trace w = pre @ EvCreateObject obj d # post" and "FinalizerCellDrain \<in> set (un_Finalizers obj)"
    and "part \<in> set (tl (by_name prov sg_parts capi_parts req))"
  shows "(\<exists>g. EvGetObject (fst part) (cr_Namespace req) (snd part) (Inr g) \<in> set pre) \<or>
    (\<exists>other stored. EvCreateObject other (Inr stored) \<in> set pre \<and> un_GVK other = fst part \<and>
       un_Namespace other = cr_Namespace req \<and> un_Name other = snd part)"
  using ov.creates_cell_last [OF assms] by (simp add: present_def)

theorem Ensure_creates_cell_last_witness:
  "\<exists>spec res w pre d post. run_state (by_name ProvisionerSwiftGuest sg_Ensure capi_Ensure sample_fresh_env sample_request)
       \<lparr>wo_trace = [], wo_cache = []\<rparr> = (res, w) \<and>
     wo_trace w = pre @ EvCreateObject (guest_object sample_request spec) d # post \<and>
     ((\<exists>g. EvGetObject SwiftSeedProfileGVK ''ns'' ''p-0-seed'' (Inr g) \<in> set pre) \<or>
      (\<exists>other stored. EvCreateObject other (Inr stored) \<in> set pre \<and> un_GVK other = SwiftSeedProfileGVK))"
proof -
  obtain spec where spec: "renderGuestSpec sample_request = Inr spec" using sample_request_renders by blast
  obtain res w pre d post where run: "run_state (by_name ProvisionerSwiftGuest sg_Ensure capi_Ensure sample_fresh_env sample_request)
       \<lparr>wo_trace = [], wo_cache = []\<rparr> = (res, w)" and tr: "wo_trace w = pre @ EvCreateObject (guest_object sample_request spec) d # post"
    using sample_fresh [OF spec] split_list by metis
  have names: "cr_Namespace sample_request = ''ns''" "SeedName (cr_CellName sample_request) = ''p-0-seed''" by code_simp+
  have part: "(SwiftSeedProfileGVK, SeedName (cr_CellName sample_request)) \<in>
      set (tl (by_name ProvisionerSwiftGuest sg_parts capi_parts sample_request))"
    by (simp add: by_name_def sg_parts_def)
  have "(\<exists>g. EvGetObject SwiftSeedProfileGVK ''ns'' ''p-0-seed'' (Inr g) \<in> set pre) \<or>
      (\<exists>other stored. EvCreateObject other (Inr stored) \<in> set pre \<and> un_GVK other = SwiftSeedProfileGVK)"
    using Ensure_creates_cell_last [OF run tr _ part] unfolding names fst_conv snd_conv by auto
  with run tr show ?thesis by (intro exI conjI)
qed

section \<open>Finding a cell again\<close>

lemma observe_hash: "os_TemplateHash (observe obj ip) = smap_get (un_Annotations obj) AnnotationTemplateHash"
  by (simp add: observe_def Let_def)

lemma machine_state_hash: "os_TemplateHash (machine_state obj) = smap_get (un_Annotations obj) AnnotationTemplateHash"
  by (simp add: machine_state_def Let_def)

text \<open>
  C20. What is created for a cell is found again as that cell: the object of cell \<open>idx\<close> carries the label
  by which the pool's cells are listed, its name parses back to \<open>idx\<close>, its drain finalizer guards it,
  it is owned by the pool, and the template hash observed on it is the one a rollout compares with,
  so a fresh cell is never taken for stale.
\<close>

theorem created_cell_recognised:
  assumes "by_name prov sg_cell_object capi_cell_object (cellRequest env q idx) obj" and "0 \<le> idx" and "in_i32 idx"
  shows "map_of (un_Labels obj) LabelPool = Some (po_Name q) \<and> un_Namespace obj = po_Namespace q \<and>
    un_GVK obj = by_name prov SwiftGuestGVK MachineGVK \<and> ParseIndex (po_Name q) (un_Name obj) = Inr idx \<and>
    FinalizerCellDrain \<in> set (un_Finalizers obj) \<and> (\<exists>ref \<in> set (un_OwnerReferences obj). or_UID ref = po_UID q) \<and>
    by_name prov (os_TemplateHash (observe obj ip)) (os_TemplateHash (machine_state obj)) =
      ri_DesiredHash (rollout_input env q cells idle reachable scale plan)"
proof -
  have "ParseIndex (po_Name q) (Name (po_Name q) idx) = Inr idx"
    using assms(2,3) by (intro ParseIndex_Name_nonneg) (simp_all add: in_i32_def)
  moreover have "\<exists>ref \<in> set (un_OwnerReferences obj). or_UID ref = po_UID q"
    using assms(1)
    by (auto simp: by_name_def sg_cell_object_def capi_cell_object_def guest_object_def machine_object_def capi_object_def
        newUnstructured_def coOwnerRefs_def cellRequest_def Let_def NewControllerRef_def split: if_splits)
  ultimately show ?thesis
    using pv.cell_object [OF assms(1)] pv.builds_parts [of prov "cellRequest env q idx" obj]
    by (auto simp: observe_hash machine_state_hash rollout_input_def by_name_def)
qed

theorem created_cell_recognised_witness:
  "\<exists>obj :: Unstructured. ParseIndex ''p'' (un_Name obj) = Inr 3 \<and> FinalizerCellDrain \<in> set (un_Finalizers obj)"
proof -
  let ?cfg = "\<lparr>ca_ClusterName = ''wl'', ca_Version = [], ca_BootstrapConfigTemplateRef = None\<rparr>"
  let ?req = "cellRequest sample_env capi_sample 3"
  have cell: "by_name ProvisionerClusterAPI sg_cell_object capi_cell_object ?req (machine_object ?req ?cfg None)"
    by (auto simp: by_name_def capi_cell_object_def capi_sample_def)
  have name: "po_Name capi_sample = ''p''" and idx: "0 \<le> (3 :: i32)" "in_i32 3"
    by (simp_all add: capi_sample_def admitted_sample_def sample_pool_def in_i32_def)
  show ?thesis
    using created_cell_recognised [OF cell idx] unfolding name by blast
qed

end
