(* ===== verification/Outage.thy ===== *)
theory Outage
  imports ReconcilerSafety
begin

text \<open>
  A pass over a live pool whose workload cluster does not answer. The rule \<open>frozen\<close> says what such a
  pass may do, beside what \<open>lawful\<close> says of every pass.
\<close>

definition unreachable :: "Env \<Rightarrow> GPUCellPool \<Rightarrow> bool" where
  \<comment> \<open>the credential cannot be read, or no client of the workload cluster gets an answer\<close>
  "unreachable env q \<longleftrightarrow>
     (\<forall>tr. \<exists>e. en_GetSecret env tr (po_Namespace q) (wc_KubeconfigSecretRef (sp_WorkloadCluster (po_Spec q))) = Inl e) \<or>
     (\<forall>tr cs. \<exists>e. en_Probe env tr cs = Inl e)"

definition listed :: "Env \<Rightarrow> GPUCellPool \<Rightarrow> event list \<Rightarrow> CellRequest \<Rightarrow> bool" where
  \<comment> \<open>the request is for a cell whose guest the infrastructure cluster listed in this pass\<close>
  "listed env q pre req \<longleftrightarrow>
     (\<exists>guests name idx. EvList (po_Name q) (Inr guests) \<in> set pre \<and> name \<in> set guests \<and>
        ParseIndex (po_Name q) name = Inr idx \<and> req = cellRequest env q idx)"

fun frozen :: "Env \<Rightarrow> GPUCellPool \<Rightarrow> string \<Rightarrow> event list \<Rightarrow> event \<Rightarrow> bool" where
  "frozen env q prov pre (EvPatchNode cs name p r) \<longleftrightarrow> False"
| "frozen env q prov pre (EvDeleteNode cs name r) \<longleftrightarrow> False"
| "frozen env q prov pre (EvAllocations cs name r) \<longleftrightarrow> False"
| "frozen env q prov pre (EvAsk (AskEnsure req)) \<longleftrightarrow> listed env q pre req"
| "frozen env q prov pre (EvCreateObject obj r) \<longleftrightarrow>
     (\<exists>req. EvAsk (AskEnsure req) \<in> set pre \<and> builds_of prov req obj)"
| "frozen env q prov pre _ \<longleftrightarrow> True"

lemma harmless_frozen: "harmless ev \<Longrightarrow> frozen env q prov pre ev"
  by (cases ev) simp_all

interpretation fz: removal_rule "frozen env q prov" env q prov "\<lambda>_ _. True" "\<lambda>_ _. False" for env q prov
  by unfold_locales (auto intro: harmless_frozen)

section \<open>The steps of a pass during an outage\<close>

lemma workloadClient_unreachable:
  assumes "unreachable env q" and "same_pool p q"
  shows "trip P (workloadClient env p) (\<lambda>r _. fst r = None)"
  unfolding trip_def
proof (intro allI impI)
  fix w :: World
  have "fst (fst (run_state (workloadClient env p) w)) = None"
    using assms(1) unfolding unreachable_def
  proof
    assume "\<forall>tr. \<exists>e. en_GetSecret env tr (po_Namespace q) (wc_KubeconfigSecretRef (sp_WorkloadCluster (po_Spec q))) = Inl e"
    then obtain e where "en_GetSecret env (wo_trace w) (po_Namespace q) (wc_KubeconfigSecretRef (sp_WorkloadCluster (po_Spec q))) = Inl e"
      by blast
    then show ?thesis
      by (simp add: workloadClient_def get_secret_def call_def Let_def same_pool_simps [OF assms(2)])
  next
    assume "\<forall>tr cs. \<exists>e. en_Probe env tr cs = Inl e"
    then have "en_Probe env tr cs \<noteq> Inr u" for tr cs u
      by (metis sum.distinct(1))
    then show ?thesis
      by (auto simp: workloadClient_def get_secret_def client_for_def call_def Let_def split: sum.splits prod.splits)
  qed
  then show "case run_state (workloadClient env p) w of (r, w') \<Rightarrow> fst r = None"
    by (simp add: split_beta)
qed

lemma prov_List_listed:
  assumes "stable X" and "same_pool p q"
  shows "trip (inv_of (frozen env q prov) X) (prov_List env prov p)
    (\<lambda>r tr. inv_of (frozen env q prov) X tr \<and> (\<forall>guests. r = Inr guests \<longrightarrow> EvList (po_Name q) (Inr guests) \<in> set tr))"
proof -
  have "trip (\<lambda>_. True) (prov_List env prov p) (\<lambda>r tr. \<forall>guests. r = Inr guests \<longrightarrow> EvList (po_Name q) (Inr guests) \<in> set tr)"
    unfolding prov_List_def
    by (rule trip_bind [OF trip_any], rule trip_bind [where R = "\<lambda>_ tr. _ \<in> set tr"], rule trip_emit, simp)
      (auto intro: trip_ret simp: same_pool_simps [OF assms(2)])
  from trip_conj [OF fz.keeps_prov_List [OF assms(1), unfolded keeps_def] this] show ?thesis by simp
qed

lemma keeps_prov_Ensure_listed:
  assumes X: "stable X" and "\<And>tr. X tr \<Longrightarrow> listed env q tr req"
  shows "keeps (inv_of (frozen env q prov) X) (prov_Ensure env prov req)"
proof -
  have "trip (inv_of (frozen env q prov) X) (prov_Ensure env prov req)
      (\<lambda>r tr. inv_of (frozen env q prov) X tr \<and> (\<exists>pre. tr = pre @ [EvEnsure req r]))"
    unfolding prov_Ensure_def
    by (rule fz.trip_bracket [OF X]) (use X assms(2) in \<open>auto intro!: pv.ensure_keeps fz.trace_rule_axioms dest: inv_ofD\<close>)
  then show ?thesis unfolding keeps_def by (rule trip_weaken) auto
qed

lemma keeps_discover_frozen:
  assumes "stable X" and "same_pool p q"
  shows "keeps (inv_of (frozen env q prov) X) (discoverCells env p prov None)"
  unfolding discoverCells_def Let_def
proof (rule keeps_attempt_gain [OF prov_List_listed [OF assms]], goal_cases)
  case (1 guests)
  let ?Z = "\<lambda>tr. X tr \<and> EvList (po_Name q) (Inr guests) \<in> set tr"
  have Z: "stable ?Z" using assms(1) by auto
  have cell: "keeps (inv_of (frozen env q prov) ?Z) (discover_cell env p prov None row name idx)"
    if "name \<in> set guests" "ParseIndex (po_Name q) name = Inr idx" for row name idx
    unfolding discover_cell_def read_inner_def Let_def option.case
    by (intro keeps_rules fz.keeps_ensureBootstrapSecret keeps_prov_Ensure_listed keeps_allowed_emit_all Z)
      (use that in \<open>auto simp: listed_def same_pool_simps [OF assms(2)] row_metrics_def split: if_splits option.splits\<close>)
  show ?case
    by (intro keeps_rules cell) (auto simp: same_pool_simps [OF assms(2)])
qed

lemma keeps_act_frozen:
  assumes X: "stable X" and "same_pool p q" and "mp_Create plan = []"
  shows "keeps (inv_of (frozen env q prov) X) (act env p prov None ready idle scale plan cells)"
proof -
  have gone: "\<not> dd_Proceed (AdvanceDrain zero_Allocations False False f s n t)" for f s n t
    by (simp add: AdvanceDrain_def Let_def)
  have drain: "keeps (inv_of (frozen env q prov) X) (progressDrain env p prov None cell False since)" for cell since
    by (simp add: progressDrain_def attempt_def Let_def gone keeps_ret)
  show ?thesis
    unfolding act_def create_cells_def replace_failed_def drain_cells_def Let_def assms(3) each.simps list.size
    by (intro keeps_rules drain fz.keeps_deleteCell [OF X assms(2)] keeps_allowed_emit_all X)
      (auto split: if_splits)
qed

lemma unreachable_creates_nothing:
  assumes "\<not> mi_WorkloadReachable inp"
  shows "mp_Create (PlanMembership inp) = []"
proof -
  let ?n = "normal_input inp"
  let ?f = "failed_pass ?n (mt_failed (tally (mi_Cells ?n))) zero_MembershipPlan"
  have "mp_Create p = []" if "?f = Inl p \<or> ?f = Inr p" for p
    using failed_pass_frame [OF that] by (simp add: zero_MembershipPlan_def)
  then show ?thesis
    using assms unfolding PlanMembership_def normal_input_def [symmetric]
    by (cases ?f) (auto simp: Let_def plan_scale_down_Create)
qed

lemma keeps_reconcile_frozen:
  assumes X: "stable X"
  shows "keeps (inv_of (frozen env q prov) X) (reconcile_with env q prov (None, why))"
  unfolding reconcile_with_eq read_capacity_def read_idle_def Let_def fst_conv option.case
  by (intro keeps_rules keeps_discover_frozen keeps_act_frozen unreachable_creates_nothing keeps_allowed_call
      keeps_allowed_emit keeps_allowed_emit_all X)
    (auto simp: scale_events_def membership_input_def split: if_splits intro: same_pool_trans same_pool_steps)

lemma pass_frozen:
  assumes "pass_pool env prov q" and "unreachable env q"
  shows "obeys (frozen env q prov) (pass_trace env cache)"
proof -
  let ?I = "inv_of (frozen env q prov) (\<lambda>_. True)"
  have any: "frozen env q prov pre (EvUpdatePool p r)" "frozen env q prov pre (EvRead s)" for pre p r s by simp_all
  obtain tr0 where run: "run_state (Reconcile env) \<lparr>wo_trace = [], wo_cache = cache\<rparr> =
      run_state (reconcile_live env q prov) \<lparr>wo_trace = tr0, wo_cache = cache\<rparr>"
    and ok0: "obeys (frozen env q prov) tr0"
    by (rule Reconcile_unfold [OF assms(1), of cache]) (simp add: any)
  have live: "trip ?I (reconcile_live env q prov) (\<lambda>_. ?I)"
    unfolding reconcile_live_def
  proof (rule trip_bind)
    show "trip ?I (workloadClient env q) (\<lambda>c tr. ?I tr \<and> fst c = None)"
      using trip_conj [OF fz.keeps_workloadClient [OF stable_True, unfolded keeps_def]
          workloadClient_unreachable [OF assms(2) same_pool_refl, of "\<lambda>_. True"]] by simp
    show "trip (\<lambda>tr. ?I tr \<and> fst c = None) (reconcile_with env q prov c) (\<lambda>_. ?I)" for c
      using keeps_reconcile_frozen [OF stable_True, of env q prov "snd c"]
      by (cases c) (auto simp: keeps_def intro: trip_fact trip_weaken)
  qed
  obtain r w where w: "run_state (reconcile_live env q prov) \<lparr>wo_trace = tr0, wo_cache = cache\<rparr> = (r, w)" by fastforce
  have "?I (wo_trace w)"
    by (rule trip_run [OF live _ w]) (simp add: inv_of_def ok0)
  then show ?thesis by (simp add: pass_trace_def run w inv_of_def)
qed

lemma sample_unreachable: "unreachable sample_env sample_live_pool"
  by (simp add: unreachable_def sample_env_def sample_live_pool_def sample_pool_def)

section \<open>Properties\<close>

text \<open>
  C10. During an outage of the workload cluster a pass touches nothing in it and starts nothing for it:
  whatever the infrastructure cluster answers, no Node is patched or deleted, and every object the
  pass creates belongs to a cell whose guest it has just listed, so no cell is added to the pool.
\<close>

theorem outage_freezes_workload:
  assumes "pass_pool env prov q" and "unreachable env q" and "pass_trace env cache = pre @ ev # post"
  shows "(\<forall>cs name p r. ev \<noteq> EvPatchNode cs name p r) \<and> (\<forall>cs name r. ev \<noteq> EvDeleteNode cs name r) \<and>
    (\<forall>obj r. ev = EvCreateObject obj r \<longrightarrow>
      (\<exists>guests name idx. EvList (po_Name q) (Inr guests) \<in> set pre \<and> name \<in> set guests \<and>
         ParseIndex (po_Name q) name = Inr idx \<and> by_name prov sg_builds capi_builds (cellRequest env q idx) obj))"
proof -
  note law = pass_frozen [OF assms(1,2), of cache, unfolded assms(3)]
  have listed_before: "\<exists>guests name idx. EvList (po_Name q) (Inr guests) \<in> set pre \<and> name \<in> set guests \<and>
      ParseIndex (po_Name q) name = Inr idx \<and> req = cellRequest env q idx"
    if ask: "EvAsk (AskEnsure req) \<in> set pre" for req
    by (rule obeys_before [OF law ask]) (auto simp: listed_def)
  from obeysD [OF law] show ?thesis
    by (cases ev) (auto dest!: listed_before)
qed

theorem outage_freezes_workload_witness:
  "\<exists>pre d post guests. pass_trace sample_env [] =
     pre @ EvCreateObject (seed_object (cellRequest sample_env sample_live_pool 0)) d # post \<and>
     EvList (po_Name sample_live_pool) (Inr guests) \<in> set pre"
proof -
  obtain pre d post where tr: "pass_trace sample_env [] =
      pre @ EvCreateObject (seed_object (cellRequest sample_env sample_live_pool 0)) d # post"
    using sample_pass split_list by metis
  obtain guests where "EvList (po_Name sample_live_pool) (Inr guests) \<in> set pre"
    using outage_freezes_workload [OF sample_pass_pool sample_unreachable tr] by blast
  with tr show ?thesis by (intro exI conjI)
qed

text \<open>
  The one destructive thing left during an outage: a pass still deletes, and it deletes exactly for
  cells it observed as Failed with their backoff over and replacements left. No draining cell is
  removed, since nothing can be read of its allocations.
\<close>

theorem outage_removes_only_failed:
  assumes "pass_pool env prov q" and "unreachable env q"
    and "pass_trace env cache = pre @ EvDeleteObject gvk ns name d # post"
  shows "\<exists>c part. observed env q prov pre c \<and> cs_Phase c = CellPhaseFailed \<and> ShouldReplace c (en_now env) True \<and>
    part \<in> set (by_name prov sg_parts capi_parts (cellRequest env q (cs_Index c))) \<and>
    refers pre (po_Namespace q) part gvk ns name"
proof -
  have unread: "EvAllocations cs n r \<notin> set pre" for cs n r
    using pass_frozen [OF assms(1,2), of cache] unfolding assms(3) by (auto elim: obeys_before)
  obtain c part where c: "observed env q prov pre c" "part \<in> set (parts_of prov (cellRequest env q (cs_Index c)))"
      "refers pre (po_Namespace q) part gvk ns name"
    and "ShouldReplace c (en_now env) True \<or> (\<exists>pre1 ev cs a pre2. pre = (pre1 @ [ev]) @ EvAllocations cs (cs_Name c) (Inr a) # pre2 \<and>
        cordon_done cs (cs_Name c) ev \<and> \<not> provider_holder (provider env q cs (pre1 @ [ev])) (cs_Name c))"
    by (rule delete_evidence [OF pass_lawful [OF assms(1), of cache, unfolded assms(3)]])
  then have replace: "ShouldReplace c (en_now env) True"
    using unread by (metis in_set_conv_decomp)
  then have "cs_Phase c = CellPhaseFailed"
    by (auto simp: ShouldReplace_def split: if_splits)
  with c replace show ?thesis by blast
qed

theorem outage_removes_only_failed_witness:
  "\<exists>pre post c. pass_trace sample_env [] = pre @ EvDeleteObject SwiftGuestGVK ''ns'' ''p-0'' (Inl refused) # post \<and>
     observed sample_env sample_live_pool ProvisionerSwiftGuest pre c \<and> cs_Phase c = CellPhaseFailed"
proof -
  obtain pre post where tr: "pass_trace sample_env [] = pre @ EvDeleteObject SwiftGuestGVK ''ns'' ''p-0'' (Inl refused) # post"
    using sample_pass split_list by metis
  obtain c where "observed sample_env sample_live_pool ProvisionerSwiftGuest pre c" "cs_Phase c = CellPhaseFailed"
    using outage_removes_only_failed [OF sample_pass_pool sample_unreachable tr] by blast
  with tr show ?thesis by (intro exI conjI)
qed

end
