(* ===== verification/RowInvariant.thy ===== *)
theory RowInvariant
  imports ReconcilerSafety
begin

text \<open>
  The status rows across whole passes: every status a live pass publishes has rows that satisfy the
  row invariant of \<open>CellRow\<close> and are named after their index, if the status it started from has. So
  the invariant holds of every status ever published, over any number of passes in any environment.
\<close>

definition good_row :: "string \<Rightarrow> nat \<Rightarrow> gotime \<Rightarrow> CellStatus \<Rightarrow> bool" where
  "good_row pool n t c \<longleftrightarrow> row_inv n c t \<and> ParseIndex pool (cs_Name c) = Inr (cs_Index c)"

fun publishes :: "(CellStatus \<Rightarrow> bool) \<Rightarrow> event list \<Rightarrow> event \<Rightarrow> bool" where
  "publishes Q pre (EvUpdateStatus p r) \<longleftrightarrow> (\<forall>c \<in> set (st_Cells (po_Status p)). Q c)"
| "publishes Q pre (EvMetric m labels v) \<longleftrightarrow> m \<noteq> ReconcileErrorsTotal \<and> WithLabelValues_ok m labels"
| "publishes Q pre (EvGauges pool ns gs) \<longleftrightarrow>
     (\<forall>(m, labels, v) \<in> set gs. m \<noteq> ReconcileErrorsTotal \<and> WithLabelValues_ok m (pool # ns # labels))"
| "publishes Q pre _ \<longleftrightarrow> True"

interpretation pb: open_rule "publishes Q" env q prov for Q env q prov
proof unfold_locales
  fix ev pre
  assume "harmless ev"
  then show "publishes Q pre ev" by (cases ev) simp_all
qed simp_all

lemmas pb_discoverCells = pb.keeps_open_discoverCells [OF stable_True]
  and pb_act = pb.keeps_open_act [OF stable_True same_pool_refl]

section \<open>The rows an operation returns\<close>

definition yields :: "'a result io \<Rightarrow> ('a \<Rightarrow> bool) \<Rightarrow> bool" where
  \<comment> \<open>what is known of a successful result, whatever was called before\<close>
  "yields m Q \<longleftrightarrow> trip (\<lambda>_. True) m (\<lambda>r _. \<forall>x. r = Inr x \<longrightarrow> Q x)"

named_theorems yields_rules

lemma yields_ret [yields_rules]: "(\<And>x. r = Inr x \<Longrightarrow> Q x) \<Longrightarrow> yields (ret r) Q"
  by (simp add: yields_def trip_ret)

lemma yields_bind [yields_rules]: "(\<And>x. yields (f x) Q) \<Longrightarrow> yields (State_Monad.bind m f) Q"
  unfolding yields_def by (rule trip_bind [OF trip_any])

lemma yields_attempt: "yields m P \<Longrightarrow> (\<And>x. P x \<Longrightarrow> yields (f x) Q) \<Longrightarrow> yields (attempt m f) Q"
  unfolding yields_def
proof (rule trip_attempt)
  fix x
  assume "\<And>x. P x \<Longrightarrow> trip (\<lambda>_. True) (f x) (\<lambda>r _. \<forall>x. r = Inr x \<longrightarrow> Q x)"
  then show "trip (\<lambda>_. \<forall>y. Inr x = Inr y \<longrightarrow> P y) (f x) (\<lambda>r _. \<forall>x. r = Inr x \<longrightarrow> Q x)"
    by (auto intro: trip_fact trip_weaken)
qed auto

lemma yields_weaken: "yields m P \<Longrightarrow> (\<And>x. P x \<Longrightarrow> Q x) \<Longrightarrow> yields m Q"
  unfolding yields_def by (erule trip_weaken) auto

lemma yields_any: "yields m (\<lambda>_. True)"
  by (simp add: yields_def trip_any)

lemma yields_after [yields_rules]: "(\<And>x. yields (f x) Q) \<Longrightarrow> yields (attempt m f) Q"
  by (rule yields_attempt [OF yields_any])

lemma yields_if [yields_rules]: "(b \<Longrightarrow> yields m Q) \<Longrightarrow> (\<not> b \<Longrightarrow> yields n Q) \<Longrightarrow> yields (if b then m else n) Q"
  by simp

lemma yields_case_sum [yields_rules]:
  "(\<And>e. r = Inl e \<Longrightarrow> yields (f e) Q) \<Longrightarrow> (\<And>x. r = Inr x \<Longrightarrow> yields (g x) Q) \<Longrightarrow>
   yields (case r of Inl e \<Rightarrow> f e | Inr x \<Rightarrow> g x) Q"
  by (cases r) auto

lemma yields_each: "(\<And>x. x \<in> set xs \<Longrightarrow> yields (f x) Q) \<Longrightarrow> yields (each f xs) (\<lambda>ys. \<forall>y \<in> set ys. Q y)"
proof (induction xs)
  case (Cons x xs)
  from Cons.prems have "yields (f x) Q" by simp
  moreover from Cons have "yields (each f xs) (\<lambda>ys. \<forall>y \<in> set ys. Q y)" by simp
  ultimately show ?case
    unfolding each.simps by (elim yields_attempt) (rule yields_ret, auto)
qed (auto intro!: yields_ret)

lemma discover_cell_row:
  "yields (discover_cell env p prov inner row name idx)
     (\<lambda>c. \<exists>outer reading. c = next_row p name idx row outer reading (en_now env))"
  unfolding discover_cell_def next_row_def Let_def
  by (intro yields_rules) (blast dest: sum.inject(2) [THEN iffD1])

lemma good_next_row:
  assumes "row_inv n row t" and "t \<le> now" and "int (Suc n) < 2147483648" and "ParseIndex pool name = Inr idx"
  shows "good_row pool (Suc n) now (next_row p name idx row outer reading now)"
proof -
  have "row_inv (Suc n) (next_row p name idx row outer reading now) now"
    using assms(1-3) unfolding next_row_def Let_def by (intro cellStatus_inv [OF previous_row_inv [where t = t]]) auto
  moreover have "cs_Name (next_row p name idx row outer reading now) = name" "cs_Index (next_row p name idx row outer reading now) = idx"
    by (simp_all add: next_row_def cellStatus_def Let_def)
  ultimately show ?thesis using assms(4) by (simp add: good_row_def)
qed

lemma good_row_later: "good_row pool n t c \<Longrightarrow> t \<le> now \<Longrightarrow> good_row pool (Suc n) now c"
  by (auto simp: good_row_def row_inv_def split: option.splits)

lemma set_AList_update: "kv \<in> set (AList.update k v m) \<Longrightarrow> kv = (k, v) \<or> kv \<in> set m"
  by (induction m) (auto split: if_splits)

lemma previous_rows_from: "(name, c) \<in> set (previous_rows cells) \<Longrightarrow> c \<in> set cells \<and> cs_Name c = name"
proof -
  have "(name, c) \<in> set (foldl (\<lambda>m c. AList.update (cs_Name c) c m) m cells) \<Longrightarrow> (name, c) \<in> set m \<or> c \<in> set cells \<and> cs_Name c = name" for m
    by (induction cells arbitrary: m) (auto dest!: set_AList_update)
  then show "(name, c) \<in> set (previous_rows cells) \<Longrightarrow> ?thesis" by (fastforce simp: previous_rows_def)
qed

lemma discoverCells_rows:
  assumes good: "\<And>c. c \<in> set (st_Cells (po_Status p)) \<Longrightarrow> good_row (po_Name p) n t c"
    and now: "t \<le> en_now env" and n: "int (Suc n) < 2147483648"
  shows "yields (discoverCells env p prov inner) (\<lambda>cells. \<forall>c \<in> set cells. good_row (po_Name p) (Suc n) (en_now env) c)"
proof -
  let ?Q = "good_row (po_Name p) (Suc n) (en_now env)" and ?prev = "previous_rows (st_Cells (po_Status p))"
  have prev: "good_row (po_Name p) n t c" if "(name, c) \<in> set ?prev" for name c
    using previous_rows_from [OF that] good by blast
  have row: "row_inv n (previous_of ?prev name) t" for name
  proof (cases "map_of ?prev name")
    case None
    then show ?thesis by (simp add: previous_of_def row_inv_def zero_CellStatus_def)
  next
    case (Some c)
    then show ?thesis using prev [OF map_of_SomeD] by (simp add: previous_of_def good_row_def)
  qed
  have tomb: "?Q c" if "c \<in> set (tombstones replicas ?prev live)" for c replicas live
  proof -
    obtain name d where d: "(name, d) \<in> set ?prev"
      and c: "c = d\<lparr>cs_GuestUID := [], cs_NodeName := [], cs_Devices := [], cs_CapacityDevices := 0\<rparr>"
      using \<open>c \<in> set (tombstones replicas ?prev live)\<close> by (auto simp: tombstones_def)
    show ?thesis using good_row_later [OF prev [OF d] now] by (simp add: c good_row_def row_inv_def split: option.splits)
  qed
  have cell: "yields (discover_cell env p prov inner (previous_of ?prev name) name idx) ?Q"
    if "ParseIndex (po_Name p) name = Inr idx" for name idx
    by (rule yields_weaken [OF discover_cell_row]) (use good_next_row [OF row now n that] in auto)
  have found: "yields (each (\<lambda>name. case ParseIndex (po_Name p) name of
        Inl e \<Rightarrow> ret (Inr [])
      | Inr idx \<Rightarrow> attempt (discover_cell env p prov inner (previous_of ?prev name) name idx) (\<lambda>row. ret (Inr [row]))) guests)
      (\<lambda>found. \<forall>cs \<in> set found. \<forall>c \<in> set cs. ?Q c)" for guests
    by (intro yields_each yields_case_sum yields_attempt [OF cell] yields_ret) auto
  show ?thesis
    unfolding discoverCells_def Let_def
    by (rule yields_after, rule yields_attempt [OF found], intro yields_after yields_ret) (auto dest: tomb)
qed

lemma good_mark: "good_row pool n t c \<Longrightarrow> good_row pool n t (mark_row t c)"
  using mark_row_inv [of n c t t] by (simp add: good_row_def mark_row_def)

lemma good_markDraining:
  "\<forall>c \<in> set cells. good_row pool n t c \<Longrightarrow> \<forall>c \<in> set (foldl (\<lambda>cs n. markDraining cs n t) cells ns). good_row pool n t c"
proof (induction ns arbitrary: cells)
  case (Cons m ns)
  have "\<forall>c \<in> set (markDraining cells m t). good_row pool n t c"
    using Cons.prems good_mark by (auto simp: markDraining_def)
  then show ?case using Cons.IH by simp
qed simp

lemma drain_cells_rows:
  assumes "\<forall>c \<in> set cells. good_row pool n t c"
  shows "yields (drain_cells env p prov inner cells) (\<lambda>cells. \<forall>c \<in> set cells. good_row pool n t c)"
proof -
  have "good_row pool n t (c\<lparr>cs_Reason := r, cs_Message := m\<rparr>)" if "good_row pool n t c" "cs_Phase c = CellPhaseDraining" for c r m
    using that by (simp add: good_row_def row_inv_def split: option.splits)
  then show ?thesis
    using assms unfolding drain_cells_def progressDrain_def Let_def
    by (intro yields_each yields_if yields_after yields_ret) auto
qed

lemma act_rows:
  assumes "\<forall>c \<in> set cells. good_row (po_Name p) (Suc n) (en_now env) c"
    and "\<And>c. c \<in> set (st_Cells (po_Status p)) \<Longrightarrow> good_row (po_Name p) n t c" and "t \<le> en_now env" and "int (Suc n) < 2147483648"
  shows "yields (act env p prov inner ready idle scale plan cells)
    (\<lambda>(cells, rollout). \<forall>c \<in> set cells. good_row (po_Name p) (Suc n) (en_now env) c)"
proof -
  let ?ok = "\<lambda>cells. \<forall>c \<in> set cells. good_row (po_Name p) (Suc n) (en_now env) c"
  have again: "yields (if b then discoverCells env p prov inner else ret (Inr cells)) ?ok" for b
    using discoverCells_rows [OF assms(2-4)] assms(1) by (intro yields_if yields_ret) auto
  have one: "?ok (if b then markDraining found m (en_now env) else found)" if "?ok found" for b m found
    using that good_markDraining [of found "po_Name p" "Suc n" "en_now env" "[m]"] by simp
  show ?thesis
    unfolding act_def Let_def
    by (rule yields_after, rule yields_attempt [OF again], rule yields_bind, rule yields_after, rule yields_bind,
        rule yields_attempt [OF drain_cells_rows [OF one [OF good_markDraining]]], assumption, rule yields_ret) auto
qed

section \<open>Published statuses\<close>

lemma writeStatus_Cells: "st_Cells (po_Status (writeStatus ssc now p cells plan scale rollout d dk f h c ck r rr rm)) = cells"
  by (simp add: writeStatus_def Let_def)

lemma publishMetrics_ok:
  "(m, labels, v) \<in> set (publishMetrics cells scale freeGPUs cap0 known) \<Longrightarrow>
   m \<noteq> ReconcileErrorsTotal \<and> Suc (Suc (length labels)) = length (metric_labels m)"
  by (auto simp: publishMetrics_def split: if_splits option.splits)

lemma remember_shape_Cells: "st_Cells (po_Status (remember_shape now cap p)) = st_Cells (po_Status p)"
  by (simp add: remember_shape_def split: option.split)

lemma stamp_scaling_Cells: "st_Cells (stamp_scaling now d dk scale st) = st_Cells st"
  by (simp add: stamp_scaling_def Let_def)

lemma keeps_given: "(F \<Longrightarrow> keeps (inv_of R (\<lambda>_. True)) m) \<Longrightarrow> keeps (inv_of R (\<lambda>_. True \<and> F)) m"
  by (cases F) (simp_all add: keeps_def trip_def inv_of_def)

lemma pb_with_rows:
  assumes "keeps (inv_of R (\<lambda>_. True)) m" and "yields m P" and "\<And>x. P x \<Longrightarrow> keeps (inv_of R (\<lambda>_. True)) (f x)"
  shows "keeps (inv_of R (\<lambda>_. True)) (attempt m f)"
proof (rule keeps_attempt_gain [where Y = "\<lambda>x _. P x"])
  show "trip (inv_of R (\<lambda>_. True)) m (\<lambda>r tr. inv_of R (\<lambda>_. True) tr \<and> (\<forall>x. r = Inr x \<longrightarrow> P x))"
    using trip_conj [OF assms(1) [unfolded keeps_def] assms(2) [unfolded yields_def]] by simp
  show "keeps (inv_of R (\<lambda>_. True \<and> P x)) (f x)" for x
    by (rule keeps_given) (rule assms(3))
qed

lemma pb_reconcile_with:
  assumes good: "\<And>c. c \<in> set (st_Cells (po_Status q)) \<Longrightarrow> good_row (po_Name q) n t c"
    and now: "t \<le> en_now env" and n: "int (Suc n) < 2147483648"
  shows "keeps (inv_of (publishes (good_row (po_Name q) (Suc n) (en_now env))) (\<lambda>_. True)) (reconcile_with env q prov c)"
  unfolding reconcile_with_eq Let_def
proof (rule pb_with_rows [OF pb_discoverCells discoverCells_rows [OF good now n]], assumption, goal_cases)
  case (1 cells)
  let ?I = "inv_of (publishes (good_row (po_Name q) (Suc n) (en_now env))) (\<lambda>_. True)"
  have act: "keeps ?I (attempt (act env p prov inner ready idle scale plan cells) f)"
    if "po_Name p = po_Name q" "st_Cells (po_Status p) = st_Cells (po_Status q)"
      and "\<And>cells rollout. \<forall>c \<in> set cells. good_row (po_Name q) (Suc n) (en_now env) c \<Longrightarrow> keeps ?I (f (cells, rollout))"
    for p inner ready idle scale plan and f :: "CellStatus list \<times> RolloutDecision \<Rightarrow> duration result io"
    by (rule pb_with_rows [OF pb_act act_rows [where n = n and t = t]]) (use 1 that good now n in \<open>auto split: prod.splits\<close>)
  have names: "po_Name (remember_shape now cap q) = po_Name q" for now cap
    by (simp add: remember_shape_def split: option.split)
  show ?case
    by (intro keeps_bind act pb.keeps_read_capacity pb.keeps_read_idle keeps_allowed_call keeps_allowed_emit keeps_allowed_emit_all
        stable_True; (unfold prod.case)?; (intro keeps_rules keeps_allowed_call keeps_allowed_emit stable_True)?)
      (auto simp: scale_events_def WithLabelValues_ok_def remember_shape_Cells stamp_scaling_Cells writeStatus_Cells names dest: publishMetrics_ok split: if_splits)
qed

lemma pass_publishes:
  assumes pass: "pass_pool env prov q" and good: "\<And>c. c \<in> set (st_Cells (po_Status q)) \<Longrightarrow> good_row (po_Name q) n t c"
    and now: "t \<le> en_now env" and n: "int (Suc n) < 2147483648"
  shows "obeys (publishes (good_row (po_Name q) (Suc n) (en_now env))) (pass_trace env cache)"
proof -
  let ?R = "publishes (good_row (po_Name q) (Suc n) (en_now env))"
  have any: "?R pre (EvUpdatePool p r)" "?R pre (EvRead s)" for pre p r s by simp_all
  obtain tr0 where run: "run_state (Reconcile env) \<lparr>wo_trace = [], wo_cache = cache\<rparr> =
      run_state (reconcile_live env q prov) \<lparr>wo_trace = tr0, wo_cache = cache\<rparr>" and ok0: "obeys ?R tr0"
    by (rule Reconcile_unfold [OF pass, of cache]) (simp add: any)
  have live: "keeps (inv_of ?R (\<lambda>_. True)) (reconcile_live env q prov)"
    unfolding reconcile_live_def
    by (intro keeps_bind pb.keeps_workloadClient stable_True pb_reconcile_with [OF good now n])
  obtain r w where w: "run_state (reconcile_live env q prov) \<lparr>wo_trace = tr0, wo_cache = cache\<rparr> = (r, w)" by fastforce
  have "inv_of ?R (\<lambda>_. True) (wo_trace w)"
    by (rule trip_run [OF live [unfolded keeps_def] _ w]) (simp add: inv_of_def ok0)
  then show ?thesis by (simp add: pass_trace_def run w inv_of_def)
qed

text \<open>Every status a pool can ever have published: any number of live passes, each in its own environment.\<close>

inductive status_reach :: "string \<Rightarrow> nat \<Rightarrow> CellStatus list \<Rightarrow> gotime \<Rightarrow> bool" for pool where
  fresh: "status_reach pool 0 [] t"
| pass: "status_reach pool n cells t \<Longrightarrow> pass_pool env prov q \<Longrightarrow> po_Name q = pool \<Longrightarrow> st_Cells (po_Status q) = cells \<Longrightarrow>
    t \<le> en_now env \<Longrightarrow> EvUpdateStatus p r \<in> set (pass_trace env cache) \<Longrightarrow>
    status_reach pool (Suc n) (st_Cells (po_Status p)) (en_now env)"

lemma status_reach_good:
  "status_reach pool n cells t \<Longrightarrow> int n < 2147483648 \<Longrightarrow> c \<in> set cells \<Longrightarrow> good_row pool n t c"
proof (induction arbitrary: c rule: status_reach.induct)
  case (pass n cells t env prov q p r cache)
  have "obeys (publishes (good_row (po_Name q) (Suc n) (en_now env))) (pass_trace env cache)"
    by (rule pass_publishes [OF \<open>pass_pool env prov q\<close>, where t = t]) (use pass in auto)
  moreover obtain a b where "pass_trace env cache = a @ EvUpdateStatus p r # b"
    using split_list pass.hyps(6) by metis
  ultimately show ?case using pass.prems(2) pass.hyps(3) by (auto dest!: obeysD)
qed simp

section \<open>A concrete first pass\<close>

definition sample_new_pool :: GPUCellPool where
  "sample_new_pool = sample_live_pool\<lparr>po_Status := po_Status sample_pool\<rparr>"

definition sample_new_env :: Env where
  "sample_new_env = sample_env\<lparr>en_GetPool := (\<lambda>_. Inr sample_new_pool)\<rparr>"

definition sample_first_row :: CellStatus where
  "sample_first_row = next_row sample_new_pool ''p-0'' 0 zero_CellStatus (observe sample_guest []) None (3600 * Second)"

definition sample_new_scale :: ScaleDecision where
  "sample_new_scale = DecideScale (scale_input sample_new_pool [sample_first_row] [] zero_Demand False False None (3600 * Second))"

definition sample_new_stamped :: GPUCellPool where
  "sample_new_stamped = sample_new_pool\<lparr>po_Status :=
     stamp_scaling (3600 * Second) zero_Demand False sample_new_scale (po_Status sample_new_pool)\<rparr>"

definition sample_new_plan :: MembershipPlan where
  "sample_new_plan = PlanMembership (membership_input sample_new_stamped [sample_first_row] sample_new_scale None False False (3600 * Second))"

lemma sample_new_pure:
  "free_of (physicalInventory (en_Outer sample_new_env tr) sample_new_pool) = None"
  "remember_shape (3600 * Second) zero_Capacity sample_new_pool = sample_new_pool"
  "\<not> ShouldReplace sample_first_row (3600 * Second) False" "mp_Create sample_new_plan = []" "mp_Drain sample_new_plan = []"
  "rr_Drain (PlanRollout (rollout_input sample_new_env sample_new_stamped [sample_first_row] [] False sample_new_scale sample_new_plan)) = []"
  "cs_Phase sample_first_row \<noteq> CellPhaseDraining" "scale_events sample_new_pool sample_new_scale = []"
  "en_now sample_new_env = 3600 * Second"
  by code_simp+

lemma sample_new_discover:
  "\<exists>evs. run_state (discoverCells sample_new_env sample_new_pool ProvisionerSwiftGuest None) (wd tr c) =
     (Inr [sample_first_row], wd (tr @ evs) c)"
proof -
  have list: "\<exists>evs. run_state (prov_List sample_new_env ProvisionerSwiftGuest sample_new_pool) (wd tr c) = (Inr [''p-0''], wd (tr @ evs) c)" for tr c
    by (simp add: prov_List_def by_name_def sg_List_def listCellNames_def io_eval Let_def sample_new_env_def sample_env_def sample_guest_def
        newUnstructured_def)
  have "Render ''x'' (bootstrap_values sample_new_pool 0) = Inr ''x''" by code_simp
  then have boot: "\<exists>evs. run_state (ensureBootstrapSecret sample_new_env sample_new_pool 0) (wd tr c) = (Inr (), wd (tr @ evs) c)" for tr c
    by (simp add: ensureBootstrapSecret_def store_bootstrap_def get_secret_def io_eval sample_new_env_def sample_env_def
        capiOwnsBootstrap_def sample_new_pool_def sample_live_pool_def sample_pool_def sample_secret_def smap_get_def bootstrap_secret_def Let_def)
  have ensure: "\<exists>evs. run_state (prov_Ensure sample_new_env ProvisionerSwiftGuest (cellRequest sample_new_env sample_new_pool 0)) (wd tr c) =
      (Inr (observe sample_guest []), wd (tr @ evs) c)" for tr c
    by (simp add: prov_Ensure_def bracket_def by_name_def sg_Ensure_def ensureSeedProfile_def ensureGuest_def get_object_def
        create_object_def io_eval sample_new_env_def sample_env_def cellRequest_def Let_def sample_new_pool_def sample_live_pool_def sample_pool_def)
  have pure: "ParseIndex (po_Name sample_new_pool) ''p-0'' = Inr 0"
    "previous_of (previous_rows (st_Cells (po_Status sample_new_pool))) ''p-0'' = zero_CellStatus"
    "tombstones (sp_Replicas (po_Spec sample_new_pool)) (previous_rows (st_Cells (po_Status sample_new_pool))) [''p-0''] = []"
    "cs_Name sample_first_row = ''p-0''"
    "de_Phase (AdvanceCell (observation_of sample_new_pool (previous_row zero_CellStatus (observe sample_guest [])) (observe sample_guest []) None
       (3600 * Second))) \<noteq> CellPhaseFailed"
    "row_metrics sample_new_pool (previous_row zero_CellStatus (observe sample_guest [])) (observe sample_guest [])
       (AdvanceCell (observation_of sample_new_pool (previous_row zero_CellStatus (observe sample_guest [])) (observe sample_guest []) None (3600 * Second)))
       (3600 * Second) = []"
    by code_simp+
  obtain e1 where e1: "run_state (prov_List sample_new_env ProvisionerSwiftGuest sample_new_pool) (wd tr c) = (Inr [''p-0''], wd (tr @ e1) c)"
    using list by blast
  obtain e2 where e2: "run_state (ensureBootstrapSecret sample_new_env sample_new_pool 0) (wd (tr @ e1) c) = (Inr (), wd ((tr @ e1) @ e2) c)"
    using boot by blast
  obtain e3 where e3: "run_state (prov_Ensure sample_new_env ProvisionerSwiftGuest (cellRequest sample_new_env sample_new_pool 0)) (wd (tr @ e1 @ e2) c) =
      (Inr (observe sample_guest []), wd ((tr @ e1 @ e2) @ e3) c)"
    using ensure by blast
  note row = sample_first_row_def [unfolded next_row_def Let_def, symmetric]
  show ?thesis
    by (simp add: discoverCells_def discover_cell_def attempt_def wrapping_def read_inner_def Let_def e1 e2 e3 pure row
        sample_new_pure(9))
qed

lemma sample_new_pass:
  "pass_pool sample_new_env ProvisionerSwiftGuest sample_new_pool"
  "\<exists>p r. EvUpdateStatus p r \<in> set (pass_trace sample_new_env []) \<and> st_Cells (po_Status p) = [sample_first_row]"
  "\<exists>d w. run_state (Reconcile sample_new_env) \<lparr>wo_trace = [], wo_cache = []\<rparr> = (Inr d, w)"
proof -
  let ?e = sample_new_env and ?q = sample_new_pool
  have prov: "provisioner ?q = Inr ProvisionerSwiftGuest" "IsZero (po_DeletionTimestamp ?q)" "FinalizerPool \<in> set (po_Finalizers ?q)"
    by code_simp+
  have get: "en_GetPool ?e tr = Inr ?q" for tr by (simp add: sample_new_env_def)
  show pass: "pass_pool ?e ProvisionerSwiftGuest ?q" using prov get by (auto simp: pass_pool_def)
  obtain reason msg e1 where e1: "run_state (workloadClient ?e ?q) (wd [EvRead ''GetPool''] []) = ((None, reason, msg), wd ([EvRead ''GetPool''] @ e1) [])"
    by (fastforce simp: workloadClient_def get_secret_def io_eval sample_new_env_def sample_env_def sample_new_pool_def sample_live_pool_def
        sample_pool_def Let_def)
  obtain e2 where e2: "run_state (discoverCells ?e ?q ProvisionerSwiftGuest None) (wd ([EvRead ''GetPool''] @ e1) []) =
      (Inr [sample_first_row], wd (([EvRead ''GetPool''] @ e1) @ e2) [])"
    using sample_new_discover by blast
  have act: "\<exists>rollout. run_state (act ?e sample_new_stamped ProvisionerSwiftGuest None False [] sample_new_scale sample_new_plan [sample_first_row])
      (wd tr c) = (Inr ([sample_first_row], rollout), wd tr c)" for tr c
    by (simp add: act_def create_cells_def replace_failed_def drain_cells_def attempt_def Let_def sample_new_pure)
  have rg: "rg_cap0 zero_Readings = zero_Capacity" "rg_demand zero_Readings = zero_Demand" "\<not> rg_demandKnown zero_Readings"
    "rg_shape zero_Readings = None" "\<not> he_Ready (rg_health zero_Readings)"
    by (simp_all add: zero_Readings_def)
  have upd: "en_UpdateStatus ?e tr p = Inr ()" for tr p by (simp add: sample_new_env_def sample_env_def)
  let ?seen = "(([EvRead ''GetPool''] @ e1) @ e2) @ [EvRead ''Inventory'', EvMetric WorkloadClusterReachable [po_Name ?q, po_Namespace ?q] 0]"
  obtain rollout where a: "run_state (act ?e sample_new_stamped ProvisionerSwiftGuest None False [] sample_new_scale sample_new_plan [sample_first_row])
      (wd ?seen []) = (Inr ([sample_first_row], rollout), wd ?seen [])" using act by blast
  note eval = pass_trace_def Reconcile_def reconcile_live_def reconcile_with_eq io_eval Let_def get prov e1 sample_new_pure
    read_capacity_def read_idle_def rg upd sample_new_scale_def [symmetric] sample_new_stamped_def [symmetric] sample_new_plan_def [symmetric]
  show "\<exists>p r. EvUpdateStatus p r \<in> set (pass_trace ?e []) \<and> st_Cells (po_Status p) = [sample_first_row]"
    using e2 a by (simp add: eval) (metis writeStatus_Cells)
  show "\<exists>d w. run_state (Reconcile ?e) \<lparr>wo_trace = [], wo_cache = []\<rparr> = (Inr d, w)"
    using e2 a by (simp add: eval)
qed

section \<open>Properties\<close>



end
