(* ===== verification/Teardown.thy ===== *)
theory Teardown
  imports ReconcilerSafety
begin

text \<open>
  The deletion of a pool, \<open>reconcileDeletion\<close>. Its rule differs from a live pass: nothing is created,
  a cell may also leave because the pool says Force or the drain window is over, and the pool's own
  finalizer goes last.
\<close>

definition deletion_pass :: "Env \<Rightarrow> string \<Rightarrow> GPUCellPool \<Rightarrow> bool" where
  "deletion_pass env prov q \<longleftrightarrow>
     en_GetPool env [] = Inr q \<and> provisioner q = Inr prov \<and> \<not> IsZero (po_DeletionTimestamp q)"

abbreviation hurried :: "Env \<Rightarrow> GPUCellPool \<Rightarrow> bool" where
  "hurried env q \<equiv> rough True (deletionPolicy q = DeletionPolicyForce)
     (transitionOr (po_DeletionTimestamp q) (en_now env)) (en_now env) (drainTimeout q)"

definition listed_guest :: "GPUCellPool \<Rightarrow> event list \<Rightarrow> string \<Rightarrow> i32 \<Rightarrow> bool" where
  "listed_guest q pre name idx \<longleftrightarrow>
     (\<exists>guests. EvList (po_Name q) (Inr guests) \<in> set pre \<and> name \<in> set guests \<and> ParseIndex (po_Name q) name = Inr idx)"

definition may_leave :: "Env \<Rightarrow> GPUCellPool \<Rightarrow> event list \<Rightarrow> CellRequest \<Rightarrow> bool" where
  "may_leave env q pre req \<longleftrightarrow>
     (\<exists>name idx. listed_guest q pre name idx \<and> req = cellRequest env q (cs_Index (drain_row q (en_now env) name idx)) \<and>
        (drained pre name \<or> hurried env q))"

definition node_may_leave :: "Env \<Rightarrow> GPUCellPool \<Rightarrow> event list \<Rightarrow> string \<Rightarrow> bool" where
  "node_may_leave env q pre name \<longleftrightarrow> (\<exists>idx. listed_guest q pre name idx) \<and> (drained pre name \<or> hurried env q)"

fun parting :: "Env \<Rightarrow> GPUCellPool \<Rightarrow> string \<Rightarrow> event list \<Rightarrow> event \<Rightarrow> bool" where
  "parting env q prov pre (EvAllocations cs name r) \<longleftrightarrow> r = provider_Allocations (provider env q cs pre) name"
| "parting env q prov pre (EvAsk (AskClear req)) \<longleftrightarrow> may_leave env q pre req"
| "parting env q prov pre (EvUpdateObject obj r) \<longleftrightarrow>
     (\<exists>req g. may_leave env q pre req \<and> obj = unguarded g \<and>
        EvGetObject (holder_of prov) (cr_Namespace req) (cr_CellName req) (Inr g) \<in> set pre)"
| "parting env q prov pre (EvAsk (AskDelete req)) \<longleftrightarrow> pre \<noteq> [] \<and> last pre = EvClearDrainFinalizer req (Inr ())"
| "parting env q prov pre (EvDeleteObject gvk ns name r) \<longleftrightarrow>
     (\<exists>req part. may_leave env q pre req \<and> EvAsk (AskDelete req) \<in> set pre \<and>
        part \<in> set (parts_of prov req) \<and> refers pre (cr_Namespace req) part gvk ns name)"
| "parting env q prov pre (EvDeleteNode cs name r) \<longleftrightarrow> node_may_leave env q pre name"
| "parting env q prov pre (EvAsk (AskEnsure req)) \<longleftrightarrow> False"
| "parting env q prov pre (EvCreateObject obj r) \<longleftrightarrow> False"
| "parting env q prov pre (EvUpdatePool p r) \<longleftrightarrow> pre \<noteq> [] \<and> last pre = EvList (po_Name q) (Inr []) \<and>
     p = q\<lparr>po_Finalizers := filter (\<lambda>f. f \<noteq> FinalizerPool) (po_Finalizers q)\<rparr>"
| "parting env q prov pre _ \<longleftrightarrow> True"

lemma harmless_parting: "harmless ev \<Longrightarrow> parting env q prov pre ev"
  by (cases ev) simp_all

interpretation pt: drain_rule "parting env q prov" env q prov "may_leave env q" "node_may_leave env q" for env q prov
  by unfold_locales (auto intro: harmless_parting)

lemma cs_Name_drain_row [simp]: "cs_Name (drain_row q now name idx) = name"
proof -
  have "cs_Name (foldl (\<lambda>c r. if cs_Name r = name then r else c) c0 rs) = name" if "cs_Name c0 = name" for c0 :: CellStatus and rs
    using that by (induction rs arbitrary: c0) auto
  then show ?thesis by (simp add: drain_row_def Let_def)
qed

lemma prov_List_last:
  assumes X: "stable X"
  shows "trip (inv_of (parting env q prov) X) (prov_List env prov q)
    (\<lambda>r tr. inv_of (parting env q prov) X tr \<and> tr \<noteq> [] \<and> last tr = EvList (po_Name q) r)"
proof -
  have "trip (\<lambda>_. True) (prov_List env prov q) (\<lambda>r tr. tr \<noteq> [] \<and> last tr = EvList (po_Name q) r)"
    unfolding prov_List_def
    by (rule trip_bind [OF trip_any], rule trip_bind [where R = "\<lambda>_ tr. tr \<noteq> [] \<and> last tr = _"], rule trip_emit, simp)
      (auto intro: trip_ret)
  from trip_conj [OF pt.keeps_prov_List [OF X, unfolded keeps_def] this] show ?thesis by simp
qed

lemma keeps_drain_all:
  assumes X: "stable X" and listed: "\<And>tr. X tr \<Longrightarrow> EvList (po_Name q) (Inr guests) \<in> set tr"
  shows "keeps (inv_of (parting env q prov) X)
    (each (\<lambda>name. case ParseIndex (po_Name q) name of
       Inl e \<Rightarrow> ret (Inr [])
     | Inr idx \<Rightarrow> attempt (progressDrain env q prov inner (drain_row q (en_now env) name idx) True
         (transitionOr (po_DeletionTimestamp q) (en_now env))) (\<lambda>row. ret (Inr [row]))) guests)"
proof (intro keeps_rules pt.keeps_progressDrain [OF X same_pool_refl], goal_cases)
  case (1 name idx tr)
  then have "listed_guest q tr name idx" using listed by (auto simp: listed_guest_def)
  with 1 show ?case by (auto simp: may_leave_def node_may_leave_def)
qed

lemma keeps_reconcileDeletion:
  assumes X: "stable X"
  shows "keeps (inv_of (parting env q prov) X) (reconcileDeletion env q prov)"
  unfolding reconcileDeletion_def
proof (intro keeps_bind pt.keeps_workloadClient X, goal_cases)
  case (1 c)
  let ?I = "inv_of (parting env q prov) X"
  have stay: "trip (\<lambda>tr. ?I tr \<and> tr \<noteq> [] \<and> last tr = EvList (po_Name q) (Inr guests)) m (\<lambda>_. ?I)"
    if "keeps (inv_of (parting env q prov) (\<lambda>tr. X tr \<and> EvList (po_Name q) (Inr guests) \<in> set tr)) m"
    for guests and m :: "duration result io"
    by (rule trip_weaken [OF keeps_extra [OF that]]) (auto, metis last_in_set)
  have off: "trip (\<lambda>tr. ?I tr \<and> tr \<noteq> [] \<and> last tr = EvList (po_Name q) (Inr []))
      (attempt
         (if FinalizerPool \<in> set (po_Finalizers q)
          then wrapping ''removing pool finalizer''
            (call (\<lambda>tr. en_UpdatePool env tr (q\<lparr>po_Finalizers := filter (\<lambda>f. f \<noteq> FinalizerPool) (po_Finalizers q)\<rparr>))
               (EvUpdatePool (q\<lparr>po_Finalizers := filter (\<lambda>f. f \<noteq> FinalizerPool) (po_Finalizers q)\<rparr>)))
          else ret (Inr q))
         (\<lambda>_. do { forget_client (clientKey q); emit (EvForgetPool (po_Namespace q) (po_Name q)); ret (Inr 0) })) (\<lambda>_. ?I)"
  proof (rule trip_attempt [where R = "\<lambda>_. ?I"], goal_cases)
    case 1
    show ?case by (intro trip_if trip_wrapping trip_call trip_ret) (auto intro: inv_of_snoc X)
  next
    case (2 p)
    show ?case by (fold keeps_def) (intro keeps_rules keeps_allowed_emit X, simp)
  qed simp
  have drain: "trip (\<lambda>tr. ?I tr \<and> tr \<noteq> [] \<and> last tr = EvList (po_Name q) (Inr guests))
      (attempt (each (\<lambda>name. case ParseIndex (po_Name q) name of
           Inl e \<Rightarrow> ret (Inr [])
         | Inr idx \<Rightarrow> attempt (progressDrain env q prov (fst c) (drain_row q (en_now env) name idx) True
             (transitionOr (po_DeletionTimestamp q) (en_now env))) (\<lambda>row. ret (Inr [row]))) guests)
         (\<lambda>rows. do { writeDrainStatus env q (concat rows); ret (Inr requeueProgressing) })) (\<lambda>_. ?I)" for guests
    unfolding writeDrainStatus_def Let_def
    by (intro stay keeps_drain_all keeps_rules keeps_allowed_call) (use X in auto)
  show ?case
    unfolding keeps_def
    by (rule trip_attempt [OF prov_List_last [OF X]]) (use off drain in \<open>auto simp: Let_def\<close>)
qed

lemma pass_parting:
  assumes "deletion_pass env prov q"
  shows "obeys (parting env q prov) (pass_trace env cache)"
proof -
  let ?I = "inv_of (parting env q prov) (\<lambda>_. True)" and ?w = "\<lparr>wo_trace = [EvRead ''GetPool''], wo_cache = cache\<rparr>"
  have run: "run_state (Reconcile env) \<lparr>wo_trace = [], wo_cache = cache\<rparr> = run_state (reconcileDeletion env q prov) ?w"
    using assms by (simp add: deletion_pass_def Reconcile_def call_def)
  obtain r w where w: "run_state (reconcileDeletion env q prov) ?w = (r, w)" by fastforce
  have "?I (wo_trace w)"
    by (rule trip_run [OF keeps_reconcileDeletion [OF stable_True, unfolded keeps_def] _ w]) (simp add: inv_of_def obeys_def)
  then show ?thesis by (simp add: pass_trace_def run w inv_of_def)
qed

section \<open>A concrete deletion\<close>

text \<open>
  The pool of \<open>SamplePass\<close>, deleted with policy Force while its workload cluster is unreachable: one
  guest is listed; and the same with no guest left.
\<close>

definition sample_dying :: GPUCellPool where
  "sample_dying = sample_live_pool\<lparr>po_DeletionTimestamp := Some Second,
     po_Spec := (po_Spec sample_live_pool)\<lparr>sp_Deletion := Some \<lparr>dl_Policy = DeletionPolicyForce, dl_DrainTimeout = None\<rparr>\<rparr>\<rparr>"

definition sample_dying_env :: Env where
  "sample_dying_env = sample_env\<lparr>en_GetPool := (\<lambda>_. Inr sample_dying)\<rparr>"

definition sample_empty_env :: Env where
  "sample_empty_env = sample_dying_env\<lparr>en_ListObjects := (\<lambda>_ _ _ _. Inr [])\<rparr>"

lemma sample_deletion_pass:
  "deletion_pass sample_dying_env ProvisionerSwiftGuest sample_dying" "deletion_pass sample_empty_env ProvisionerSwiftGuest sample_dying"
proof -
  have "provisioner sample_dying = Inr ProvisionerSwiftGuest" "\<not> IsZero (po_DeletionTimestamp sample_dying)"
    by code_simp+
  then show "deletion_pass sample_dying_env ProvisionerSwiftGuest sample_dying" "deletion_pass sample_empty_env ProvisionerSwiftGuest sample_dying"
    by (simp_all add: deletion_pass_def sample_dying_env_def sample_empty_env_def)
qed

lemma sample_dying_client:
  "en_GetSecret env = en_GetSecret sample_env \<Longrightarrow>
   \<exists>reason msg evs. run_state (workloadClient env sample_dying) (wd tr c) = ((None, reason, msg), wd (tr @ evs) c)"
  by (simp add: workloadClient_def get_secret_def io_eval sample_env_def sample_dying_def sample_live_pool_def sample_pool_def Let_def)

lemma sample_dying_run:
  "en_GetPool env [] = Inr sample_dying \<Longrightarrow>
   pass_trace env [] = wo_trace (snd (run_state (reconcileDeletion env sample_dying ProvisionerSwiftGuest) (wd [EvRead ''GetPool''] [])))"
  using sample_deletion_pass(1)
  by (simp add: pass_trace_def deletion_pass_def Reconcile_def call_def)

lemma sample_empty_deletion:
  "EvUpdatePool (sample_dying\<lparr>po_Finalizers := []\<rparr>) (Inr (sample_dying\<lparr>po_Finalizers := []\<rparr>)) \<in> set (pass_trace sample_empty_env [])"
proof -
  let ?e = sample_empty_env
  have server: "en_GetPool ?e [] = Inr sample_dying" "en_GetSecret ?e = en_GetSecret sample_env"
    "en_ListObjects ?e tr gvk ns p = Inr []" "en_UpdatePool ?e tr x = Inr x" for tr gvk ns p x
    by (simp_all add: sample_empty_env_def sample_dying_env_def sample_env_def)
  have fin: "po_Finalizers sample_dying = [FinalizerPool]" by code_simp
  obtain reason msg e1 where e1: "run_state (workloadClient ?e sample_dying) (wd [EvRead ''GetPool''] []) =
      ((None, reason, msg), wd ([EvRead ''GetPool''] @ e1) [])"
    using sample_dying_client [OF server(2)] by blast
  show ?thesis
    by (simp add: sample_dying_run [OF server(1)] reconcileDeletion_def e1 prov_List_def by_name_def sg_List_def listCellNames_def
        io_eval Let_def server(3,4) fin forget_client_def)
qed

lemma sample_dying_server:
  "en_GetPool sample_dying_env [] = Inr sample_dying" "en_GetSecret sample_dying_env = en_GetSecret sample_env"
  "en_ListObjects sample_dying_env tr gvk ns p = Inr [sample_guest]"
  "en_GetObject sample_dying_env tr SwiftGuestGVK ns n = Inr sample_guest"
  "en_UpdateObject sample_dying_env tr obj = Inr ()" "en_DeleteObject sample_dying_env tr gvk ns n = Inl refused"
  "en_now sample_dying_env = 3600 * Second"
  by (simp_all add: sample_dying_env_def sample_env_def)

lemma sample_dying_names:
  "ParseIndex (po_Name sample_dying) ''p-0'' = Inr 0" "cs_Index (drain_row sample_dying (3600 * Second) ''p-0'' 0) = 0"
  "deletionPolicy sample_dying = DeletionPolicyForce" "po_Namespace sample_dying = ''ns''" "Name (po_Name sample_dying) 0 = ''p-0''"
  "un_Namespace sample_guest = ''ns''" "un_Name sample_guest = ''p-0''" "IsZero (un_DeletionTimestamp sample_guest)"
  "un_Finalizers sample_guest = [''other'', FinalizerCellDrain]"
  by code_simp+

lemma sample_dying_delete:
  assumes "cs_Index cell = 0"
  shows "\<exists>e evs. run_state (deleteCell sample_dying_env sample_dying ProvisionerSwiftGuest cell True) (wd tr c) = (Inl e, wd (tr @ evs) c) \<and>
    EvDeleteObject SwiftGuestGVK ''ns'' ''p-0'' (Inl refused) \<in> set evs"
proof -
  obtain reason msg e1 where "run_state (workloadClient sample_dying_env sample_dying) (wd tr c) = ((None, reason, msg), wd (tr @ e1) c)"
    using sample_dying_client [OF sample_dying_server(2)] by blast
  then show ?thesis
    by (simp add: deleteCell_def prov_ClearDrainFinalizer_def prov_Delete_def bracket_def by_name_def sg_ClearDrainFinalizer_def
        clear_finalizer_def sg_Delete_def remove_object_def delete_object_def update_object_def get_object_def
        withoutDrainFinalizer_def io_eval Let_def sample_dying_server(4-6) assms sample_dying_names)
qed

lemma sample_dying_drain:
  assumes "cs_Index cell = 0"
  shows "\<exists>e evs. run_state (progressDrain sample_dying_env sample_dying ProvisionerSwiftGuest None cell True s) (wd tr c) =
      (Inl e, wd (tr @ evs) c) \<and> EvDeleteObject SwiftGuestGVK ''ns'' ''p-0'' (Inl refused) \<in> set evs"
proof -
  let ?dec = "AdvanceDrain zero_Allocations False True True s (3600 * Second) (drainTimeout sample_dying)"
  let ?cell = "cell\<lparr>cs_Reason := dd_Reason ?dec, cs_Message := dd_Message ?dec\<rparr>"
  have "dd_Proceed ?dec" by (simp add: AdvanceDrain_def Let_def)
  moreover obtain e evs where
      "run_state (deleteCell sample_dying_env sample_dying ProvisionerSwiftGuest ?cell True) (wd tr c) = (Inl e, wd (tr @ evs) c)"
      "EvDeleteObject SwiftGuestGVK ''ns'' ''p-0'' (Inl refused) \<in> set evs"
    using sample_dying_delete [of ?cell tr c] assms by auto
  ultimately show ?thesis
    by (simp add: progressDrain_def attempt_def Let_def sample_dying_names(3) sample_dying_server(7))
qed

lemma sample_forced_deletion:
  "EvDeleteObject SwiftGuestGVK ''ns'' ''p-0'' (Inl refused) \<in> set (pass_trace sample_dying_env [])"
proof -
  obtain reason msg e1 where e1: "run_state (workloadClient sample_dying_env sample_dying) (wd [EvRead ''GetPool''] []) =
      ((None, reason, msg), wd ([EvRead ''GetPool''] @ e1) [])"
    using sample_dying_client [OF sample_dying_server(2)] by blast
  let ?tr = "([EvRead ''GetPool''] @ e1) @ [EvListObjects SwiftGuestGVK ''ns'' (po_Name sample_dying) (Inr [sample_guest]),
    EvList (po_Name sample_dying) (Inr [''p-0''])]"
  obtain e evs where "run_state (progressDrain sample_dying_env sample_dying ProvisionerSwiftGuest None
        (drain_row sample_dying (3600 * Second) ''p-0'' 0) True (transitionOr (po_DeletionTimestamp sample_dying) (3600 * Second))) (wd ?tr []) =
      (Inl e, wd (?tr @ evs) [])"
      "EvDeleteObject SwiftGuestGVK ''ns'' ''p-0'' (Inl refused) \<in> set evs"
    using sample_dying_drain [OF sample_dying_names(2)] by blast
  then show ?thesis
    by (simp add: sample_dying_run [OF sample_dying_server(1)] reconcileDeletion_def e1 prov_List_def by_name_def sg_List_def
        listCellNames_def io_eval Let_def sample_dying_server(3,7) sample_dying_names)
qed

section \<open>Properties\<close>

text \<open>
  C8. Deleting a pool takes a cell's objects only with reason: each deletion request names a part of a
  cell whose guest was listed, follows the clearing of that cell's drain finalizer, and either the
  pool says Force, or the drain timeout has run out counted from the request to delete the pool, or
  the cell's Node was cordoned and then nothing held a share of its GPU.
\<close>

theorem teardown_removes_on_evidence:
  assumes "deletion_pass env prov q" and "pass_trace env cache = pre @ EvDeleteObject gvk ns name d # post"
  shows "\<exists>cell idx part. listed_guest q pre cell idx \<and>
    part \<in> set (by_name prov sg_parts capi_parts (cellRequest env q (cs_Index (drain_row q (en_now env) cell idx)))) \<and>
    refers pre (po_Namespace q) part gvk ns name \<and>
    EvClearDrainFinalizer (cellRequest env q (cs_Index (drain_row q (en_now env) cell idx))) (Inr ()) \<in> set pre \<and>
    (deletionPolicy q = DeletionPolicyForce \<or>
     0 < drainTimeout q \<and> drainTimeout q < sub_time (en_now env) (transitionOr (po_DeletionTimestamp q) (en_now env)) \<or>
     (\<exists>pre1 ev cs a pre2. pre = (pre1 @ [ev]) @ EvAllocations cs cell (Inr a) # pre2 \<and>
        cordon_done cs cell ev \<and> \<not> provider_holder (provider env q cs (pre1 @ [ev])) cell))"
proof -
  note law = pass_parting [OF assms(1), of cache, unfolded assms(2)]
  obtain req part where req: "may_leave env q pre req" "EvAsk (AskDelete req) \<in> set pre"
      "part \<in> set (parts_of prov req)" "refers pre (cr_Namespace req) part gvk ns name"
    using obeysD [OF law] by auto
  have clear: "EvClearDrainFinalizer req (Inr ()) \<in> set pre"
  proof (rule obeys_before [OF law req(2)])
    fix a b
    assume "pre = a @ EvAsk (AskDelete req) # b" and "parting env q prov a (EvAsk (AskDelete req))"
    then show ?thesis by (cases a rule: rev_cases) auto
  qed
  obtain cell idx where cell: "listed_guest q pre cell idx" "req = cellRequest env q (cs_Index (drain_row q (en_now env) cell idx))"
    "drained pre cell \<or> hurried env q"
    using req(1) unfolding may_leave_def by blast
  have "deletionPolicy q = DeletionPolicyForce \<or>
     0 < drainTimeout q \<and> drainTimeout q < sub_time (en_now env) (transitionOr (po_DeletionTimestamp q) (en_now env)) \<or>
     (\<exists>pre1 ev cs a pre2. pre = (pre1 @ [ev]) @ EvAllocations cs cell (Inr a) # pre2 \<and>
        cordon_done cs cell ev \<and> \<not> provider_holder (provider env q cs (pre1 @ [ev])) cell)"
    using cell(3) drained_unheld [OF law, of cell env q] by (auto simp: rough_def)
  with cell(1) req(3,4) clear show ?thesis
    unfolding cell(2) by (intro exI [of _ cell] exI [of _ idx] exI [of _ part]) simp
qed

theorem teardown_removes_on_evidence_witness:
  "\<exists>pre post cell idx. pass_trace sample_dying_env [] = pre @ EvDeleteObject SwiftGuestGVK ''ns'' ''p-0'' (Inl refused) # post \<and>
     listed_guest sample_dying pre cell idx"
proof -
  obtain pre post where tr: "pass_trace sample_dying_env [] = pre @ EvDeleteObject SwiftGuestGVK ''ns'' ''p-0'' (Inl refused) # post"
    using sample_forced_deletion split_list by metis
  obtain cell idx where "listed_guest sample_dying pre cell idx"
    using teardown_removes_on_evidence [OF sample_deletion_pass(1) tr] by blast
  with tr show ?thesis by (intro exI conjI)
qed

text \<open>
  C13. A pool being deleted keeps its finalizer until it has no cells: nothing is created while it goes,
  and the one update of the pool, which takes off exactly the operator's finalizer, directly follows
  a listing of the pool's guests that came back empty.
\<close>

theorem teardown_finalizer_last:
  assumes "deletion_pass env prov q" and "pass_trace env cache = pre @ ev # post"
  shows "(\<forall>obj r. ev \<noteq> EvCreateObject obj r) \<and>
    (\<forall>p r. ev = EvUpdatePool p r \<longrightarrow> (\<exists>pre1. pre = pre1 @ [EvList (po_Name q) (Inr [])]) \<and>
       p = q\<lparr>po_Finalizers := filter (\<lambda>f. f \<noteq> FinalizerPool) (po_Finalizers q)\<rparr>)"
proof -
  have "parting env q prov pre ev"
    using obeysD pass_parting [OF assms(1), of cache] unfolding assms(2) by blast
  then show ?thesis
    by (cases ev) (auto, metis append_butlast_last_id)
qed

theorem teardown_finalizer_last_witness:
  "\<exists>pre post r. pass_trace sample_empty_env [] = (pre @ [EvList (po_Name sample_dying) (Inr [])]) @
     EvUpdatePool (sample_dying\<lparr>po_Finalizers := []\<rparr>) r # post"
proof -
  obtain pre r post where tr: "pass_trace sample_empty_env [] = pre @ EvUpdatePool (sample_dying\<lparr>po_Finalizers := []\<rparr>) r # post"
    using sample_empty_deletion split_list by metis
  obtain pre1 where "pre = pre1 @ [EvList (po_Name sample_dying) (Inr [])]"
    using teardown_finalizer_last [OF sample_deletion_pass(2) tr] by blast
  with tr show ?thesis by (intro exI) simp
qed

end
