(* ===== verification/Metrics.thy ===== *)
theory Metrics
  imports RowInvariant Teardown
begin

text \<open>
  The metrics a Prometheus scrape sees, \<^verbatim>\<open>internal/metrics/metrics.go\<close>: the collectors, their
  registration, and what the calls of a pass do to the series. A series is its metric and its label
  values, the first two of which are always pool and namespace. client_golang is not part of the
  repository: \<open>meter\<close> says of it only what its documentation says of \<^verbatim>\<open>Set\<close>, \<^verbatim>\<open>Inc\<close>, \<^verbatim>\<open>Observe\<close> and
  \<^verbatim>\<open>DeletePartialMatch\<close>, and the theorems use it only for what a gauge shows after \<^verbatim>\<open>Set\<close> and what is left
  after \<^verbatim>\<open>DeletePartialMatch\<close>.
\<close>

section \<open>Collectors\<close>

fun metric_name :: "metric \<Rightarrow> string" where
  "metric_name CellsDesired = ''gpucell_cells_desired''"
| "metric_name Cells = ''gpucell_cells''"
| "metric_name CellStartupSeconds = ''gpucell_cell_startup_seconds''"
| "metric_name CellTransitionsTotal = ''gpucell_cell_transitions_total''"
| "metric_name PhysicalGPUs = ''gpucell_physical_gpus''"
| "metric_name CapacityGPUDevices = ''gpucell_capacity_gpu_devices''"
| "metric_name CapacityGPUMemoryBytes = ''gpucell_capacity_gpu_memory_bytes''"
| "metric_name CapacityGPUComputePercent = ''gpucell_capacity_gpu_compute_percent''"
| "metric_name WorkloadClusterReachable = ''gpucell_workload_cluster_reachable''"
| "metric_name CapacityScrapeErrorsTotal = ''gpucell_capacity_scrape_errors_total''"
| "metric_name ScaleDecisionsTotal = ''gpucell_scale_decisions_total''"
| "metric_name ReconcileErrorsTotal = ''gpucell_reconcile_errors_total''"

definition registered :: "metric list" where
  \<comment> \<open>\<^verbatim>\<open>init\<close>, in its order\<close>
  "registered = [CellsDesired, Cells, CellStartupSeconds, CellTransitionsTotal, PhysicalGPUs, CapacityGPUDevices,
     CapacityGPUMemoryBytes, CapacityGPUComputePercent, WorkloadClusterReachable, CapacityScrapeErrorsTotal,
     ScaleDecisionsTotal, ReconcileErrorsTotal]"

definition forgotten :: "metric list" where
  \<comment> \<open>the collectors \<^verbatim>\<open>ForgetPool\<close> walks, in its order\<close>
  "forgotten = [CellsDesired, Cells, CellTransitionsTotal, PhysicalGPUs, CapacityGPUDevices, CapacityGPUMemoryBytes,
     CapacityGPUComputePercent, WorkloadClusterReachable, CapacityScrapeErrorsTotal, ScaleDecisionsTotal,
     ReconcileErrorsTotal, CellStartupSeconds]"

section \<open>Series\<close>

datatype sample_value = Gauge int | Counter int | Histogram "int list"

type_synonym series = "metric \<times> string list"

type_synonym registry = "(series \<times> sample_value) list"

fun histogram :: "metric \<Rightarrow> bool" where
  "histogram CellStartupSeconds = True"
| "histogram _ = False"

fun counter :: "metric \<Rightarrow> bool" where
  "counter CellTransitionsTotal = True"
| "counter CapacityScrapeErrorsTotal = True"
| "counter ScaleDecisionsTotal = True"
| "counter ReconcileErrorsTotal = True"
| "counter _ = False"

definition record_value :: "metric \<Rightarrow> int \<Rightarrow> sample_value option \<Rightarrow> sample_value" where
  \<comment> \<open>\<^verbatim>\<open>Observe\<close>, \<^verbatim>\<open>Inc\<close> and \<^verbatim>\<open>Set\<close>, by the kind of the collector\<close>
  "record_value m v old =
     (if histogram m then Histogram ((case old of Some (Histogram vs) \<Rightarrow> vs | _ \<Rightarrow> []) @ [v])
      else if counter m then Counter ((case old of Some (Counter n) \<Rightarrow> n | _ \<Rightarrow> 0) + v)
      else Gauge v)"

definition write_series :: "series \<Rightarrow> int \<Rightarrow> registry \<Rightarrow> registry" where
  "write_series k v reg = AList.update k (record_value (fst k) v (map_of reg k)) reg"

definition set_gauges :: "string \<Rightarrow> string \<Rightarrow> gauge list \<Rightarrow> registry \<Rightarrow> registry" where
  "set_gauges pool ns gs reg = foldl (\<lambda>r (m, labels, v). write_series (m, pool # ns # labels) v r) reg gs"

definition DeletePartialMatch :: "string \<Rightarrow> string \<Rightarrow> metric \<Rightarrow> registry \<Rightarrow> registry" where
  \<comment> \<open>client_golang: drops the series of the collector whose pool and namespace labels are these\<close>
  "DeletePartialMatch pool ns c reg = filter (\<lambda>((m, labels), v). \<not> (m = c \<and> take 2 labels = [pool, ns])) reg"

definition ForgetPool :: "string \<Rightarrow> string \<Rightarrow> registry \<Rightarrow> registry" where
  "ForgetPool ns pool reg = fold (DeletePartialMatch pool ns) forgotten reg"

fun meter :: "event \<Rightarrow> registry \<Rightarrow> registry" where
  "meter (EvMetric m labels v) reg = write_series (m, labels) v reg"
| "meter (EvGauges pool ns gs) reg = set_gauges pool ns gs reg"
| "meter (EvForgetPool ns pool) reg = ForgetPool ns pool reg"
| "meter _ reg = reg"

section \<open>What one write shows\<close>

lemma map_of_write_series:
  "map_of (write_series k v reg) = (map_of reg)(k \<mapsto> record_value (fst k) v (map_of reg k))"
  by (simp add: write_series_def update_conv')

lemma map_of_set_gauges:
  assumes "\<forall>(m, labels, v) \<in> set gs. \<not> histogram m \<and> \<not> counter m"
  shows "map_of (set_gauges pool ns gs reg) k =
     (case map_of (rev (map (\<lambda>(m, labels, v). ((m, pool # ns # labels), Gauge v)) gs)) k of
        None \<Rightarrow> map_of reg k | Some x \<Rightarrow> Some x)"
  using assms unfolding set_gauges_def
proof (induction gs arbitrary: reg)
  case (Cons g gs)
  obtain m labels v where g: "g = (m, labels, v)" by (cases g)
  have "map_of (write_series (m, pool # ns # labels) v reg) = (map_of reg)((m, pool # ns # labels) \<mapsto> Gauge v)"
    using Cons.prems by (simp add: g map_of_write_series record_value_def)
  then show ?case
    using Cons.IH [of "write_series (m, pool # ns # labels) v reg"] Cons.prems
    by (simp add: g map_add_def split: option.splits)
qed simp

lemma publishMetrics_gauges:
  "\<forall>(m, labels, v) \<in> set (publishMetrics cells scale freeGPUs cap0 known). \<not> histogram m \<and> \<not> counter m"
  by (auto simp: publishMetrics_def split: if_splits option.splits)

lemma ForgetPool_filter:
  "ForgetPool ns pool reg = filter (\<lambda>((m, labels), v). take 2 labels \<noteq> [pool, ns]) reg"
proof -
  have "fold (DeletePartialMatch pool ns) cs reg =
      filter (\<lambda>((m, labels), v). \<not> (m \<in> set cs \<and> take 2 labels = [pool, ns])) reg" for cs
    by (induction cs arbitrary: reg) (auto simp: DeletePartialMatch_def case_prod_beta intro!: filter_cong)
  moreover have "m \<in> set forgotten" for m by (cases m) (simp_all add: forgotten_def)
  ultimately show ?thesis by (simp add: ForgetPool_def)
qed

section \<open>The calls of whole passes\<close>

text \<open>The calls of every pass, live, deleting or refused, carry one value per label.\<close>

abbreviation "metrics_rule \<equiv> publishes (\<lambda>_. True)"

lemma ms_reconcile_with: "keeps (inv_of metrics_rule (\<lambda>_. True)) (reconcile_with env q prov c)"
  unfolding reconcile_with_eq Let_def
  by (intro keeps_bind keeps_attempt pb_discoverCells pb_act pb.keeps_read_capacity pb.keeps_read_idle keeps_allowed_call
      keeps_allowed_emit keeps_allowed_emit_all stable_True;
      (unfold prod.case case_prod_beta)?; (intro keeps_rules keeps_allowed_call keeps_allowed_emit stable_True)?)
    (auto simp: scale_events_def WithLabelValues_ok_def dest: publishMetrics_ok split: if_splits)

lemma ms_reconcileDeletion: "keeps (inv_of metrics_rule (\<lambda>_. True)) (reconcileDeletion env q prov)"
  unfolding reconcileDeletion_def writeDrainStatus_def Let_def
  by (intro keeps_rules pb.keeps_workloadClient pb.keeps_prov_List pb.keeps_progressDrain [OF _ same_pool_refl]
      keeps_allowed_call keeps_allowed_emit) simp_all

lemma ms_Reconcile: "keeps (inv_of metrics_rule (\<lambda>_. True)) (Reconcile env)"
  unfolding Reconcile_def reconcile_live_def Let_def
  by (intro keeps_rules pb.keeps_workloadClient ms_reconcile_with ms_reconcileDeletion keeps_allowed_call keeps_allowed_emit) simp_all

lemma pass_metrics: "obeys metrics_rule (pass_trace env cache)"
proof -
  obtain r w where w: "run_state (Reconcile env) \<lparr>wo_trace = [], wo_cache = cache\<rparr> = (r, w)" by fastforce
  have "inv_of metrics_rule (\<lambda>_. True) (wo_trace w)"
    by (rule trip_run [OF ms_Reconcile [unfolded keeps_def] _ w]) (simp add: inv_of_def)
  then show ?thesis by (simp add: pass_trace_def w inv_of_def)
qed

text \<open>A deletion pass that is over ends by forgetting the pool.\<close>

lemma deletion_ends_forgetting:
  assumes "deletion_pass env prov q" and "run_state (Reconcile env) \<lparr>wo_trace = [], wo_cache = cache\<rparr> = (Inr 0, w)"
  shows "\<exists>pre. wo_trace w = pre @ [EvForgetPool (po_Namespace q) (po_Name q)]"
proof -
  let ?done = "\<lambda>(r :: duration result) tr. r = Inr 0 \<longrightarrow> (\<exists>pre. tr = pre @ [EvForgetPool (po_Namespace q) (po_Name q)])"
  let ?forget = "\<lambda>x. do { forget_client (clientKey q); emit (EvForgetPool (po_Namespace q) (po_Name q)); ret (Inr 0) }"
  have forget: "trip P (?forget x) ?done" for P x
    by (rule trip_bind [OF trip_any], rule trip_bind [where R = "\<lambda>_ tr. \<exists>pre. tr = pre @ [EvForgetPool (po_Namespace q) (po_Name q)]"])
      (auto intro: trip_emit trip_ret)
  have last: "trip P (attempt m ?forget) ?done" for P and m :: "GPUCellPool result io"
    by (rule trip_attempt [OF trip_any forget]) simp_all
  have drain: "trip P (attempt m (\<lambda>rows. do { writeDrainStatus env q (concat rows); ret (Inr requeueProgressing) })) ?done"
    for P and m :: "CellStatus list list result io"
    by (rule trip_attempt [OF trip_any]) (auto intro!: trip_bind [OF trip_any] trip_ret simp: Second_def)
  have "trip (\<lambda>_. True) (reconcileDeletion env q prov) ?done"
    unfolding reconcileDeletion_def Let_def
    by (rule trip_bind [OF trip_any], rule trip_attempt [OF trip_any]) (auto intro: last drain)
  moreover have "run_state (reconcileDeletion env q prov) \<lparr>wo_trace = [EvRead ''GetPool''], wo_cache = cache\<rparr> = (Inr 0, w)"
    using assms by (simp add: deletion_pass_def Reconcile_def call_def)
  ultimately show ?thesis using trip_run by fastforce
qed

text \<open>A live pass that succeeds ends with the gauges and the status of the same rows.\<close>

fun published :: "GPUCellPool \<Rightarrow> event list \<Rightarrow> GPUCellPool \<Rightarrow> bool" where
  "published q tr p \<longleftrightarrow>
     (\<exists>pre scale freeGPUs cap0 known. tr = pre @
        [EvGauges (po_Name q) (po_Namespace q) (publishMetrics (st_Cells (po_Status p)) scale freeGPUs cap0 known),
         EvUpdateStatus p (Inr ())])"

lemma names_kept:
  "po_Name (remember_shape now cap p) = po_Name p" "po_Namespace (remember_shape now cap p) = po_Namespace p"
  "po_Name (writeStatus ssc now p cells plan scale rollout d dk f h c ck r rr rm) = po_Name p"
  "po_Namespace (writeStatus ssc now p cells plan scale rollout d dk f h c ck r rr rm) = po_Namespace p"
  by (simp_all add: remember_shape_def writeStatus_def Let_def split: option.split)

lemma publication:
  assumes "po_Name p = po_Name q" and "po_Namespace p = po_Namespace q" and "st_Cells (po_Status p) = cells"
  shows "trip P (do {
      emit (EvGauges (po_Name p) (po_Namespace p) (publishMetrics cells scale freeGPUs cap0 known));
      attempt (wrapping msg (call (\<lambda>tr. en_UpdateStatus env tr p) (EvUpdateStatus p))) (\<lambda>_. ret (Inr d)) })
    (\<lambda>r tr. (\<exists>d. r = Inr d) \<longrightarrow> (\<exists>p. published q tr p))"
proof (rule trip_bind)
  let ?g = "EvGauges (po_Name p) (po_Namespace p) (publishMetrics cells scale freeGPUs cap0 known)"
  show "trip P (emit ?g) (\<lambda>_ tr. \<exists>pre. tr = pre @ [?g])" by (rule trip_emit) blast
  have "trip (\<lambda>tr. \<exists>pre. tr = pre @ [?g]) (call (\<lambda>tr. en_UpdateStatus env tr p) (EvUpdateStatus p))
      (\<lambda>r tr. r = Inr () \<longrightarrow> published q tr p)"
    by (rule trip_call) (use assms in fastforce)
  then show "trip (\<lambda>tr. \<exists>pre. tr = pre @ [?g])
      (attempt (wrapping msg (call (\<lambda>tr. en_UpdateStatus env tr p) (EvUpdateStatus p))) (\<lambda>_. ret (Inr d)))
      (\<lambda>r tr. (\<exists>d. r = Inr d) \<longrightarrow> (\<exists>p. published q tr p))" for u :: unit
    by (intro trip_attempt [where R = "\<lambda>r tr. r = Inr () \<longrightarrow> published q tr p"] trip_wrapping)
      (auto intro!: trip_ret elim!: trip_weaken split: sum.splits simp del: published.simps)
qed

lemma reconcile_with_publishes:
  "trip P (reconcile_with env q prov c) (\<lambda>r tr. (\<exists>d. r = Inr d) \<longrightarrow> (\<exists>p. published q tr p))"
  unfolding reconcile_with_eq Let_def
  by (rule trip_attempt [OF trip_any], intro trip_bind [OF trip_any] trip_attempt [OF trip_any], unfold case_prod_beta,
      rule publication) (simp_all add: names_kept writeStatus_Cells)

lemma pass_publishes_status:
  assumes "pass_pool env prov q" and "run_state (Reconcile env) \<lparr>wo_trace = [], wo_cache = cache\<rparr> = (Inr d, w)"
  shows "\<exists>p. published q (wo_trace w) p"
proof -
  have live: "trip (\<lambda>_. True) (reconcile_live env q prov) (\<lambda>r tr. (\<exists>d. r = Inr d) \<longrightarrow> (\<exists>p. published q tr p))"
    unfolding reconcile_live_def by (rule trip_bind [OF trip_any reconcile_with_publishes])
  obtain tr0 where "run_state (Reconcile env) \<lparr>wo_trace = [], wo_cache = cache\<rparr> =
      run_state (reconcile_live env q prov) \<lparr>wo_trace = tr0, wo_cache = cache\<rparr>"
    by (rule Reconcile_unfold [OF assms(1), of cache])
  with assms(2) show ?thesis using trip_run [OF live] by (metis (full_types))
qed

lemma published_phase:
  assumes "published q tr p" and "phase \<noteq> PhaseUnset"
  shows "map_of (fold meter tr reg) (Cells, [po_Name q, po_Namespace q, phase_label phase]) =
    Some (Gauge (int (length (filter (\<lambda>c. cs_Phase c = phase) (st_Cells (po_Status p))))))"
proof -
  obtain pre scale freeGPUs cap0 known where tr: "tr = pre @
      [EvGauges (po_Name q) (po_Namespace q) (publishMetrics (st_Cells (po_Status p)) scale freeGPUs cap0 known),
       EvUpdateStatus p (Inr ())]"
    using assms(1) by auto
  show ?thesis
    using assms(2) unfolding tr fold_append comp_apply fold.simps id_apply meter.simps map_of_set_gauges [OF publishMetrics_gauges]
    unfolding publishMetrics_def allCellPhases_def
    by (cases phase) (auto split: option.split)
qed

section \<open>Properties\<close>

text \<open>
  Whatever the two clusters answer, no pass calls a collector with the wrong number of label values, which
  would panic, and no pass touches the counter of failed reconciles, so it reports nothing however many
  passes fail.
\<close>

theorem pass_metric_calls:
  assumes "EvMetric m labels v \<in> set (pass_trace env cache) \<or>
    (\<exists>pool ns gs labels'. EvGauges pool ns gs \<in> set (pass_trace env cache) \<and> (m, labels', v) \<in> set gs \<and> labels = pool # ns # labels')"
  shows "length labels = length (metric_labels m) \<and> m \<noteq> ReconcileErrorsTotal"
proof -
  have rule: "\<exists>pre. metrics_rule pre ev" if "ev \<in> set (pass_trace env cache)" for ev
    using that pass_metrics [of env cache] by (metis in_set_conv_decomp obeysD)
  then show ?thesis using assms by (fastforce simp: WithLabelValues_ok_def dest: rule)
qed

text \<open>Registration does not panic: the names are distinct, and every collector is registered and forgotten.\<close>

theorem collectors_registered_once:
  "distinct (map metric_name registered) \<and> set registered = UNIV \<and> set forgotten = UNIV"
proof -
  have "m \<in> set registered \<and> m \<in> set forgotten" for m by (cases m) (simp_all add: registered_def forgotten_def)
  moreover have "distinct (map metric_name registered)" by code_simp
  ultimately show ?thesis by blast
qed

text \<open>
  The pass that finishes the deletion of a pool, the one with nothing left to requeue for, leaves no
  series of the pool in the registry.
\<close>

theorem deleted_pool_forgotten:
  assumes "deletion_pass env prov q" and "run_state (Reconcile env) \<lparr>wo_trace = [], wo_cache = cache\<rparr> = (Inr 0, w)"
    and "((m, labels), v) \<in> set (fold meter (wo_trace w) reg)"
  shows "take 2 labels \<noteq> [po_Name q, po_Namespace q]"
  using deletion_ends_forgetting [OF assms(1,2)] assms(3) by (auto simp: ForgetPool_filter)

text \<open>
  C32. After a live pass that succeeds, a scrape agrees with the status the pass has just written: for
  every phase the pool's gauge is the number of rows in that phase, 0 where there is none.
\<close>

theorem scrape_matches_status:
  assumes "pass_pool env prov q" and "run_state (Reconcile env) \<lparr>wo_trace = [], wo_cache = cache\<rparr> = (Inr d, w)"
  shows "\<exists>p. last (wo_trace w) = EvUpdateStatus p (Inr ()) \<and> (\<forall>phase. phase \<noteq> PhaseUnset \<longrightarrow>
    map_of (fold meter (wo_trace w) reg) (Cells, [po_Name q, po_Namespace q, phase_label phase]) =
      Some (Gauge (int (length (filter (\<lambda>c. cs_Phase c = phase) (st_Cells (po_Status p)))))))"
proof -
  obtain p where p: "published q (wo_trace w) p" using pass_publishes_status [OF assms] by blast
  then have "last (wo_trace w) = EvUpdateStatus p (Inr ())" by auto
  with published_phase [OF p] show ?thesis by blast
qed

theorem scrape_matches_status_witness:
  "\<exists>d w n. run_state (Reconcile sample_new_env) \<lparr>wo_trace = [], wo_cache = []\<rparr> = (Inr d, w) \<and>
     map_of (fold meter (wo_trace w) []) (Cells, [''p'', ''ns'', ''Failed'']) = Some (Gauge n)"
proof -
  obtain d w where w: "run_state (Reconcile sample_new_env) \<lparr>wo_trace = [], wo_cache = []\<rparr> = (Inr d, w)"
    using sample_new_pass(3) by blast
  have "po_Name sample_new_pool = ''p''" "po_Namespace sample_new_pool = ''ns''" by code_simp+
  then have "\<exists>n. map_of (fold meter (wo_trace w) []) (Cells, [''p'', ''ns'', ''Failed'']) = Some (Gauge n)"
    using scrape_matches_status [OF sample_new_pass(1) w, of "[]"] by fastforce
  with w show ?thesis by blast
qed

text \<open>
  The compute gauges of a pool that has become mixed are those of the last homogeneous reading: the
  publication leaves them as they were, and the \<^verbatim>\<open>free\<close> gauge is left the same way when the inventory
  was not read.
\<close>

theorem compute_gauges_stale:
  assumes "\<not> cy_Homogeneous cap0"
  shows "map_of (set_gauges pool ns (publishMetrics cells scale freeGPUs cap0 known) reg) (CapacityGPUComputePercent, labels) =
    map_of reg (CapacityGPUComputePercent, labels)"
  using assms unfolding map_of_set_gauges [OF publishMetrics_gauges] unfolding publishMetrics_def allCellPhases_def
  by (auto split: option.split)

end
