(* ===== verification/Convergence.thy ===== *)
theory Convergence
  imports ScalingPass
begin

text \<open>
  Where repeated planning leads. A run is a sequence of the states the passes of a pool see, each planned
  by the scaling and membership part of the reconciler as it calls them; in a good run everything asked
  for in one pass has happened by the next: created cells are Ready and drained ones are gone. The size
  of the pool then follows a closed form, and is the desired one after as many passes as the in-flight
  bound makes necessary.
\<close>

definition steady :: "CellStatus list \<Rightarrow> bool" where
  "steady cells \<longleftrightarrow> distinct (map cs_Index cells) \<and> distinct (map cs_Name cells) \<and>
     list_all (\<lambda>c. cs_Phase c = CellPhaseReady) cells"

definition carried_out :: "MembershipPlan \<Rightarrow> CellStatus list \<Rightarrow> CellStatus list \<Rightarrow> bool" where
  "carried_out plan cells cells' \<longleftrightarrow> steady cells' \<and>
     set (map cs_Index cells') =
       cs_Index ` {c \<in> set cells. cs_Name c \<notin> set (mp_Drain plan)} \<union> set (mp_Create plan)"

text \<open>What one pass is planned from, with the workload cluster reachable, and what it plans.\<close>

record PassView =
  pv_Pool :: GPUCellPool
  pv_Cells :: "CellStatus list"
  pv_Idle :: "string list"
  pv_Demand :: Demand
  pv_DemandKnown :: bool
  pv_ShapeKnown :: bool
  pv_FreeGPUs :: "goint option"
  pv_ProviderReady :: bool
  pv_Now :: gotime

definition planned :: "PassView \<Rightarrow> ScaleDecision \<times> MembershipPlan" where
  "planned v = scaling_pass (pv_Pool v) (pv_Cells v) (pv_Idle v) (pv_Demand v) (pv_DemandKnown v) (pv_ShapeKnown v)
     (pv_FreeGPUs v) True (pv_ProviderReady v) (pv_Now v)"

definition pass_input :: "PassView \<Rightarrow> MembershipInput" where
  "pass_input v = membership_input (pv_Pool v) (pv_Cells v) (fst (planned v)) (pv_FreeGPUs v) True (pv_ProviderReady v) (pv_Now v)"

lemma planned_plan: "snd (planned v) = PlanMembership (pass_input v)"
  by (simp add: planned_def pass_input_def scaling_pass_def Let_def)

definition favourable :: "i32 \<Rightarrow> PassView \<Rightarrow> bool" where
  \<comment> \<open>the same size is wanted, the pool is not hopeless, and there are GPUs for all that is missing\<close>
  "favourable desired v \<longleftrightarrow> sd_Desired (fst (planned v)) = desired \<and>
     (everReady (pv_Pool v) (pv_Cells v) \<or> wrap32 (sum_list (map cs_FailureCount (pv_Cells v))) < HopelessPoolFailures) \<and>
     (case pv_FreeGPUs v of None \<Rightarrow> True | Some free \<Rightarrow> desired - int (length (pv_Cells v)) \<le> free)"

definition good_run :: "i32 \<Rightarrow> (nat \<Rightarrow> PassView) \<Rightarrow> bool" where
  "good_run desired run \<longleftrightarrow> steady (pv_Cells (run 0)) \<and>
     (\<forall>i. favourable desired (run i) \<and>
        carried_out (snd (planned (run i))) (pv_Cells (run i)) (pv_Cells (run (Suc i))))"

section \<open>One pass\<close>

lemma steady_counts:
  assumes "steady cells"
  shows "live_count cells = int (length cells)" "in_flight_count cells = 0" "filter is_candidate cells = cells"
    "filter occupies cells = cells" "suspectCredentialFailures cells = 0"
proof -
  have ready: "cs_Phase c = CellPhaseReady" if "c \<in> set cells" for c
    using assms that by (simp add: steady_def list_all_iff)
  then have "filter counts_live cells = cells" "filter in_flight cells = []"
    by (auto simp: filter_id_conv filter_empty_conv cell_class)
  then show "live_count cells = int (length cells)" "in_flight_count cells = 0"
    by (simp_all add: live_count_def in_flight_count_def)
  show "filter is_candidate cells = cells" "filter occupies cells = cells"
    using ready by (auto simp: filter_id_conv cell_class)
  show "suspectCredentialFailures cells = 0"
    using ready by (induction cells) auto
qed

lemma steady_length: "steady cells \<Longrightarrow> length cells = card (set (map cs_Index cells))"
  by (simp add: steady_def distinct_card [of "map cs_Index cells", simplified])

lemma pass_input_simps [simp]:
  "mi_Cells (pass_input v) = pv_Cells v" "mi_WorkloadReachable (pass_input v)" "mi_MaxCreating (pass_input v) = 0"
  "mi_FreeGPUs (pass_input v) = pv_FreeGPUs v" "mi_EverReady (pass_input v) = everReady (pv_Pool v) (pv_Cells v)"
  "mi_Desired (pass_input v) = sd_Desired (fst (planned v))"
  by (simp_all add: pass_input_def membership_input_def)

lemma steady_may_create: "steady (pv_Cells v) \<Longrightarrow> favourable d v \<Longrightarrow> may_create (pass_input v)"
  by (auto simp: may_create_def favourable_def failures_clear_def steady_counts steady_def list_all_iff)

lemma favourable_quota:
  assumes "steady (pv_Cells v)" and "favourable d v" and "int (length (pv_Cells v)) \<le> d"
  shows "quota (pass_input v) = min (d - int (length (pv_Cells v))) DefaultMaxCreating"
proof -
  have "mi_MaxCreating (normal_input (pass_input v)) = DefaultMaxCreating" by (simp add: normal_input_def)
  then show ?thesis
    using assms(2,3) steady_counts(1,2) [OF assms(1)]
    by (auto simp: quota_def favourable_def Let_def min_def split: option.splits)
qed

lemma created_count:
  assumes "carried_out (snd (planned v)) (pv_Cells v) cells'" and "steady (pv_Cells v)" and "favourable d v"
    and "sane_input (pass_input v)" and "int (length (pv_Cells v)) \<le> d"
  shows "int (length cells') = min d (int (length (pv_Cells v)) + DefaultMaxCreating)"
proof -
  let ?L = "length (pv_Cells v)" and ?P = "PlanMembership (pass_input v)"
  have live: "live_count (pv_Cells v) = int ?L" by (rule steady_counts [OF assms(2)])
  have des: "sd_Desired (fst (planned v)) = d" using assms(3) by (simp add: favourable_def)
  have "mp_Drain ?P = []" using PlanMembership_grows(2) [OF assms(4)] live des assms(5) by simp
  then have idx: "set (map cs_Index cells') = set (map cs_Index (pv_Cells v)) \<union> set (mp_Create ?P)"
    using assms(1) by (auto simp: carried_out_def planned_plan)
  have new: "int (length (mp_Create ?P)) = min (d - int ?L) DefaultMaxCreating"
    using PlanMembership_Create_eq [OF assms(4)] steady_may_create [OF assms(2,3)] favourable_quota [OF assms(2,3,5)]
      live des assms(5) by (auto simp: lfi.alloc_indexes_length min_def)
  have fresh: "distinct (mp_Create ?P)" "set (mp_Create ?P) \<inter> set (map cs_Index (pv_Cells v)) = {}"
    using PlanMembership_create_fresh [OF assms(4)] steady_counts(4) [OF assms(2)] by (auto simp: filter_id_conv)
  have "length cells' = card (set (map cs_Index (pv_Cells v)) \<union> set (mp_Create ?P))"
    using steady_length [of cells'] assms(1) unfolding idx [symmetric] by (simp add: carried_out_def)
  also have "\<dots> = ?L + length (mp_Create ?P)"
    using fresh steady_length [OF assms(2)] by (subst card_Un_disjoint) (auto simp: distinct_card)
  finally show ?thesis using new by (auto simp: min_def)
qed

lemma drained_count:
  assumes "carried_out (snd (planned v)) (pv_Cells v) cells'" and "steady (pv_Cells v)" and "favourable d v"
    and "0 \<le> d" and "sane_input (pass_input v)" and "d < int (length (pv_Cells v))"
  shows "int (length cells') = d"
proof -
  let ?cells = "pv_Cells v" and ?P = "PlanMembership (pass_input v)" and ?order = "drain_order (pass_input v)"
  have des: "sd_Desired (fst (planned v)) = d" using assms(3) by (simp add: favourable_def)
  note live = steady_counts(1) [OF assms(2)]
  have idx: "distinct (map cs_Index ?cells)" and names: "distinct (map cs_Name ?cells)" using assms(2) by (simp_all add: steady_def)
  have order: "distinct ?order" "set ?order = cs_Name ` set ?cells"
    using set_drain_order [of "pass_input v"] by (simp_all add: steady_counts(3) [OF assms(2)]) (simp add: drain_order_def Let_def)
  have drain: "mp_Drain ?P = take (nat (int (length ?cells) - d)) ?order"
    using PlanMembership_drains [OF assms(5)] idx live des assms(4,6) by simp
  have len: "length ?order = length ?cells"
    using order names distinct_card [OF order(1)] distinct_card [OF names] by simp
  have gone: "card (set (mp_Drain ?P)) = nat (int (length ?cells) - d)"
    unfolding drain using order(1) len assms(4) by (subst distinct_card) auto
  have sub: "set (mp_Drain ?P) \<subseteq> cs_Name ` set ?cells"
    unfolding drain using order(2) set_take_subset by fastforce
  have "mp_Create ?P = []" using PlanMembership_Create_eq [OF assms(5)] live des assms(6) by simp
  then have "set (map cs_Index cells') = cs_Index ` {c \<in> set ?cells. cs_Name c \<notin> set (mp_Drain ?P)}"
    using assms(1) by (simp add: carried_out_def planned_plan)
  then have "length cells' = card (cs_Index ` {c \<in> set ?cells. cs_Name c \<notin> set (mp_Drain ?P)})"
    using steady_length [of cells'] assms(1) by (simp add: carried_out_def)
  also have "\<dots> = card {c \<in> set ?cells. cs_Name c \<notin> set (mp_Drain ?P)}"
    using idx by (intro card_image) (auto simp: distinct_map inj_on_def)
  also have "\<dots> = card (cs_Name ` {c \<in> set ?cells. cs_Name c \<notin> set (mp_Drain ?P)})"
    using names by (intro card_image [symmetric]) (auto simp: distinct_map inj_on_def)
  also have "cs_Name ` {c \<in> set ?cells. cs_Name c \<notin> set (mp_Drain ?P)} = cs_Name ` set ?cells - set (mp_Drain ?P)" by auto
  also have "card (cs_Name ` set ?cells - set (mp_Drain ?P)) = length ?cells - nat (int (length ?cells) - d)"
    using sub gone distinct_card [OF names] by (simp add: card_Diff_subset)
  finally show ?thesis using assms(4,6) by simp
qed

section \<open>Whole runs\<close>

definition run_size :: "int \<Rightarrow> int \<Rightarrow> int \<Rightarrow> nat \<Rightarrow> int" where
  "run_size d m l n = (if l \<le> d then min d (l + int n * m) else if n = 0 then l else d)"

lemma run_size_step: "0 < m \<Longrightarrow> run_size d m l (Suc n) = (if run_size d m l n \<le> d then min d (run_size d m l n + m) else d)"
  by (auto simp: run_size_def min_def algebra_simps)

lemma run_size_bound: "0 < m \<Longrightarrow> 0 \<le> l \<Longrightarrow> run_size d m l n \<le> max d l"
  by (auto simp: run_size_def)

lemma good_run_size:
  assumes "good_run d run" and "0 \<le> d" and "max d (int (length (pv_Cells (run 0)))) + d < 2147483648"
  shows "steady (pv_Cells (run n)) \<and>
    int (length (pv_Cells (run n))) = run_size d DefaultMaxCreating (int (length (pv_Cells (run 0)))) n"
proof (induction n)
  case 0
  show ?case using assms(1,2) by (auto simp: good_run_def run_size_def)
next
  case (Suc n)
  let ?l = "int (length (pv_Cells (run 0)))" and ?m = "DefaultMaxCreating :: int"
  have m: "0 < ?m" by simp
  have fav: "favourable d (run n)" and step: "carried_out (snd (planned (run n))) (pv_Cells (run n)) (pv_Cells (run (Suc n)))"
    using assms(1) by (simp_all add: good_run_def)
  have sane: "sane_input (pass_input (run n))"
    using fav Suc run_size_bound [OF m, of ?l d n] assms(2,3) by (simp add: sane_input_def favourable_def in_i64_def)
  have "int (length (pv_Cells (run (Suc n)))) = run_size d ?m ?l (Suc n)"
  proof (cases "int (length (pv_Cells (run n))) \<le> d")
    case True
    with created_count [OF step conjunct1 [OF Suc] fav sane] Suc show ?thesis by (simp add: run_size_step [OF m])
  next
    case False
    with drained_count [OF step conjunct1 [OF Suc] fav assms(2) sane] Suc show ?thesis by (simp add: run_size_step [OF m])
  qed
  with step show ?case by (simp add: carried_out_def)
qed

section \<open>Properties\<close>

text \<open>
  C9. A pool gets the size it was asked for. In a good run that starts with \<open>l\<close> Ready cells, after \<open>n\<close>
  passes the pool has the desired number of cells or \<open>l\<close> plus \<open>n\<close> times the default bound on cells in
  flight, two, whichever is less, and a pool that was too large has shrunk after one pass; so once the
  passes make up the difference the size is the desired one for good, all cells are Ready, and the
  reconciler plans to create and drain nothing more.
\<close>

theorem pool_converges:
  assumes "good_run desired run" and "0 \<le> desired" and "max desired (int (length (pv_Cells (run 0)))) + desired < 2147483648"
    and "desired \<le> int (length (pv_Cells (run 0))) + 2 * int n" and "1 \<le> n"
  shows "int (length (pv_Cells (run n))) = desired \<and> steady (pv_Cells (run n)) \<and>
    mp_Create (snd (planned (run n))) = [] \<and> mp_Drain (snd (planned (run n))) = []"
proof -
  note size = good_run_size [OF assms(1-3), of n]
  have len: "int (length (pv_Cells (run n))) = desired" using size assms(4,5) by (auto simp: run_size_def)
  have fav: "favourable desired (run n)" using assms(1) by (simp add: good_run_def)
  have sane: "sane_input (pass_input (run n))" using fav len assms(2,3) by (simp add: sane_input_def favourable_def in_i64_def)
  have live: "live_count (mi_Cells (pass_input (run n))) = mi_Desired (pass_input (run n))"
    using steady_counts(1) size len fav by (simp add: favourable_def)
  show ?thesis
    using len size PlanMembership_Create_eq [OF sane] PlanMembership_grows(2) [OF sane] live by (simp add: planned_plan)
qed

text \<open>A pool of three replicas that starts empty: two cells after one pass, three after two.\<close>

definition sample_run :: "nat \<Rightarrow> PassView" where
  "sample_run n = \<lparr>pv_Pool = sample_pool\<lparr>po_Spec := (po_Spec sample_pool)\<lparr>sp_Replicas := 3\<rparr>\<rparr>,
     pv_Cells = map (\<lambda>i. sample_row (Name ''p'' i) i CellPhaseReady) (take (2 * n) [0, 1, 2]),
     pv_Idle = [], pv_Demand = zero_Demand, pv_DemandKnown = True, pv_ShapeKnown = True, pv_FreeGPUs = None,
     pv_ProviderReady = True, pv_Now = 7\<rparr>"

lemma sample_good_run: "good_run 3 sample_run"
proof -
  have later: "sample_run (Suc (Suc i)) = sample_run 2" for i by (simp add: sample_run_def)
  have fav: "favourable 3 (sample_run 0)" "favourable 3 (sample_run (Suc 0))" "favourable 3 (sample_run 2)"
    by code_simp+
  have steps: "carried_out (snd (planned (sample_run 0))) (pv_Cells (sample_run 0)) (pv_Cells (sample_run (Suc 0)))"
    "carried_out (snd (planned (sample_run (Suc 0)))) (pv_Cells (sample_run (Suc 0))) (pv_Cells (sample_run 2))"
    "carried_out (snd (planned (sample_run 2))) (pv_Cells (sample_run 2)) (pv_Cells (sample_run 2))"
    by code_simp+
  have "favourable 3 (sample_run i) \<and>
    carried_out (snd (planned (sample_run i))) (pv_Cells (sample_run i)) (pv_Cells (sample_run (Suc i)))" for i
  proof -
    consider "i = 0" | "i = Suc 0" | j where "i = Suc (Suc j)" by (metis not0_implies_Suc)
    then show ?thesis by cases (simp_all add: fav steps later)
  qed
  moreover have "steady (pv_Cells (sample_run 0))" by code_simp
  ultimately show ?thesis by (simp add: good_run_def)
qed

theorem pool_converges_witness:
  "good_run 3 sample_run \<and> pv_Cells (sample_run 0) = [] \<and> int (length (pv_Cells (sample_run 2))) = 3 \<and>
   mp_Create (snd (planned (sample_run 2))) = []"
proof -
  have "pv_Cells (sample_run 0) = []" by (simp add: sample_run_def)
  with pool_converges [OF sample_good_run, of 2] sample_good_run show ?thesis by simp
qed

end
