(* ===== verification/CrdCheck.thy ===== *)
theory CrdCheck
  imports Prelude
begin

text \<open>
  The CRD preflight, \<^verbatim>\<open>internal/crdcheck/crdcheck.go\<close>: which property paths of the schemas this binary
  embeds does the cluster not serve. A schema is its properties and the schema of its items; the
  embedded file system, the YAML decoder and the API server are arguments. A nil pointer that Go would dereference is a
  panic, the value \<open>None\<close>.
\<close>

datatype schema = Schema (sch_Properties: "(string \<times> schema) list") (sch_Items: "schema option")

text \<open>
  A version's schema: none, one whose \<^verbatim>\<open>OpenAPIV3Schema\<close> is nil, or one that is there. An \<^verbatim>\<open>Items\<close>
  without \<^verbatim>\<open>Schema\<close> counts as no items, as in both tests of the code.
\<close>

datatype version_schema = NoSchema | NilSchema | Given schema

record CRDVersion =
  cv_Name :: string
  cv_Schema :: version_schema

record CustomResourceDefinition =
  cd_Name :: string
  cd_Versions :: "CRDVersion list"

record crd_result =
  vr_Name :: string
  vr_File :: string
  vr_Missing :: "string list"
  vr_Checked :: bool
  vr_Err :: "go_error option"

section \<open>The comparison\<close>

lemma schema_size_property [termination_simp]:
  "(n, w) \<in> set ps \<Longrightarrow> size w < Suc (size_list (size_prod (\<lambda>_. 0) size) ps + b)"
  by (induction ps) auto

function walk :: "string \<Rightarrow> schema \<Rightarrow> schema \<Rightarrow> string list" where
  "walk pfx (Schema ps it) (Schema qs jt) =
     concat (map (\<lambda>(name, w).
       case map_of qs name of
         None \<Rightarrow> [pfx @ ''.'' @ name]
       | Some g \<Rightarrow> walk (pfx @ ''.'' @ name) w g) ps) @
     (case it of
        None \<Rightarrow> []
      | Some w \<Rightarrow> (case jt of None \<Rightarrow> [] | Some g \<Rightarrow> walk (pfx @ ''[]'') w g))"
  by pat_completeness auto

termination
proof (relation "measure (\<lambda>(p, w, g). size w)", goal_cases)
  case (2 pfx ps it qs jt x name w g)
  then show ?case by (auto simp: schema_size_property)
qed auto

declare walk.simps [simp del]

definition walk_nil :: "schema \<Rightarrow> string list option" where
  \<comment> \<open>\<open>walk\<close> with a nil schema on the served side: the first look at it panics\<close>
  "walk_nil want = (if sch_Properties want = [] \<and> sch_Items want = None then Some [] else None)"

definition served :: "CustomResourceDefinition \<Rightarrow> (string \<times> schema option) list" where
  \<comment> \<open>the schema pointer by version name, a later version of a name winning\<close>
  "served got = foldl (\<lambda>m v. case cv_Schema v of
       NoSchema \<Rightarrow> m
     | NilSchema \<Rightarrow> AList.update (cv_Name v) None m
     | Given s \<Rightarrow> AList.update (cv_Name v) (Some s) m) [] (cd_Versions got)"

definition version_missing :: "(string \<times> schema option) list \<Rightarrow> CRDVersion \<Rightarrow> string list option" where
  "version_missing sv v =
     (case cv_Schema v of
        Given want \<Rightarrow>
          (case map_of sv (cv_Name v) of
             None \<Rightarrow> Some [cv_Name v @ '' (version not served)'']
           | Some None \<Rightarrow> walk_nil want
           | Some (Some got) \<Rightarrow> Some (walk (cv_Name v) want got))
      | _ \<Rightarrow> Some [])"

definition missingPaths :: "CustomResourceDefinition \<Rightarrow> CustomResourceDefinition \<Rightarrow> string list option" where
  "missingPaths want got =
     (let found = map (version_missing (served got)) (cd_Versions want)
      in if None \<in> set found then None else Some (sort (concat (map the found))))"

definition verify_one :: "(string \<Rightarrow> CustomResourceDefinition result) \<Rightarrow> string \<Rightarrow> CustomResourceDefinition \<Rightarrow> crd_result option" where
  "verify_one get file want =
     (let res = \<lparr>vr_Name = cd_Name want, vr_File = file, vr_Missing = [], vr_Checked = False, vr_Err = None\<rparr> in
      case get (cd_Name want) of
        Inl e \<Rightarrow> Some (res\<lparr>vr_Err := Some (if IsNotFound e then Errorf ''not installed'' else e)\<rparr>)
      | Inr got \<Rightarrow> map_option (\<lambda>m. res\<lparr>vr_Checked := True, vr_Missing := m\<rparr>) (missingPaths want got))"

record CrdFS =
  fs_ReadDir :: "string \<Rightarrow> string list result"
  fs_ReadFile :: "string \<Rightarrow> string result"

definition load :: "CrdFS \<Rightarrow> (string \<Rightarrow> CustomResourceDefinition result) \<Rightarrow> string \<Rightarrow> CustomResourceDefinition result" where
  "load crdFS Unmarshal name =
     (case fs_ReadFile crdFS name of
        Inl e \<Rightarrow> Inl (Wrapped (''reading '' @ name) e)
      | Inr raw \<Rightarrow>
          (case Unmarshal raw of
             Inl e \<Rightarrow> Inl (Wrapped (''parsing '' @ name) e)
           | Inr crd \<Rightarrow> Inr crd))"

fun verify_entries ::
  "(string \<Rightarrow> CustomResourceDefinition result) \<Rightarrow> (string \<Rightarrow> CustomResourceDefinition result) \<Rightarrow> string list \<Rightarrow>
   crd_result list result option" where
  \<comment> \<open>the entry of a directory has a plain name, which \<^verbatim>\<open>path.Join\<close> puts behind a slash\<close>
  "verify_entries ld get [] = Some (Inr [])"
| "verify_entries ld get (file # files) =
     (case ld (''crd/'' @ file) of
        Inl e \<Rightarrow> Some (Inl e)
      | Inr want \<Rightarrow>
          (case verify_one get file want of
             None \<Rightarrow> None
           | Some res \<Rightarrow> map_option (map_sum id ((#) res)) (verify_entries ld get files)))"

definition Verify ::
  "CrdFS \<Rightarrow> (string \<Rightarrow> CustomResourceDefinition result) \<Rightarrow> (string \<Rightarrow> CustomResourceDefinition result) \<Rightarrow>
   crd_result list result option" where
  "Verify crdFS Unmarshal get =
     (case fs_ReadDir crdFS ''crd'' of
        Inl e \<Rightarrow> Some (Inl (Wrapped ''reading embedded CRDs'' e))
      | Inr entries \<Rightarrow> verify_entries (load crdFS Unmarshal) get entries)"

definition FixCommand :: "string \<Rightarrow> string \<Rightarrow> string" where
  "FixCommand ver file =
     ''kubectl apply -f https://raw.githubusercontent.com/kubeswift-io/gpucellpool/'' @ ver @ ''/config/crd/bases/'' @ file"

section \<open>Paths\<close>

datatype step = Prop string | Elem

fun follow :: "schema \<Rightarrow> step list \<Rightarrow> schema option" where
  "follow s [] = Some s"
| "follow s (Prop n # path) = (case map_of (sch_Properties s) n of None \<Rightarrow> None | Some t \<Rightarrow> follow t path)"
| "follow s (Elem # path) = (case sch_Items s of None \<Rightarrow> None | Some t \<Rightarrow> follow t path)"

fun show_path :: "step list \<Rightarrow> string" where
  "show_path [] = []"
| "show_path (Prop n # path) = ''.'' @ n @ show_path path"
| "show_path (Elem # path) = ''[]'' @ show_path path"

primrec distinct_names :: "schema \<Rightarrow> bool" where
  \<comment> \<open>properties are a Go map: one entry per name, at every level\<close>
  "distinct_names (Schema ps it) \<longleftrightarrow> distinct (map fst ps) \<and> list_all snd (map (map_prod id distinct_names) ps) \<and>
     pred_option id (map_option distinct_names it)"

definition dropped :: "schema \<Rightarrow> schema \<Rightarrow> step list \<Rightarrow> string \<Rightarrow> bool" where
  \<comment> \<open>a property the first schema has where both schemas lead, and the second has not\<close>
  "dropped want got path n \<longleftrightarrow> (\<exists>w g. follow want path = Some w \<and> follow got path = Some g \<and>
     map_of (sch_Properties w) n \<noteq> None \<and> map_of (sch_Properties g) n = None)"

lemma dropped_Nil: "dropped want got [] n \<longleftrightarrow> map_of (sch_Properties want) n \<noteq> None \<and> map_of (sch_Properties got) n = None"
  by (simp add: dropped_def)

lemma dropped_Prop: "dropped want got (Prop m # path) n \<longleftrightarrow>
    (\<exists>w g. map_of (sch_Properties want) m = Some w \<and> map_of (sch_Properties got) m = Some g \<and> dropped w g path n)"
  by (auto simp: dropped_def split: option.splits)

lemma dropped_Elem: "dropped want got (Elem # path) n \<longleftrightarrow>
    (\<exists>w g. sch_Items want = Some w \<and> sch_Items got = Some g \<and> dropped w g path n)"
  by (auto simp: dropped_def split: option.splits)

lemma walk_sound:
  "distinct_names want \<Longrightarrow> x \<in> set (walk pfx want got) \<Longrightarrow> \<exists>path n. x = pfx @ show_path path @ ''.'' @ n \<and> dropped want got path n"
proof (induction pfx want got arbitrary: x rule: walk.induct)
  case (1 pfx ps it qs jt)
  consider (here) y where "y \<in> set ps" "x \<in> set (case map_of qs (fst y) of None \<Rightarrow> [pfx @ ''.'' @ fst y]
        | Some g \<Rightarrow> walk (pfx @ ''.'' @ fst y) (snd y) g)"
    | (items) w g where "it = Some w" "jt = Some g" "x \<in> set (walk (pfx @ ''[]'') w g)"
  proof -
    let ?f = "\<lambda>(name, w). case map_of qs name of None \<Rightarrow> [pfx @ ''.'' @ name] | Some g \<Rightarrow> walk (pfx @ ''.'' @ name) w g"
    have "(\<exists>y \<in> set ps. x \<in> set (?f y)) \<or>
        x \<in> set (case it of None \<Rightarrow> [] | Some w \<Rightarrow> (case jt of None \<Rightarrow> [] | Some g \<Rightarrow> walk (pfx @ ''[]'') w g))"
      using 1(4) unfolding walk.simps set_append Un_iff set_concat set_map by blast
    then show ?thesis
    proof
      assume "\<exists>y \<in> set ps. x \<in> set (?f y)"
      with that(1) show thesis by (auto simp: case_prod_beta)
    next
      assume "x \<in> set (case it of None \<Rightarrow> [] | Some w \<Rightarrow> (case jt of None \<Rightarrow> [] | Some g \<Rightarrow> walk (pfx @ ''[]'') w g))"
      with that(2) show thesis by (cases it; cases jt) auto
    qed
  qed
  then consider (absent) name w where "(name, w) \<in> set ps" "map_of qs name = None" "x = pfx @ ''.'' @ name"
    | (deeper) name w g where "(name, w) \<in> set ps" "map_of qs name = Some g" "x \<in> set (walk (pfx @ ''.'' @ name) w g)"
    | (items) w g where "it = Some w" "jt = Some g" "x \<in> set (walk (pfx @ ''[]'') w g)"
  proof cases
    case (here y)
    then show ?thesis using that(1,2) [of "fst y" "snd y"] by (cases "map_of qs (fst y)") auto
  qed (use that(3) in blast)
  then show ?case
  proof cases
    case absent
    moreover have "map_of ps name = Some w" using absent(1) 1(3) by simp
    ultimately have "x = pfx @ show_path [] @ ''.'' @ name \<and> dropped (Schema ps it) (Schema qs jt) [] name"
      by (simp add: dropped_Nil)
    then show ?thesis by blast
  next
    case deeper
    have w: "map_of ps name = Some w" "distinct_names w" using deeper(1) 1(3) by (auto simp: list_all_iff)
    obtain path n where "x = (pfx @ ''.'' @ name) @ show_path path @ ''.'' @ n" "dropped w g path n"
      using 1(1) [OF deeper(1) refl deeper(2) w(2) deeper(3)] by blast
    then have "x = pfx @ show_path (Prop name # path) @ ''.'' @ n \<and> dropped (Schema ps it) (Schema qs jt) (Prop name # path) n"
      using w(1) deeper(2) by (simp add: dropped_Prop)
    then show ?thesis by blast
  next
    case items
    have "distinct_names w" using 1(3) items(1) by simp
    then obtain path n where "x = (pfx @ ''[]'') @ show_path path @ ''.'' @ n" "dropped w g path n"
      using 1(2) [OF items(1,2) _ items(3)] by blast
    then have "x = pfx @ show_path (Elem # path) @ ''.'' @ n \<and> dropped (Schema ps it) (Schema qs jt) (Elem # path) n"
      using items(1,2) by (simp add: dropped_Elem)
    then show ?thesis by blast
  qed
qed

lemma walk_complete:
  "dropped want got path n \<Longrightarrow> pfx @ show_path path @ ''.'' @ n \<in> set (walk pfx want got)"
proof (induction path arbitrary: want got pfx)
  case Nil
  obtain ps it qs jt where s: "want = Schema ps it" "got = Schema qs jt" by (metis schema.exhaust)
  from Nil obtain w where "(n, w) \<in> set ps" "map_of qs n = None"
    by (auto simp: dropped_Nil s dest: map_of_SomeD)
  then show ?case by (force simp: s walk.simps)
next
  case (Cons st path)
  obtain ps it qs jt where s: "want = Schema ps it" "got = Schema qs jt" by (metis schema.exhaust)
  show ?case
  proof (cases st)
    case (Prop m)
    then obtain w g where wg: "map_of ps m = Some w" "map_of qs m = Some g" "dropped w g path n"
      using Cons.prems by (auto simp: dropped_Prop s)
    from Cons.IH [OF wg(3), of "pfx @ ''.'' @ m"] map_of_SomeD [OF wg(1)] wg(2) show ?thesis
      by (force simp: s walk.simps Prop)
  next
    case Elem
    then obtain w g where wg: "it = Some w" "jt = Some g" "dropped w g path n"
      using Cons.prems by (auto simp: dropped_Elem s)
    from Cons.IH [OF wg(3), of "pfx @ ''[]''"] wg(1,2) show ?thesis by (simp add: s walk.simps Elem)
  qed
qed

section \<open>Properties\<close>

text \<open>
  C39. The preflight names exactly the fields the cluster would drop first: a path is reported if
  and only if it is a property of the embedded schema whose parent both schemas have (through
  properties and array items) and that the served schema does not have.
\<close>

theorem walk_exact:
  assumes "distinct_names want"
  shows "set (walk pfx want got) = {pfx @ show_path path @ ''.'' @ n |path n. dropped want got path n}"
  using walk_sound [OF assms] walk_complete by fastforce

theorem walk_exact_witness:
  "set (walk ''v1'' (Schema [(''spec'', Schema [(''a'', Schema [] None)] None)] None) (Schema [(''spec'', Schema [] None)] None)) =
   {''v1'' @ show_path path @ ''.'' @ n |path n.
      dropped (Schema [(''spec'', Schema [(''a'', Schema [] None)] None)] None) (Schema [(''spec'', Schema [] None)] None) path n}"
  by (rule walk_exact) simp

text \<open>
  What the preflight misses: an array whose items the served schema does not describe is not reported,
  although every field of its elements is dropped; and a served version whose schema pointer is nil
  makes the comparison panic.
\<close>

theorem walk_misses_items:
  "walk ''v1'' (Schema [(''cells'', Schema [] (Some (Schema [(''hash'', Schema [] None)] None)))] None)
     (Schema [(''cells'', Schema [] None)] None) = [] \<and>
   missingPaths \<lparr>cd_Name = ''c'', cd_Versions = [\<lparr>cv_Name = ''v1'', cv_Schema = Given (Schema [(''spec'', Schema [] None)] None)\<rparr>]\<rparr>
     \<lparr>cd_Name = ''c'', cd_Versions = [\<lparr>cv_Name = ''v1'', cv_Schema = NilSchema\<rparr>]\<rparr> = None"
  by (simp add: walk.simps missingPaths_def version_missing_def served_def walk_nil_def)

end
