(* ===== verification/MetricsAuth.thy ===== *)
theory MetricsAuth
  imports Json
begin

text \<open>
  The metrics endpoint's authorizer, \<^verbatim>\<open>internal/metricsauth/filter.go\<close>: bearer token extraction, the
  allow cache and the two API reviews, which are arguments of \<open>check\<close>. The cache is an association
  list under \<^verbatim>\<open>mu\<close>, so its operations are atomic steps; \<open>auth_reach\<close> is the state after any sequence
  of requests, each with its own answers from the API server. HTTP plumbing and logging are left out:
  \<open>serve\<close> is the handler's outcome, a status code or the wrapped handler.
\<close>

definition cacheTTL :: duration where "cacheTTL = 2 * Minute"

record entry =
  en_expires :: gotime
  en_user :: string

type_synonym allow_map = "(string \<times> entry) list"

datatype auth_error = Unauthenticated | Unauthorized

record UserInfo =
  ui_Username :: string
  ui_UID :: string
  ui_Groups :: "string list"

text \<open>A TokenReview that succeeds yields the user if it authenticates; a SubjectAccessReview its verdict.\<close>

record Reviews =
  rv_token :: "string \<Rightarrow> UserInfo option result"
  rv_access :: "UserInfo \<Rightarrow> string \<Rightarrow> bool result"

definition bearerToken :: "string \<Rightarrow> string" where
  "bearerToken h =
     (let pfx = ''bearer '' in
      if length h \<le> length pfx \<or> \<not> EqualFold (take (length pfx) h) pfx then []
      else TrimSpace (drop (length pfx) h))"

definition cacheKey :: "string \<Rightarrow> string \<Rightarrow> string" where
  "cacheKey token path = token @ [CHR 0x00] @ path"

definition cached :: "allow_map \<Rightarrow> gotime \<Rightarrow> string \<Rightarrow> string \<Rightarrow> string option" where
  "cached allow now token path =
     (case map_of allow (cacheKey token path) of
        None \<Rightarrow> None
      | Some e \<Rightarrow> if \<not> now < en_expires e then None else Some (en_user e))"

definition remember :: "allow_map \<Rightarrow> gotime \<Rightarrow> string \<Rightarrow> string \<Rightarrow> string \<Rightarrow> allow_map" where
  "remember allow now token path user =
     (let allow = (if 1024 < length allow then [] else allow)
      in AList.update (cacheKey token path) \<lparr>en_expires = now + cacheTTL, en_user = user\<rparr> allow)"

definition check :: "Reviews \<Rightarrow> gotime \<Rightarrow> string \<Rightarrow> string \<Rightarrow> allow_map \<Rightarrow> (auth_error + string) \<times> allow_map" where
  \<comment> \<open>\<open>h\<close> is the Authorization header, \<open>path\<close> the request's path\<close>
  "check rv now h path allow =
     (let token = bearerToken h in
      if token = [] then (Inl Unauthenticated, allow)
      else case cached allow now token path of
        Some user \<Rightarrow> (Inr user, allow)
      | None \<Rightarrow>
          (case rv_token rv token of
             Inl e \<Rightarrow> (Inl Unauthenticated, allow)
           | Inr None \<Rightarrow> (Inl Unauthenticated, allow)
           | Inr (Some u) \<Rightarrow>
               (case rv_access rv u path of
                  Inl e \<Rightarrow> (Inl Unauthorized, allow)
                | Inr ok \<Rightarrow>
                    if \<not> ok then (Inl Unauthorized, allow)
                    else (Inr (ui_Username u), remember allow now token path (ui_Username u)))))"

definition serve :: "Reviews \<Rightarrow> gotime \<Rightarrow> string \<Rightarrow> string \<Rightarrow> allow_map \<Rightarrow> (nat + string) \<times> allow_map" where
  \<comment> \<open>\<open>Inl\<close> is the status written without calling the handler\<close>
  "serve rv now h path allow =
     (case check rv now h path allow of
        (Inl Unauthenticated, allow') \<Rightarrow> (Inl 401, allow')
      | (Inl Unauthorized, allow') \<Rightarrow> (Inl 403, allow')
      | (Inr user, allow') \<Rightarrow> (Inr user, allow'))"

section \<open>Sequences of requests\<close>

text \<open>
  The states of the authorizer with the grants so far: a grant is the time, token, path and user of
  a request that was put to both reviews and that both allowed. Requests are taken one after another, and
  the reviews of a request take no time. \<^verbatim>\<open>net/http\<close> refuses a header value with a NUL byte.
\<close>

type_synonym grant = "gotime \<times> string \<times> string \<times> string"

definition reviewed :: "Reviews \<Rightarrow> string \<Rightarrow> string \<Rightarrow> UserInfo \<Rightarrow> bool" where
  "reviewed rv token path u \<longleftrightarrow> rv_token rv token = Inr (Some u) \<and> rv_access rv u path = Inr True"

inductive auth_reach :: "grant set \<Rightarrow> allow_map \<Rightarrow> bool" where
  init: "auth_reach {} []"
| request: "auth_reach grants allow \<Longrightarrow> CHR 0x00 \<notin> set h \<Longrightarrow>
    auth_reach
      (grants \<union> {(now, bearerToken h, path, ui_Username u) | u.
         cached allow now (bearerToken h) path = None \<and> reviewed rv (bearerToken h) path u})
      (snd (check rv now h path allow))"

definition auth_inv :: "grant set \<Rightarrow> allow_map \<Rightarrow> bool" where
  "auth_inv grants allow \<longleftrightarrow> length allow \<le> 1025 \<and>
     (\<forall>k e. map_of allow k = Some e \<longrightarrow>
        (\<exists>t token path. (t, token, path, en_user e) \<in> grants \<and> k = cacheKey token path \<and>
           en_expires e = t + cacheTTL))"

lemma length_update_le: "length (AList.update k v al) \<le> Suc (length al)"
  by (induction al) auto

lemma remember_bound: "length (remember allow now token path user) \<le> 1025"
  using length_update_le [of "cacheKey token path" _ allow]
  by (auto simp: remember_def Let_def intro: order_trans [OF length_update_le])

lemma check_state:
  "snd (check rv now h path allow) =
     (if bearerToken h = [] \<or> cached allow now (bearerToken h) path \<noteq> None then allow
      else case rv_token rv (bearerToken h) of
        Inr (Some u) \<Rightarrow> (if rv_access rv u path = Inr True
                         then remember allow now (bearerToken h) path (ui_Username u) else allow)
      | _ \<Rightarrow> allow)"
  by (auto simp: check_def Let_def split: option.split sum.split)

lemma auth_inv_mono: "auth_inv grants allow \<Longrightarrow> grants \<subseteq> grants' \<Longrightarrow> auth_inv grants' allow"
  by (fastforce simp: auth_inv_def)

lemma auth_inv_remember:
  assumes "auth_inv grants allow" and "(now, token, path, user) \<in> grants"
  shows "auth_inv grants (remember allow now token path user)"
  using assms remember_bound [of allow now token path user]
  by (fastforce simp: auth_inv_def remember_def update_conv Let_def split: if_splits)

lemma auth_reach_inv: "auth_reach grants allow \<Longrightarrow> auth_inv grants allow"
proof (induction rule: auth_reach.induct)
  case init
  then show ?case by (simp add: auth_inv_def)
next
  case (request grants allow h now path rv)
  let ?new = "\<lambda>u. cached allow now (bearerToken h) path = None \<and> reviewed rv (bearerToken h) path u"
  let ?g = "grants \<union> {(now, bearerToken h, path, ui_Username u) | u. ?new u}"
  have inv: "auth_inv ?g allow" using request.IH by (rule auth_inv_mono) simp
  show ?case
  proof (cases "\<exists>u. ?new u")
    case True
    then obtain u where "?new u" by blast
    then have "(now, bearerToken h, path, ui_Username u) \<in> ?g" "rv_token rv (bearerToken h) = Inr (Some u)"
      "rv_access rv u path = Inr True"
      by (auto simp: reviewed_def)
    then have "auth_inv ?g (remember allow now (bearerToken h) path (ui_Username u))"
      "snd (check rv now h path allow) \<in> {allow, remember allow now (bearerToken h) path (ui_Username u)}"
      using auth_inv_remember [OF inv] by (simp_all add: check_state)
    with inv show ?thesis by (elim insertE emptyE) (simp_all only:)
  next
    case False
    then have "snd (check rv now h path allow) = allow"
      by (auto simp: check_state reviewed_def split: sum.split option.split)
    with inv show ?thesis by simp
  qed
qed

lemma bearerToken_set: "set (bearerToken h) \<subseteq> set h"
  by (auto simp: bearerToken_def Let_def dest!: subsetD [OF TrimSpace_set] in_set_dropD)

lemma cacheKey_inj:
  assumes "cacheKey t p = cacheKey t' p'" and "CHR 0x00 \<notin> set t" and "CHR 0x00 \<notin> set t'"
  shows "t = t' \<and> p = p'"
  using assms by (auto simp: cacheKey_def append_eq_append_conv2 append_eq_Cons_conv Cons_eq_append_conv)

lemma grants_plain: "auth_reach grants allow \<Longrightarrow> (t, token, path, user) \<in> grants \<Longrightarrow> CHR 0x00 \<notin> set token"
  by (induction arbitrary: t token path user rule: auth_reach.induct)
    (auto dest: subsetD [OF bearerToken_set])

lemma check_refused:
  assumes "check rv now h path allow = (Inl e, allow')"
  shows "allow' = allow \<and>
    e = (if bearerToken h = [] \<or> \<not> (\<exists>u. rv_token rv (bearerToken h) = Inr (Some u))
         then Unauthenticated else Unauthorized)"
proof (cases "bearerToken h = []")
  case False
  then have "cached allow now (bearerToken h) path = None"
    using assms by (cases "cached allow now (bearerToken h) path") (simp_all add: check_def)
  with assms False show ?thesis
    by (auto simp: check_def Let_def split: sum.splits option.splits if_splits)
qed (use assms in \<open>simp add: check_def\<close>)

section \<open>Properties\<close>

text \<open>
  C33. Nobody reads metrics unreviewed: after any sequence of requests, a request is let through
  only if the API server authenticates its token and allows its user this path now, or was asked and did so
  for exactly this token and this path less than two minutes ago, and the user reported is that one.
\<close>

theorem metrics_access_reviewed:
  assumes "auth_reach grants allow" and "CHR 0x00 \<notin> set h"
    and "fst (serve rv now h path allow) = Inr user"
  shows "(\<exists>u. reviewed rv (bearerToken h) path u \<and> user = ui_Username u) \<or>
    (\<exists>t. (t, bearerToken h, path, user) \<in> grants \<and> now < t + cacheTTL)"
proof -
  have ok: "fst (check rv now h path allow) = Inr user"
    using assms(3) by (auto simp: serve_def split: prod.splits sum.splits auth_error.splits)
  show ?thesis
  proof (cases "cached allow now (bearerToken h) path")
    case None
    with ok show ?thesis
      by (auto simp: check_def reviewed_def Let_def split: if_splits sum.splits option.splits)
  next
    case (Some user')
    with ok have "user' = user" by (auto simp: check_def Let_def split: if_splits)
    with Some obtain e where e: "map_of allow (cacheKey (bearerToken h) path) = Some e"
      "now < en_expires e" "en_user e = user"
      by (auto simp: cached_def split: option.splits if_splits)
    then obtain t token' path' where g: "(t, token', path', user) \<in> grants"
      "cacheKey (bearerToken h) path = cacheKey token' path'" "en_expires e = t + cacheTTL"
      using auth_reach_inv [OF assms(1)] unfolding auth_inv_def by blast
    have "CHR 0x00 \<notin> set (bearerToken h)" using assms(2) bearerToken_set by auto
    then have "token' = bearerToken h \<and> path' = path"
      using cacheKey_inj [OF g(2)] grants_plain [OF assms(1) g(1)] by simp
    with g e show ?thesis by auto
  qed
qed

definition sample_reviews :: "bool \<Rightarrow> Reviews" where
  "sample_reviews ok = \<lparr>rv_token = (\<lambda>t. Inr (Some \<lparr>ui_Username = ''prom'', ui_UID = [], ui_Groups = []\<rparr>)),
     rv_access = (\<lambda>u p. Inr ok)\<rparr>"

lemma sample_token: "bearerToken ''Bearer abc'' = ''abc''"
  by code_simp

text \<open>A scrape that was allowed at second 5 is let through a minute later although the reviews would now refuse it.\<close>

definition sample_allow :: allow_map where
  "sample_allow = snd (check (sample_reviews True) (5 * Second) ''Bearer abc'' ''/metrics'' [])"

theorem metrics_access_reviewed_witness:
  "fst (serve (sample_reviews True) (5 * Second) ''Bearer abc'' ''/metrics'' []) = Inr ''prom'' \<and>
   (\<exists>u. reviewed (sample_reviews True) ''abc'' ''/metrics'' u) \<and>
   fst (serve (sample_reviews False) (65 * Second) ''Bearer abc'' ''/metrics'' sample_allow) = Inr ''prom'' \<and>
   fst (serve (sample_reviews False) (125 * Second) ''Bearer abc'' ''/metrics'' sample_allow) = Inl 403"
proof -
  let ?h = "''Bearer abc''" and ?p = "''/metrics''"
  have first: "fst (serve (sample_reviews True) (5 * Second) ?h ?p []) = Inr ''prom''"
    by (simp add: serve_def check_def sample_token cached_def sample_reviews_def)
  have later: "fst (serve (sample_reviews False) (65 * Second) ?h ?p sample_allow) = Inr ''prom''"
    "fst (serve (sample_reviews False) (125 * Second) ?h ?p sample_allow) = Inl 403"
    by code_simp+
  from metrics_access_reviewed [OF auth_reach.init, of ?h "sample_reviews True" "5 * Second" ?p "''prom''"] first later
  show ?thesis by (auto simp: sample_token)
qed

text \<open>
  A refusal leaves no trace and the cache is bounded: a request that is refused changes nothing,
  so a fixed permission works at once, it is 401 exactly when there is no token or the token is
  not authenticated and 403 otherwise, and no sequence of requests makes the cache hold more than
  1025 entries.
\<close>

theorem metrics_refusal_stateless:
  assumes "auth_reach grants allow"
  shows "length allow \<le> 1025 \<and>
    (\<forall>code allow'. serve rv now h path allow = (Inl code, allow') \<longrightarrow>
       allow' = allow \<and>
       code = (if bearerToken h = [] \<or> \<not> (\<exists>u. rv_token rv (bearerToken h) = Inr (Some u)) then 401 else 403))"
proof -
  have "length allow \<le> 1025" using auth_reach_inv [OF assms] by (simp add: auth_inv_def)
  moreover have "allow' = allow \<and>
      code = (if bearerToken h = [] \<or> \<not> (\<exists>u. rv_token rv (bearerToken h) = Inr (Some u)) then 401 else 403)"
    if s: "serve rv now h path allow = (Inl code, allow')" for code allow'
  proof -
    obtain e where e: "check rv now h path allow = (Inl e, allow')"
      and code: "code = (case e of Unauthenticated \<Rightarrow> 401 | Unauthorized \<Rightarrow> 403)"
      using s by (auto simp: serve_def split: prod.splits sum.splits auth_error.splits)
    show ?thesis using check_refused [OF e] code by simp
  qed
  ultimately show ?thesis by blast
qed

theorem metrics_refusal_stateless_witness:
  "serve (sample_reviews False) 5 ''Bearer abc'' ''/metrics'' [] = (Inl 403, [])"
proof -
  obtain code allow' where s: "serve (sample_reviews False) 5 ''Bearer abc'' ''/metrics'' [] = (Inl code, allow')"
    by (simp add: serve_def check_def sample_token cached_def sample_reviews_def)
  with metrics_refusal_stateless [OF auth_reach.init, of "sample_reviews False" 5 "''Bearer abc''" "''/metrics''"]
  show ?thesis by (auto simp: sample_token sample_reviews_def)
qed

end
