(* ===== verification/Manager.thy ===== *)
theory Manager
  imports CrdCheck MetricsAuth
begin

text \<open>
  The entry point, \<^verbatim>\<open>cmd/manager/main.go\<close>: what it asks of controller-runtime, in which order, what it
  logs, and how it ends. The answers of the libraries are arguments; the flags are those after
  \<^verbatim>\<open>flag.Parse\<close>. A log line is its error, its message and its key/value pairs.
\<close>

section \<open>Flags and options\<close>

record Flags =
  fl_metricsAddr :: string
  fl_probeAddr :: string
  fl_enableLeaderElection :: bool
  fl_secureMetrics :: bool
  fl_enableWebhooks :: bool

definition default_flags :: Flags where
  "default_flags = \<lparr>fl_metricsAddr = ''0'', fl_probeAddr = '':8081'', fl_enableLeaderElection = False,
     fl_secureMetrics = True, fl_enableWebhooks = True\<rparr>"

datatype tls_version = VersionTLS12

record MetricsOptions =
  ms_BindAddress :: string
  ms_SecureServing :: bool
  ms_MinVersion :: tls_version
  ms_FilterProvider :: bool

record ManagerOptions =
  mo_Metrics :: MetricsOptions
  mo_HealthProbeBindAddress :: string
  mo_LeaderElection :: bool
  mo_LeaderElectionID :: string

datatype log_line =
    LogInfo string "(string \<times> string list) list"
  | LogError go_error string "(string \<times> string list) list"

definition insecure_notice :: "string \<Rightarrow> log_line" where
  "insecure_notice addr = LogInfo
     (''metrics are served WITHOUT authentication because --metrics-secure=false; '' @
      ''anything able to reach this port can read the series'') [(''bindAddress'', [addr])]"

definition metricsOptions :: "string \<Rightarrow> bool \<Rightarrow> MetricsOptions \<times> log_line list" where
  "metricsOptions addr secure =
     (let o0 = \<lparr>ms_BindAddress = addr, ms_SecureServing = secure, ms_MinVersion = VersionTLS12, ms_FilterProvider = False\<rparr> in
      if secure then (o0\<lparr>ms_FilterProvider := True\<rparr>, [])
      else if addr \<noteq> ''0'' \<and> addr \<noteq> [] then (o0, [insecure_notice addr])
      else (o0, []))"

definition NewFilterProvider :: "unit result \<Rightarrow> allow_map result" where
  \<comment> \<open>given whether the clientset can be built: an Authorizer that remembers nobody\<close>
  "NewFilterProvider newForConfig = map_sum id (\<lambda>_. []) newForConfig"

section \<open>The CRD report\<close>

definition report_result :: "string \<Rightarrow> crd_result \<Rightarrow> log_line option" where
  \<comment> \<open>\<open>None\<close>: the nil error of an unchecked result would be dereferenced\<close>
  "report_result ver r =
     (if \<not> vr_Checked r then
        map_option (\<lambda>e. LogInfo (''CRD schema NOT compared '' @ em_dash @ '' a stale schema would go unnoticed'')
          [(''crd'', [vr_Name r]), (''reason'', [error_text e]),
           (''needs'', [''apiextensions.k8s.io/customresourcedefinitions: get''])]) (vr_Err r)
      else if 0 < length (vr_Missing r) then
        Some (LogError (Errorf (FormatInt (int (length (vr_Missing r))) @ '' field(s) dropped by a stale CRD''))
          (''the cluster is serving an OLDER CRD than this operator was built against; '' @
           ''the apiserver will SILENTLY DROP the fields below, so features that depend on them '' @
           ''will appear to be accepted and then do nothing. helm upgrade does not update CRDs '' @ em_dash @
           '' apply it yourself'')
          [(''crd'', [vr_Name r]), (''missingFields'', vr_Missing r), (''fix'', [FixCommand ver (vr_File r)])])
      else Some (LogInfo ''CRD schema matches this build'' [(''crd'', [vr_Name r])]))"

fun report_results :: "string \<Rightarrow> crd_result list \<Rightarrow> log_line list option" where
  "report_results ver [] = Some []"
| "report_results ver (r # rs) =
     (case report_result ver r of
        None \<Rightarrow> None
      | Some l \<Rightarrow> map_option ((#) l) (report_results ver rs))"

record StartEnv =
  up_config :: "unit result"
  up_newManager :: "ManagerOptions \<Rightarrow> unit result"
  up_controller :: "unit result"
  up_webhook :: "unit result"
  up_check :: "string \<Rightarrow> unit result"
  up_apiextensions :: "unit result"
  up_crdFS :: CrdFS
  up_unmarshal :: "string \<Rightarrow> CustomResourceDefinition result"
  up_getCRD :: "string \<Rightarrow> CustomResourceDefinition result"
  up_version :: string
  up_start :: "unit result"

definition reportCRDDrift :: "StartEnv \<Rightarrow> (log_line list \<times> unit result) option" where
  "reportCRDDrift env =
     (case up_apiextensions env of
        Inl e \<Rightarrow> Some ([], Inl e)
      | Inr _ \<Rightarrow>
          (case Verify (up_crdFS env) (up_unmarshal env) (up_getCRD env) of
             None \<Rightarrow> None
           | Some (Inl e) \<Rightarrow> Some ([], Inl e)
           | Some (Inr results) \<Rightarrow> map_option (\<lambda>ls. (ls, Inr ())) (report_results (up_version env) results)))"

section \<open>Startup\<close>

datatype start_step =
    GetConfigOrDie
  | NewManager ManagerOptions
  | SetupController
  | SetupWebhook
  | AddHealthzCheck string
  | AddReadyzCheck string
  | CRDReport
  | StartManager
  | Logged log_line

datatype ending = Exited nat | Returned | Panicked

type_synonym startup = "start_step list \<times> ending"

definition after :: "start_step list \<Rightarrow> startup \<Rightarrow> startup" where
  "after steps k = map_prod ((@) steps) id k"

definition must :: "start_step \<Rightarrow> unit result \<Rightarrow> string \<Rightarrow> startup \<Rightarrow> startup" where
  \<comment> \<open>a call whose error is logged and ends the process with code 1\<close>
  "must step r msg k =
     (case r of
        Inl e \<Rightarrow> ([step, Logged (LogError e msg [])], Exited 1)
      | Inr _ \<Rightarrow> after [step] k)"

definition manager_options :: "Flags \<Rightarrow> ManagerOptions" where
  "manager_options f =
     \<lparr>mo_Metrics = fst (metricsOptions (fl_metricsAddr f) (fl_secureMetrics f)),
      mo_HealthProbeBindAddress = fl_probeAddr f, mo_LeaderElection = fl_enableLeaderElection f,
      mo_LeaderElectionID = ''gpucellpool.cells.kubeswift.io''\<rparr>"

definition start_manager :: "StartEnv \<Rightarrow> startup" where
  "start_manager env = after [Logged (LogInfo ''starting manager'' [])]
     (must StartManager (up_start env) ''problem running manager'' ([], Returned))"

definition report_then_start :: "StartEnv \<Rightarrow> startup" where
  "report_then_start env =
     (case reportCRDDrift env of
        None \<Rightarrow> ([CRDReport], Panicked)
      | Some (ls, r) \<Rightarrow> after (CRDReport # map Logged ls)
          (after (case r of
                    Inl e \<Rightarrow> [Logged (LogInfo ''could not compare the served CRD schema'' [(''error'', [error_text e])])]
                  | Inr _ \<Rightarrow> []) (start_manager env)))"

definition manager_main :: "StartEnv \<Rightarrow> Flags \<Rightarrow> startup" where
  "manager_main env f =
     (case up_config env of
        Inl e \<Rightarrow> ([GetConfigOrDie, Logged (LogError e ''unable to get kubeconfig'' [])], Exited 1)
      | Inr _ \<Rightarrow>
     after (GetConfigOrDie # map Logged (snd (metricsOptions (fl_metricsAddr f) (fl_secureMetrics f))))
    (must (NewManager (manager_options f)) (up_newManager env (manager_options f)) ''unable to create manager''
    (must SetupController (up_controller env) ''unable to set up the GPUCellPool controller''
    ((if fl_enableWebhooks f then must SetupWebhook (up_webhook env) ''unable to set up the GPUCellPool webhook'' else id)
    (must (AddHealthzCheck ''healthz'') (up_check env ''healthz'') ''unable to set up health check''
    (must (AddReadyzCheck ''readyz'') (up_check env ''readyz'') ''unable to set up ready check''
    (report_then_start env)))))))"

section \<open>What a start says\<close>

lemma must_simps [simp]:
  "must step (Inr u) msg k = after [step] k" "must step (Inl e) msg k = ([step, Logged (LogError e msg [])], Exited 1)"
  by (simp_all add: must_def)

lemma after_simps [simp]: "fst (after steps k) = steps @ fst k" "snd (after steps k) = snd k"
  by (simp_all add: after_def)

lemma after_after [simp]: "after steps (after steps' k) = after (steps @ steps') k"
  by (cases k) (simp add: after_def)

lemma verify_entries_unchecked:
  "verify_entries ld get files = Some (Inr results) \<Longrightarrow> r \<in> set results \<Longrightarrow> \<not> vr_Checked r \<Longrightarrow> vr_Err r \<noteq> None"
proof (induction files arbitrary: results)
  case (Cons name files)
  then obtain want res rest where res: "verify_one get name want = Some res" "verify_entries ld get files = Some (Inr rest)" "results = res # rest"
    by (auto simp: map_sum_id_Inr_iff split: option.splits sum.splits)
  moreover have "\<not> vr_Checked res \<Longrightarrow> vr_Err res \<noteq> None"
    using res(1) by (auto simp: verify_one_def Let_def split: sum.splits)
  ultimately show ?case using Cons by auto
qed simp

lemma Verify_unchecked:
  "Verify fs um get = Some (Inr results) \<Longrightarrow> r \<in> set results \<Longrightarrow> \<not> vr_Checked r \<Longrightarrow> vr_Err r \<noteq> None"
  by (auto simp: Verify_def split: sum.splits dest: verify_entries_unchecked)

lemma report_results_all:
  assumes "\<And>r. r \<in> set rs \<Longrightarrow> \<not> vr_Checked r \<Longrightarrow> vr_Err r \<noteq> None"
  shows "\<exists>ls. report_results ver rs = Some ls \<and> map Some ls = map (report_result ver) rs"
  using assms
proof (induction rs)
  case (Cons r rs)
  then obtain ls where "report_results ver rs = Some ls" "map Some ls = map (report_result ver) rs" by auto
  moreover have "report_result ver r \<noteq> None"
    using Cons.prems [of r] by (auto simp: report_result_def)
  then obtain l where "report_result ver r = Some l" by blast
  ultimately show ?case by simp
qed simp

lemma start_manager_steps: "fst (start_manager env) = [Logged (LogInfo ''starting manager'' []), StartManager] @
    (case up_start env of Inl e \<Rightarrow> [Logged (LogError e ''problem running manager'' [])] | Inr _ \<Rightarrow> [])"
  by (simp add: start_manager_def split: sum.split)

definition report_lines :: "log_line list \<Rightarrow> unit result \<Rightarrow> log_line list" where
  "report_lines ls r = ls @ (case r of
     Inl e \<Rightarrow> [LogInfo ''could not compare the served CRD schema'' [(''error'', [error_text e])]] | Inr _ \<Rightarrow> [])"

lemma report_then_start_steps:
  "reportCRDDrift env = None \<Longrightarrow> report_then_start env = ([CRDReport], Panicked)"
  "reportCRDDrift env = Some (ls, r) \<Longrightarrow>
     report_then_start env = after (CRDReport # map Logged (report_lines ls r)) (start_manager env)"
  by (auto simp: report_then_start_def report_lines_def split: sum.split)

definition set_up :: "StartEnv \<Rightarrow> Flags \<Rightarrow> bool" where
  \<comment> \<open>every call before the CRD comparison succeeds\<close>
  "set_up env f \<longleftrightarrow> up_config env = Inr () \<and> up_newManager env (manager_options f) = Inr () \<and> up_controller env = Inr () \<and>
     (fl_enableWebhooks f \<longrightarrow> up_webhook env = Inr ()) \<and> up_check env ''healthz'' = Inr () \<and> up_check env ''readyz'' = Inr ()"

definition setup_steps :: "Flags \<Rightarrow> start_step list" where
  "setup_steps f = GetConfigOrDie # map Logged (snd (metricsOptions (fl_metricsAddr f) (fl_secureMetrics f))) @
     [NewManager (manager_options f), SetupController] @ (if fl_enableWebhooks f then [SetupWebhook] else []) @
     [AddHealthzCheck ''healthz'', AddReadyzCheck ''readyz'']"

lemma main_set_up: "set_up env f \<Longrightarrow> manager_main env f = after (setup_steps f) (report_then_start env)"
  by (cases "fl_enableWebhooks f") (simp_all add: set_up_def manager_main_def setup_steps_def)

lemma main_gives_up:
  assumes "\<not> set_up env f"
  shows "StartManager \<notin> set (fst (manager_main env f))" "snd (manager_main env f) = Exited 1"
  using assms unfolding set_up_def manager_main_def
  by (cases "up_config env"; cases "up_newManager env (manager_options f)"; cases "up_controller env"; cases "up_webhook env";
      cases "up_check env ''healthz''"; cases "up_check env ''readyz''"; cases "fl_enableWebhooks f"; auto)+

section \<open>Properties\<close>


definition sample_start :: StartEnv where
  "sample_start = \<lparr>up_config = Inr (), up_newManager = (\<lambda>_. Inr ()), up_controller = Inr (), up_webhook = Inr (),
     up_check = (\<lambda>_. Inr ()), up_apiextensions = Inr (),
     up_crdFS = \<lparr>fs_ReadDir = (\<lambda>_. Inr [''cells.yaml'']), fs_ReadFile = (\<lambda>_. Inr [])\<rparr>,
     up_unmarshal = (\<lambda>_. Inr \<lparr>cd_Name = ''cells'', cd_Versions =
        [\<lparr>cv_Name = ''v1'', cv_Schema = Given (Schema [(''spec'', Schema [] None)] None)\<rparr>]\<rparr>),
     up_getCRD = (\<lambda>_. Inr \<lparr>cd_Name = ''cells'', cd_Versions = [\<lparr>cv_Name = ''v1'', cv_Schema = Given (Schema [] None)\<rparr>]\<rparr>),
     up_version = ''main'', up_start = Inr ()\<rparr>"

definition insecure_flags :: Flags where
  "insecure_flags = default_flags\<lparr>fl_metricsAddr := '':8080'', fl_secureMetrics := False\<rparr>"


text \<open>
  A stale CRD is reported and never fatal: where every other call succeeds the manager is started
  whatever the comparison found, unless the comparison itself panics; each compared CRD has its own
  line before the start, and one with missing fields has an error that lists them all with the
  command for its own file.
\<close>

theorem drift_reported_not_fatal:
  assumes "set_up env f" and "up_apiextensions env = Inr ()"
    and "Verify (up_crdFS env) (up_unmarshal env) (up_getCRD env) = Some (Inr results)"
  shows "snd (manager_main env f) = (if up_start env = Inr () then Returned else Exited 1) \<and>
    (\<exists>ls pre post. fst (manager_main env f) = pre @ map Logged ls @ Logged (LogInfo ''starting manager'' []) # StartManager # post \<and>
       map Some ls = map (report_result (up_version env)) results)"
proof -
  obtain ls where ls: "report_results (up_version env) results = Some ls" "map Some ls = map (report_result (up_version env)) results"
    using report_results_all Verify_unchecked [OF assms(3)] by metis
  have "reportCRDDrift env = Some (ls, Inr ())"
    using assms(2,3) ls(1) by (simp add: reportCRDDrift_def)
  then have main: "manager_main env f = after (setup_steps f) (after (CRDReport # map Logged ls) (start_manager env))"
    by (simp add: main_set_up [OF assms(1)] report_then_start_steps(2) report_lines_def)
  have "snd (manager_main env f) = (if up_start env = Inr () then Returned else Exited 1)"
    by (cases "up_start env") (simp_all add: main start_manager_def)
  moreover have "fst (manager_main env f) =
      (setup_steps f @ [CRDReport]) @ map Logged ls @ Logged (LogInfo ''starting manager'' []) # StartManager #
      (case up_start env of Inl e \<Rightarrow> [Logged (LogError e ''problem running manager'' [])] | Inr _ \<Rightarrow> [])"
    by (simp add: main start_manager_steps)
  ultimately show ?thesis using ls(2) by blast
qed

end
