(* ===== verification/FakeProvider.thy ===== *)
theory FakeProvider
  imports CapacityContract
begin

text \<open>
  The scripted provider of \<^verbatim>\<open>internal/capacity/fake.go\<close>, which the controller's own tests run against:
  its answers, the calls it records, and when it keeps the contract of \<open>CapacityContract\<close>. A call
  returns Go's pair of a value and an error.
\<close>

record FakeProvider =
  fk_ProviderName :: string
  fk_HealthResult :: Health
  fk_HealthErr :: "go_error option"
  fk_DevicesByNode :: "(string \<times> goint) list"
  fk_DevicesErr :: "go_error option"
  fk_CapacityResult :: Capacity
  fk_CapacityErr :: "go_error option"
  fk_AllocationsByNode :: "(string \<times> Allocations) list"
  fk_AllocationsErr :: "go_error option"
  fk_DemandResult :: Demand
  fk_DemandErr :: "go_error option"
  fk_Calls :: "string list"

definition NewFakeProvider :: FakeProvider where
  "NewFakeProvider = \<lparr>fk_ProviderName = ''Fake'',
     fk_HealthResult = \<lparr>he_Ready = True, he_Reason = ''FakeDetected'', he_Message = []\<rparr>, fk_HealthErr = None,
     fk_DevicesByNode = [], fk_DevicesErr = None, fk_CapacityResult = zero_Capacity, fk_CapacityErr = None,
     fk_AllocationsByNode = [], fk_AllocationsErr = None, fk_DemandResult = zero_Demand, fk_DemandErr = None,
     fk_Calls = []\<rparr>"

definition fk_record :: "string \<Rightarrow> FakeProvider \<Rightarrow> FakeProvider" where
  "fk_record name f = f\<lparr>fk_Calls := fk_Calls f @ [name]\<rparr>"

definition fk_Name :: "FakeProvider \<Rightarrow> string" where
  "fk_Name f = (if fk_ProviderName f = [] then ''Fake'' else fk_ProviderName f)"

type_synonym 'a answer = "('a \<times> go_error option) \<times> FakeProvider"

definition fk_Health :: "string list \<Rightarrow> FakeProvider \<Rightarrow> Health answer" where
  "fk_Health nodes f = (let f = fk_record ''Health'' f in ((fk_HealthResult f, fk_HealthErr f), f))"

definition fk_Devices :: "string \<Rightarrow> FakeProvider \<Rightarrow> goint answer" where
  "fk_Devices node f =
     (let f = fk_record ''Devices'' f in
      if fk_DevicesErr f \<noteq> None then ((0, fk_DevicesErr f), f)
      else ((case map_of (fk_DevicesByNode f) node of None \<Rightarrow> 0 | Some n \<Rightarrow> n, None), f))"

definition fk_Capacity :: "string list \<Rightarrow> FakeProvider \<Rightarrow> Capacity answer" where
  "fk_Capacity nodes f = (let f = fk_record ''Capacity'' f in ((fk_CapacityResult f, fk_CapacityErr f), f))"

definition fk_Allocations :: "string \<Rightarrow> FakeProvider \<Rightarrow> Allocations answer" where
  "fk_Allocations node f =
     (let f = fk_record ''Allocations'' f in
      if fk_AllocationsErr f \<noteq> None then ((zero_Allocations, fk_AllocationsErr f), f)
      else ((case map_of (fk_AllocationsByNode f) node of None \<Rightarrow> zero_Allocations | Some a \<Rightarrow> a, None), f))"

definition fk_PendingDemand :: "Device option \<Rightarrow> FakeProvider \<Rightarrow> Demand answer" where
  "fk_PendingDemand ref f = (let f = fk_record ''PendingDemand'' f in ((fk_DemandResult f, fk_DemandErr f), f))"

section \<open>Sequences of calls\<close>

datatype fake_call = CallHealth "string list" | CallDevices string | CallCapacity "string list" | CallAllocations string
  | CallPendingDemand "Device option"

fun fake_name :: "fake_call \<Rightarrow> string" where
  "fake_name (CallHealth nodes) = ''Health''"
| "fake_name (CallDevices node) = ''Devices''"
| "fake_name (CallCapacity nodes) = ''Capacity''"
| "fake_name (CallAllocations node) = ''Allocations''"
| "fake_name (CallPendingDemand ref) = ''PendingDemand''"

fun fake_step :: "fake_call \<Rightarrow> FakeProvider \<Rightarrow> FakeProvider" where
  "fake_step (CallHealth nodes) f = snd (fk_Health nodes f)"
| "fake_step (CallDevices node) f = snd (fk_Devices node f)"
| "fake_step (CallCapacity nodes) f = snd (fk_Capacity nodes f)"
| "fake_step (CallAllocations node) f = snd (fk_Allocations node f)"
| "fake_step (CallPendingDemand ref) f = snd (fk_PendingDemand ref f)"

definition answered :: "'a answer \<Rightarrow> 'a result" where
  \<comment> \<open>how every caller reads the pair\<close>
  "answered r = (case snd (fst r) of None \<Rightarrow> Inr (fst (fst r)) | Some e \<Rightarrow> Inl e)"

lemmas fake_defs = fk_Health_def fk_Devices_def fk_Capacity_def fk_Allocations_def fk_PendingDemand_def fk_record_def Let_def

lemma fake_step_records: "fake_step c f = fk_record (fake_name c) f"
  by (cases c) (simp_all add: fake_defs)

text \<open>Any calls are recorded by name, in order, and change nothing else: what a test scripts stays scripted.\<close>

lemma fake_records_calls: "fold fake_step cs f = f\<lparr>fk_Calls := fk_Calls f @ map fake_name cs\<rparr>"
  by (induction cs arbitrary: f) (simp_all add: fake_step_records fk_record_def)

section \<open>The contract\<close>

definition script_coherent :: "FakeProvider \<Rightarrow> bool" where
  "script_coherent f \<longleftrightarrow>
     (fk_CapacityErr f = None \<longrightarrow>
        (let c = fk_CapacityResult f in
         (cy_Homogeneous c \<longleftrightarrow> length (cy_ByModel c) \<le> 1) \<and> distinct (map mo_Model (cy_ByModel c)) \<and>
         (\<forall>m \<in> set (cy_ByModel c). 0 < mo_Devices m) \<and> cy_Devices c = sum_list (map mo_Devices (cy_ByModel c)))) \<and>
     (fk_DemandErr f = None \<longrightarrow> dm_SatisfiableByOneCell (fk_DemandResult f) = 0 \<and> 0 \<le> dm_PendingRequests (fk_DemandResult f))"

abbreviation "fake_holder f n \<equiv>
  (case map_of (fk_AllocationsByNode f) n of None \<Rightarrow> False | Some a \<Rightarrow> \<not> Empty a)"

text \<open>
  A fake keeps the contract of a capacity provider exactly when its capacity is coherent and it
  scripts no satisfiable demand: \<^verbatim>\<open>PendingDemand\<close> ignores the reference device, and a provider must not
  report demand as satisfiable when that is unknown.
\<close>

theorem fake_contract_iff:
  "capacity_provider (\<lambda>n. answered (fk_Allocations n f)) (\<lambda>ns. answered (fk_Capacity ns f))
     (\<lambda>ref. answered (fk_PendingDemand ref f)) (fake_holder f) \<longleftrightarrow> script_coherent f"
proof -
  have "answered (fk_Allocations n f) = Inr a \<Longrightarrow> Empty a \<longleftrightarrow> \<not> fake_holder f n" for n a
    by (auto simp: answered_def fake_defs Empty_def zero_Allocations_def split: option.splits if_splits)
  then show ?thesis
    by (auto simp: capacity_provider_def script_coherent_def answered_def fk_Capacity_def fk_PendingDemand_def fk_record_def
        Let_def split: option.splits)
qed

text \<open>
  A fresh fake does not: it has no model and says it is not homogeneous, where the HAMi provider calls
  a pool with no device homogeneous.
\<close>

theorem fresh_fake_not_coherent: "\<not> script_coherent NewFakeProvider"
  by (simp add: script_coherent_def NewFakeProvider_def zero_Capacity_def)

end
