(* ===== verification/TeardownProgress.thy ===== *)
theory TeardownProgress
  imports Teardown
begin

text \<open>
  That the deletion of a pool gets on: what a deletion pass which meets no error has done. The
  complement of \<open>Teardown\<close>, which says what it may do at most.
\<close>

text \<open>Every operation leaves the calls made before it in the trace: the rule that allows everything.\<close>

interpretation free: open_rule "\<lambda>_ _. True" env q prov for env q prov
  by unfold_locales simp_all

lemma inv_of_free [simp]: "inv_of (\<lambda>_ _. True) X = X"
  by (simp add: inv_of_def obeys_def fun_eq_iff)

section \<open>One cell\<close>

definition gone_asked :: "CellRequest \<Rightarrow> event list \<Rightarrow> bool" where
  \<comment> \<open>the finalizer was cleared and then the provisioner's deletion succeeded\<close>
  "gone_asked req tr \<longleftrightarrow> (\<exists>done pre post. tr = pre @ EvDelete req (Inr done) # post \<and>
     EvClearDrainFinalizer req (Inr ()) \<in> set pre)"

lemma stable_gone_asked [intro]: "stable (\<lambda>tr. gone_asked req tr)"
  unfolding stable_def gone_asked_def by (metis append_assoc append_Cons)

lemma bracket_last:
  assumes "stable X" and "keeps X m"
  shows "trip X (bracket ask m ev) (\<lambda>r tr. \<exists>pre. tr = pre @ [ev r] \<and> X pre)"
  unfolding bracket_def
proof (rule trip_bind [where R = "\<lambda>_. X"], goal_cases)
  case 1
  show ?case using assms(1) by (intro trip_emit) (simp add: stable_def)
next
  case (2 u)
  have "trip X (State_Monad.bind (emit (ev r)) (\<lambda>_. ret r)) (\<lambda>r tr. \<exists>pre. tr = pre @ [ev r] \<and> X pre)" for r
    by (rule trip_bind [where R = "\<lambda>_ tr. \<exists>pre. tr = pre @ [ev r] \<and> X pre"]) (auto intro: trip_emit trip_ret)
  then show ?case by (rule trip_bind [OF assms(2) [unfolded keeps_def]])
qed

lemma deleteCell_done:
  "trip P (deleteCell env p prov cell reap) (\<lambda>r tr. r = Inr () \<longrightarrow> gone_asked (cellRequest env p (cs_Index cell)) tr)"
proof -
  let ?req = "cellRequest env p (cs_Index cell)"
  have keep: "trip (\<lambda>tr. EvClearDrainFinalizer ?req (Inr ()) \<in> set tr) (prov_Delete env prov ?req)
      (\<lambda>r tr. \<exists>pre. tr = pre @ [EvDelete ?req r] \<and> EvClearDrainFinalizer ?req (Inr ()) \<in> set pre)"
  proof -
    have "keeps (inv_of (\<lambda>_ _. True) (\<lambda>tr. EvClearDrainFinalizer ?req (Inr ()) \<in> set tr)) (by_name prov sg_Delete capi_Delete env ?req)"
      by (rule pv.delete_keeps [OF free.trace_rule_axioms]) auto
    then have "keeps (\<lambda>tr. EvClearDrainFinalizer ?req (Inr ()) \<in> set tr) (by_name prov sg_Delete capi_Delete env ?req)" by simp
    then show ?thesis unfolding prov_Delete_def by (intro bracket_last) auto
  qed
  have clear: "trip P (prov_ClearDrainFinalizer env prov ?req) (\<lambda>r tr. \<exists>pre. tr = pre @ [EvClearDrainFinalizer ?req r])" for P
    unfolding prov_ClearDrainFinalizer_def
    by (rule trip_weaken [OF bracket_last [where X = "\<lambda>_. True"]]) (auto simp: keeps_def trip_any)
  have del: "trip (\<lambda>tr. \<exists>pre. tr = pre @ [EvClearDrainFinalizer ?req (Inr u)])
      (attempt (prov_Delete env prov ?req) (\<lambda>_. ret (Inr ()))) (\<lambda>r tr. r = Inr () \<longrightarrow> gone_asked ?req tr)" for u
  proof (rule trip_attempt)
    show "trip (\<lambda>tr. \<exists>pre. tr = pre @ [EvClearDrainFinalizer ?req (Inr u)]) (prov_Delete env prov ?req)
        (\<lambda>r tr. \<exists>pre. tr = pre @ [EvDelete ?req r] \<and> EvClearDrainFinalizer ?req (Inr ()) \<in> set pre)"
      by (rule trip_weaken [OF keep]) auto
  qed (auto intro!: trip_ret simp: gone_asked_def)
  have tail: "trip P (attempt (prov_ClearDrainFinalizer env prov ?req) (\<lambda>_. attempt (prov_Delete env prov ?req) (\<lambda>_. ret (Inr ()))))
      (\<lambda>r tr. r = Inr () \<longrightarrow> gone_asked ?req tr)" for P
    by (rule trip_attempt [OF clear del]) simp
  show ?thesis
    unfolding deleteCell_def Let_def by (rule trip_attempt [OF trip_any tail]) simp
qed

lemma hurried_proceeds:
  "rough True force since now timeout \<Longrightarrow> dd_Proceed (AdvanceDrain a known True force since now timeout)"
  by (auto simp: AdvanceDrain_def rough_def Let_def)

lemma progressDrain_done:
  assumes "rough True (deletionPolicy p = DeletionPolicyForce) since (en_now env) (drainTimeout p)"
  shows "trip P (progressDrain env p prov inner cell True since)
    (\<lambda>r tr. (\<exists>c. r = Inr c) \<longrightarrow> gone_asked (cellRequest env p (cs_Index cell)) tr)"
proof -
  have "trip Q (attempt (deleteCell env p prov (cell\<lparr>cs_Reason := a, cs_Message := b\<rparr>) True) (\<lambda>_. ret (Inr c)))
      (\<lambda>r tr. (\<exists>c. r = Inr c) \<longrightarrow> gone_asked (cellRequest env p (cs_Index cell)) tr)" for Q a b c
    by (rule trip_attempt [OF deleteCell_done]) (auto intro!: trip_ret)
  then show ?thesis
    unfolding progressDrain_def Let_def
    by (intro trip_attempt [OF trip_any]) (auto simp: hurried_proceeds [OF assms])
qed

section \<open>All cells\<close>

lemma trip_each_from:
  \<comment> \<open>a loop that ends well has for every element what its round shows, if no round undoes another\<close>
  assumes work: "\<And>x. x \<in> set xs \<Longrightarrow> trip I (f x) (\<lambda>r tr. \<forall>y. r = Inr y \<longrightarrow> V x y tr)"
    and inv: "\<And>x. x \<in> set xs \<Longrightarrow> keeps I (f x)"
    and stays: "\<And>x y z. x \<in> set xs \<Longrightarrow> z \<in> set xs \<Longrightarrow> keeps (V x y) (f z)"
  shows "trip I (each f xs) (\<lambda>r tr. \<forall>ys. r = Inr ys \<longrightarrow> list_all2 (\<lambda>x y. V x y tr) xs ys)"
  using assms
proof (induction xs)
  case Nil
  show ?case by (auto intro: trip_ret)
next
  case (Cons x xs)
  have rest: "trip I (each f xs) (\<lambda>r tr. \<forall>ys. r = Inr ys \<longrightarrow> list_all2 (\<lambda>x y. V x y tr) xs ys)"
    using Cons by simp
  have keep: "trip (V x y) (each f xs) (\<lambda>_. V x y)" for y
    using Cons.prems(3) by (fold keeps_def) (intro keeps_each, simp)
  have first: "trip I (f x) (\<lambda>r tr. I tr \<and> (\<forall>y. r = Inr y \<longrightarrow> V x y tr))"
    using keeps_trip [OF Cons.prems(2) Cons.prems(1)] by simp
  have "trip (\<lambda>tr. I tr \<and> V x y tr) (attempt (each f xs) (\<lambda>ys. ret (Inr (y # ys))))
      (\<lambda>r tr. \<forall>ys. r = Inr ys \<longrightarrow> list_all2 (\<lambda>x y. V x y tr) (x # xs) ys)" for y
    by (rule trip_attempt [OF trip_conj [OF rest keep]]) (auto intro: trip_ret)
  then show ?case
    unfolding each.simps by (intro trip_attempt [OF first]) (auto elim: trip_weaken)
qed

lemma trip_each_results:
  assumes "\<And>x P. x \<in> set xs \<Longrightarrow> trip P (f x) (\<lambda>r tr. \<forall>y. r = Inr y \<longrightarrow> V x y tr)"
    and "\<And>x y z. x \<in> set xs \<Longrightarrow> z \<in> set xs \<Longrightarrow> keeps (V x y) (f z)"
  shows "trip P (each f xs) (\<lambda>r tr. \<forall>ys. r = Inr ys \<longrightarrow> list_all2 (\<lambda>x y. V x y tr) xs ys)"
proof -
  have "trip (\<lambda>_. True) (each f xs) (\<lambda>r tr. \<forall>ys. r = Inr ys \<longrightarrow> list_all2 (\<lambda>x y. V x y tr) xs ys)"
    by (rule trip_each_from) (use assms in \<open>auto simp: keeps_def trip_any\<close>)
  then show ?thesis by (rule trip_weaken) auto
qed

lemma trip_each_all:
  assumes "\<And>x P. x \<in> set xs \<Longrightarrow> trip P (f x) (\<lambda>r tr. (\<exists>y. r = Inr y) \<longrightarrow> W x tr)"
    and "\<And>x y. x \<in> set xs \<Longrightarrow> y \<in> set xs \<Longrightarrow> keeps (W x) (f y)"
  shows "trip P (each f xs) (\<lambda>r tr. (\<exists>ys. r = Inr ys) \<longrightarrow> (\<forall>x \<in> set xs. W x tr))"
proof -
  have "trip P (each f xs) (\<lambda>r tr. \<forall>ys. r = Inr ys \<longrightarrow> list_all2 (\<lambda>x y. W x tr) xs ys)"
    by (rule trip_each_results) (use assms in auto)
  then show ?thesis by (rule trip_weaken) (auto simp: list_all2_conv_all_nth in_set_conv_nth)
qed

definition cell_done :: "Env \<Rightarrow> GPUCellPool \<Rightarrow> string \<Rightarrow> event list \<Rightarrow> bool" where
  "cell_done env q name tr \<longleftrightarrow> (\<forall>idx. ParseIndex (po_Name q) name = Inr idx \<longrightarrow>
     gone_asked (cellRequest env q (cs_Index (drain_row q (en_now env) name idx))) tr)"

lemma stable_cell_done [intro]: "stable (\<lambda>tr. cell_done env q name tr)"
  using stable_gone_asked unfolding stable_def cell_done_def by metis

lemma keeps_writeDrainStatus: "stable X \<Longrightarrow> keeps X (writeDrainStatus env q cells)"
  unfolding writeDrainStatus_def Let_def by (intro keeps_rules keeps_call) (simp add: stable_def)

lemmas keeps_stable = keeps_writeDrainStatus free.keeps_open_progressDrain [OF _ same_pool_refl, unfolded inv_of_free]

lemma drain_all_done:
  assumes "hurried env q"
  shows "trip P (each (\<lambda>name. case ParseIndex (po_Name q) name of
       Inl e \<Rightarrow> ret (Inr [])
     | Inr idx \<Rightarrow> attempt (progressDrain env q prov inner (drain_row q (en_now env) name idx) True
         (transitionOr (po_DeletionTimestamp q) (en_now env))) (\<lambda>row. ret (Inr [row]))) guests)
    (\<lambda>r tr. (\<exists>rs. r = Inr rs) \<longrightarrow> (\<forall>name \<in> set guests. cell_done env q name tr))"
proof (rule trip_each_all, goal_cases)
  case (1 name P)
  show ?case
  proof (cases "ParseIndex (po_Name q) name")
    case (Inl e)
    then show ?thesis by (auto intro: trip_ret simp: cell_done_def)
  next
    case (Inr idx)
    then show ?thesis
      by (simp add: cell_done_def) (rule trip_attempt [OF progressDrain_done [OF assms]], auto intro!: trip_ret)
  qed
next
  case (2 name other)
  show ?case by (intro keeps_rules keeps_stable stable_cell_done)
qed

lemma prov_List_done: "trip P (prov_List env prov q) (\<lambda>r tr. EvList (po_Name q) r \<in> set tr)"
proof -
  have "trip Q (State_Monad.bind (emit (EvList (po_Name q) r)) (\<lambda>_. ret r)) (\<lambda>r tr. EvList (po_Name q) r \<in> set tr)" for Q r
    by (rule trip_bind [where R = "\<lambda>_ tr. EvList (po_Name q) r \<in> set tr"]) (auto intro: trip_emit trip_ret)
  then show ?thesis unfolding prov_List_def by (rule trip_bind [OF trip_any])
qed

lemma keeps_finish:
  assumes "stable X"
  shows "keeps X (attempt
      (if FinalizerPool \<in> set (po_Finalizers q)
       then (let p = q\<lparr>po_Finalizers := filter (\<lambda>f. f \<noteq> FinalizerPool) (po_Finalizers q)\<rparr>
             in wrapping ''removing pool finalizer'' (call (\<lambda>tr. en_UpdatePool env tr p) (EvUpdatePool p)))
       else ret (Inr q))
      (\<lambda>_. do { forget_client (clientKey q); emit (EvForgetPool (po_Namespace q) (po_Name q)); ret (Inr 0) }))"
  using assms by (intro keeps_rules keeps_call keeps_emit) (simp_all add: stable_def)

lemma reconcileDeletion_done:
  assumes "hurried env q"
  shows "trip P (reconcileDeletion env q prov) (\<lambda>r tr. (\<exists>d. r = Inr d) \<longrightarrow>
    (\<exists>guests. EvList (po_Name q) (Inr guests) \<in> set tr \<and> (\<forall>name \<in> set guests. cell_done env q name tr)))"
  unfolding reconcileDeletion_def
proof (rule trip_bind [OF trip_any], rule trip_attempt [OF prov_List_done], goal_cases)
  case (1 c guests)
  let ?listed = "\<lambda>tr. EvList (po_Name q) (Inr guests) \<in> set tr"
  let ?W = "\<lambda>tr. ?listed tr \<and> (\<forall>name \<in> set guests. cell_done env q name tr)"
  let ?since = "transitionOr (po_DeletionTimestamp q) (en_now env)"
  have W: "stable ?W" using stable_cell_done unfolding stable_def by auto
  have kept: "keeps ?listed (each (\<lambda>name. case ParseIndex (po_Name q) name of
       Inl e \<Rightarrow> ret (Inr [])
     | Inr idx \<Rightarrow> attempt (progressDrain env q prov (fst c) (drain_row q (en_now env) name idx) True ?since)
         (\<lambda>row. ret (Inr [row]))) guests)"
    by (intro keeps_rules keeps_stable) auto
  note drained = trip_conj [OF kept [unfolded keeps_def] drain_all_done [OF assms, of "\<lambda>_. True"], simplified]
  have status: "trip ?W (do { writeDrainStatus env q cells; ret (Inr requeueProgressing) }) (\<lambda>_. ?W)" for cells
    by (fold keeps_def) (intro keeps_rules keeps_stable W)
  show ?case
  proof (rule trip_if, goal_cases)
    case 1
    show ?case
      by (simp add: Let_def) (rule trip_attempt [OF drained], auto intro!: trip_weaken [OF status])
  next
    case 2
    then show ?case by (intro trip_weaken [OF keeps_finish [OF stable_mem, unfolded keeps_def]]) auto
  qed
qed simp

section \<open>Properties\<close>

text \<open>
  C16. A hurried deletion gets everything out of the way: a deletion pass of a pool that says Force, or
  whose drain window is over, and that ends without an error has listed the pool's cells and, for
  every one of them, cleared the drain finalizer and had the provisioner delete the cell, whatever
  their GPUs hold.
\<close>

theorem hurried_deletion_removes_all:
  assumes "deletion_pass env prov q" and "hurried env q"
    and "run_state (Reconcile env) \<lparr>wo_trace = [], wo_cache = cache\<rparr> = (Inr d, w)"
  shows "\<exists>guests. EvList (po_Name q) (Inr guests) \<in> set (wo_trace w) \<and>
    (\<forall>name idx. name \<in> set guests \<and> ParseIndex (po_Name q) name = Inr idx \<longrightarrow>
       gone_asked (cellRequest env q (cs_Index (drain_row q (en_now env) name idx))) (wo_trace w))"
proof -
  have "run_state (reconcileDeletion env q prov) \<lparr>wo_trace = [EvRead ''GetPool''], wo_cache = cache\<rparr> = (Inr d, w)"
    using assms(1,3) by (simp add: deletion_pass_def Reconcile_def call_def)
  from trip_run [OF reconcileDeletion_done [OF assms(2), of "\<lambda>_. True"] _ this] show ?thesis
    by (auto simp: cell_done_def)
qed

definition obliging_env :: Env where
  "obliging_env = sample_dying_env\<lparr>en_DeleteObject := (\<lambda>_ _ _ _. Inr ())\<rparr>"

lemma obliging_server:
  "en_GetPool obliging_env [] = Inr sample_dying" "en_GetSecret obliging_env = en_GetSecret sample_env"
  "en_ListObjects obliging_env tr gvk ns p = Inr [sample_guest]"
  "en_GetObject obliging_env tr SwiftGuestGVK ns n = Inr sample_guest"
  "en_UpdateObject obliging_env tr obj = Inr ()" "en_DeleteObject obliging_env tr gvk ns n = Inr ()"
  "en_now obliging_env = 3600 * Second"
  by (simp_all add: obliging_env_def sample_dying_env_def sample_env_def)

lemma obliging_drain:
  assumes "cs_Index cell = 0"
  shows "\<exists>c' evs. run_state (progressDrain obliging_env sample_dying ProvisionerSwiftGuest None cell True s) (wd tr c) =
      (Inr c', wd (tr @ evs) c)"
proof -
  obtain reason msg e1 where "run_state (workloadClient obliging_env sample_dying) (wd tr c) = ((None, reason, msg), wd (tr @ e1) c)"
    using sample_dying_client [OF obliging_server(2)] by blast
  then show ?thesis
    by (simp add: progressDrain_def AdvanceDrain_def deleteCell_def prov_ClearDrainFinalizer_def prov_Delete_def bracket_def by_name_def
        sg_ClearDrainFinalizer_def clear_finalizer_def sg_Delete_def remove_object_def delete_object_def update_object_def
        get_object_def withoutDrainFinalizer_def io_eval Let_def obliging_server(4-7) assms sample_dying_names)
qed

lemma obliging_pass:
  "\<exists>d w. run_state (Reconcile obliging_env) \<lparr>wo_trace = [], wo_cache = []\<rparr> = (Inr d, w)"
proof -
  have prov: "provisioner sample_dying = Inr ProvisionerSwiftGuest" "\<not> IsZero (po_DeletionTimestamp sample_dying)"
    using sample_deletion_pass(1) by (simp_all add: deletion_pass_def sample_dying_env_def)
  obtain reason msg e1 where e1: "run_state (workloadClient obliging_env sample_dying) (wd [EvRead ''GetPool''] []) =
      ((None, reason, msg), wd ([EvRead ''GetPool''] @ e1) [])"
    using sample_dying_client [OF obliging_server(2)] by blast
  let ?tr = "([EvRead ''GetPool''] @ e1) @ [EvListObjects SwiftGuestGVK ''ns'' (po_Name sample_dying) (Inr [sample_guest]),
    EvList (po_Name sample_dying) (Inr [''p-0''])]"
  obtain c' evs where "run_state (progressDrain obliging_env sample_dying ProvisionerSwiftGuest None
        (drain_row sample_dying (3600 * Second) ''p-0'' 0) True (transitionOr (po_DeletionTimestamp sample_dying) (3600 * Second))) (wd ?tr []) =
      (Inr c', wd (?tr @ evs) [])"
    using obliging_drain [OF sample_dying_names(2)] by blast
  then show ?thesis
    by (simp add: Reconcile_def obliging_server prov reconcileDeletion_def e1 prov_List_def by_name_def sg_List_def
        listCellNames_def io_eval Let_def sample_dying_names writeDrainStatus_def)
qed

theorem hurried_deletion_removes_all_witness:
  "\<exists>d w guests. run_state (Reconcile obliging_env) \<lparr>wo_trace = [], wo_cache = []\<rparr> = (Inr d, w) \<and>
     EvList ''p'' (Inr guests) \<in> set (wo_trace w)"
proof -
  obtain d w where w: "run_state (Reconcile obliging_env) \<lparr>wo_trace = [], wo_cache = []\<rparr> = (Inr d, w)"
    using obliging_pass by blast
  have pass: "deletion_pass obliging_env ProvisionerSwiftGuest sample_dying"
    using sample_deletion_pass(1) by (simp add: deletion_pass_def obliging_server sample_dying_env_def)
  have hurry: "hurried obliging_env sample_dying" by (simp add: rough_def sample_dying_names)
  have "po_Name sample_dying = ''p''" by code_simp
  with hurried_deletion_removes_all [OF pass hurry w] w show ?thesis by auto
qed

text \<open>
  Even under Force the cell's Node is cordoned first where the workload cluster answers, and an error
  of that call ends the pass: nothing is asked for this cell or any after it.
\<close>

theorem force_waits_for_cordon:
  assumes "run_state (Cordon env cs (cs_Name cell)) w = (Inl e, w')"
  shows "run_state (progressDrain env p prov (Some cs) cell True since) w = (Inl e, w')"
  using assms by (simp add: progressDrain_def attempt_def)

end
