(* ===== verification/PassProgress.thy ===== *)
theory PassProgress
  imports TeardownProgress Metrics
begin

text \<open>
  That the reconciler finishes what it decides: what a live pass which meets no error has done about
  the cells it plans to create or to drain, the failed cells whose backoff is over and the cells
  being drained.
\<close>

lemmas free_keeps = free.keeps_createCell [unfolded inv_of_free] free.keeps_open_discoverCells [unfolded inv_of_free]
  free.keeps_open_deleteCell [OF _ same_pool_refl, unfolded inv_of_free] free.keeps_read_capacity [unfolded inv_of_free]
  free.keeps_read_idle [unfolded inv_of_free] free.keeps_open_act [OF _ same_pool_refl, unfolded inv_of_free] keeps_stable

lemma keeps_stable_emits: "stable X \<Longrightarrow> keeps X (emit ev)" "stable X \<Longrightarrow> keeps X (emit_all evs)"
  by (auto intro!: keeps_emit keeps_emit_all simp: stable_def)

lemma stable_all [intro]: "(\<And>c. c \<in> A \<Longrightarrow> stable (X c)) \<Longrightarrow> stable (\<lambda>tr. \<forall>c \<in> A. X c tr)"
  by (simp add: stable_def)

lemma stable_imp [intro]: "stable X \<Longrightarrow> stable (\<lambda>tr. b \<longrightarrow> X tr)"
  by (simp add: stable_def)

lemma trip_also: "keeps X m \<Longrightarrow> trip P m Q \<Longrightarrow> trip (\<lambda>tr. X tr \<and> P tr) m (\<lambda>r tr. X tr \<and> Q r tr)"
  unfolding keeps_def by (rule trip_conj)

lemma trip_wrapping_ok:
  "trip P m (\<lambda>r tr. (\<exists>x. r = Inr x) \<longrightarrow> X tr) \<Longrightarrow> trip P (wrapping msg m) (\<lambda>r tr. (\<exists>x. r = Inr x) \<longrightarrow> X tr)"
  by (rule trip_wrapping, erule trip_weaken) (auto split: sum.splits)

lemma trip_attempt_ok:
  assumes "trip P m (\<lambda>r tr. (\<exists>x. r = Inr x) \<longrightarrow> X tr)" and "\<And>x. trip X (f x) (\<lambda>r tr. (\<exists>y. r = Inr y) \<longrightarrow> Y tr)"
  shows "trip P (attempt m f) (\<lambda>r tr. (\<exists>y. r = Inr y) \<longrightarrow> Y tr)"
  by (rule trip_attempt [OF assms(1)]) (use assms(2) in auto)

section \<open>The cells to create\<close>

text \<open>A successful call of \<^verbatim>\<open>Ensure\<close> has read the object that stands for the cell, or created it.\<close>

definition cell_seen :: "string \<Rightarrow> CellRequest \<Rightarrow> event list \<Rightarrow> bool" where
  "cell_seen prov req tr \<longleftrightarrow> (\<exists>g. EvGetObject (holder_of prov) (cr_Namespace req) (cr_CellName req) (Inr g) \<in> set tr) \<or>
     (\<exists>obj stored. EvCreateObject obj (Inr stored) \<in> set tr \<and> by_name prov sg_cell_object capi_cell_object req obj)"

lemma stable_cell_seen [intro]: "stable (cell_seen prov req)"
  unfolding stable_def cell_seen_def by auto

lemma trip_created: "trip P (create_object env obj) (\<lambda>r tr. \<forall>stored. r = Inr stored \<longrightarrow> EvCreateObject obj (Inr stored) \<in> set tr)"
  unfolding create_object_def by (rule trip_call) auto

lemma trip_got: "trip P (get_object env gvk ns name) (\<lambda>r tr. EvGetObject gvk ns name r \<in> set tr)"
  unfolding get_object_def by (rule trip_call) auto

lemma sg_Ensure_sees:
  assumes "prov \<noteq> ProvisionerClusterAPI"
  shows "trip P (sg_Ensure env req) (\<lambda>r tr. (\<exists>out. r = Inr out) \<longrightarrow> cell_seen prov req tr)"
proof -
  have create: "trip P (create_object env (guest_object req spec)) (\<lambda>r tr. (\<exists>g. r = Inr g) \<longrightarrow> cell_seen prov req tr)"
    if "renderGuestSpec req = Inr spec" for P spec
    by (rule trip_weaken [OF trip_created]) (use that assms in \<open>auto simp: cell_seen_def by_name_def sg_cell_object_def\<close>)
  have "trip P (ensureGuest env req) (\<lambda>r tr. (\<exists>g. r = Inr g) \<longrightarrow> cell_seen prov req tr)" for P
    unfolding ensureGuest_def
    by (rule trip_bind [OF trip_got], intro trip_case_sum trip_if trip_ret create)
      (use assms in \<open>auto simp: cell_seen_def by_name_def\<close>)
  then have "trip P (attempt (wrapping msg (ensureGuest env req)) (\<lambda>guest. ret (Inr (f guest))))
      (\<lambda>r tr. (\<exists>out. r = Inr out) \<longrightarrow> cell_seen prov req tr)" for P msg and f :: "Unstructured \<Rightarrow> OuterState"
    by (intro trip_attempt_ok trip_wrapping_ok trip_ret) simp_all
  then show ?thesis unfolding sg_Ensure_def by (rule trip_attempt [OF trip_any]) simp
qed

lemma capi_Ensure_sees:
  "trip P (capi_Ensure env req) (\<lambda>r tr. (\<exists>out. r = Inr out) \<longrightarrow> cell_seen ProvisionerClusterAPI req tr)"
proof -
  let ?seen = "cell_seen ProvisionerClusterAPI req"
  have create: "trip P (create_object env (machine_object req cfg ref)) (\<lambda>r tr. (\<exists>g. r = Inr g) \<longrightarrow> ?seen tr)"
    if "cr_ClusterAPI req = Some cfg" for P cfg ref
    by (rule trip_weaken [OF trip_created]) (use that in \<open>auto simp: cell_seen_def by_name_def capi_cell_object_def\<close>)
  have machine: "trip P (ensureMachine env req cfg ref) (\<lambda>r tr. (\<exists>g. r = Inr g) \<longrightarrow> ?seen tr)"
    if "cr_ClusterAPI req = Some cfg" for P cfg ref
    unfolding ensureMachine_def
    by (rule trip_bind [OF trip_got], intro trip_case_sum trip_if trip_ret create that)
      (auto simp: cell_seen_def by_name_def)
  have observe: "keeps ?seen (observeMachine env req machine)" for machine
    unfolding observeMachine_def providerID_def get_object_def Let_def
    by (intro keeps_rules keeps_call) (use stable_cell_seen in \<open>auto simp: stable_def\<close>)
  have last: "trip P (attempt (wrapping msg (ensureMachine env req cfg ref)) (observeMachine env req))
      (\<lambda>r tr. (\<exists>out. r = Inr out) \<longrightarrow> ?seen tr)" if "cr_ClusterAPI req = Some cfg" for P msg cfg ref
    by (rule trip_attempt_ok [OF trip_wrapping_ok [OF machine [OF that]]], rule trip_weaken [OF observe [unfolded keeps_def]]) simp_all
  show ?thesis
    unfolding capi_Ensure_def
    by (rule trip_case_option, simp add: trip_ret, rule trip_attempt [OF trip_any], rule trip_attempt [OF trip_any], rule last) simp_all
qed

definition boot_asked :: "Env \<Rightarrow> GPUCellPool \<Rightarrow> string \<Rightarrow> i32 \<Rightarrow> event list \<Rightarrow> bool" where
  \<comment> \<open>the provisioner has ensured the cell\<close>
  "boot_asked env q prov idx tr \<longleftrightarrow> (\<exists>outer. EvEnsure (cellRequest env q idx) (Inr outer) \<in> set tr) \<and>
     cell_seen prov (cellRequest env q idx) tr"

lemma stable_boot_asked [intro]: "stable (boot_asked env q prov idx)"
  using stable_cell_seen unfolding stable_def boot_asked_def by auto

lemma createCell_done:
  "trip P (createCell env q prov idx) (\<lambda>r tr. (\<exists>u. r = Inr u) \<longrightarrow> boot_asked env q prov idx tr)"
proof -
  let ?req = "cellRequest env q idx"
  have sees: "trip P (by_name prov sg_Ensure capi_Ensure env ?req) (\<lambda>r tr. (\<exists>out. r = Inr out) \<longrightarrow> cell_seen prov ?req tr)" for P
    using sg_Ensure_sees capi_Ensure_sees by (cases "prov = ProvisionerClusterAPI") (simp_all add: by_name_def)
  have emits: "trip (\<lambda>tr. (\<exists>out. r = Inr out) \<longrightarrow> cell_seen prov ?req tr) (State_Monad.bind (emit (EvEnsure ?req r)) (\<lambda>_. ret r))
      (\<lambda>r tr. (\<exists>out. r = Inr out) \<longrightarrow> boot_asked env q prov idx tr)" for r
    by (rule trip_bind [where R = "\<lambda>_ tr. (\<exists>out. r = Inr out) \<longrightarrow> boot_asked env q prov idx tr"])
      (use stable_cell_seen in \<open>auto intro!: trip_emit trip_ret simp: boot_asked_def stable_def\<close>)
  have "trip P (prov_Ensure env prov ?req) (\<lambda>r tr. (\<exists>out. r = Inr out) \<longrightarrow> boot_asked env q prov idx tr)" for P
    unfolding prov_Ensure_def bracket_def by (rule trip_bind [OF trip_any], rule trip_bind [OF sees emits])
  then have tail: "trip P (attempt (prov_Ensure env prov ?req) (\<lambda>_. ret (Inr ())))
      (\<lambda>r tr. (\<exists>u. r = Inr u) \<longrightarrow> boot_asked env q prov idx tr)" for P
    by (intro trip_attempt_ok trip_ret) simp_all
  show ?thesis
    unfolding createCell_def by (intro trip_case_option trip_attempt [OF trip_any tail] trip_ret) simp_all
qed

lemma create_cells_done:
  "trip P (create_cells env q prov idxs) (\<lambda>r tr. (\<exists>us. r = Inr us) \<longrightarrow> (\<forall>idx \<in> set idxs. boot_asked env q prov idx tr))"
  unfolding create_cells_def
proof (rule trip_each_all, goal_cases)
  case (1 idx P)
  have "trip R (State_Monad.bind (emit ev) (\<lambda>_. ret (Inr ()))) (\<lambda>r tr. (\<exists>y. r = Inr y) \<longrightarrow> boot_asked env q prov idx tr)"
    if "\<And>tr. R tr \<Longrightarrow> boot_asked env q prov idx tr" for ev R
    by (rule trip_bind [where R = "\<lambda>_. boot_asked env q prov idx"])
      (use that stable_boot_asked in \<open>auto intro!: trip_emit trip_ret simp: stable_def\<close>)
  then show ?case by (intro trip_attempt [OF createCell_done]) auto
next
  case (2 i j)
  show ?case by (intro keeps_rules free_keeps keeps_stable_emits stable_boot_asked)
qed

section \<open>The cells to remove\<close>

lemma ShouldReplace_Failed: "ShouldReplace c now ready \<Longrightarrow> cs_Phase c = CellPhaseFailed"
  by (simp add: ShouldReplace_def split: if_splits)

lemma replace_failed_done:
  "trip P (replace_failed env q prov ready cells) (\<lambda>r tr. (\<exists>us. r = Inr us) \<longrightarrow>
     (\<forall>c \<in> set cells. ShouldReplace c (en_now env) ready \<longrightarrow> gone_asked (cellRequest env q (cs_Index c)) tr))"
  unfolding replace_failed_def
proof (rule trip_each_all, goal_cases)
  case (1 c P)
  show ?case by (auto intro!: trip_if trip_ret trip_weaken [OF deleteCell_done])
next
  case (2 c d)
  show ?case by (intro keeps_rules free_keeps stable_imp stable_gone_asked)
qed

definition drain_settled :: "Env \<Rightarrow> GPUCellPool \<Rightarrow> CellStatus \<Rightarrow> event list \<Rightarrow> bool" where
  \<comment> \<open>a draining cell waits for its work, or is gone\<close>
  "drain_settled env q c tr \<longleftrightarrow> (cs_Phase c = CellPhaseDraining \<longrightarrow>
     cs_Reason c = ReasonWaitingForAllocations \<or> gone_asked (cellRequest env q (cs_Index c)) tr)"

definition failure_settled :: "Env \<Rightarrow> bool \<Rightarrow> GPUCellPool \<Rightarrow> CellStatus \<Rightarrow> event list \<Rightarrow> bool" where
  \<comment> \<open>a failed cell due for replacement, given whether the provider is ready, is gone\<close>
  "failure_settled env ready q c tr \<longleftrightarrow>
     (ShouldReplace c (en_now env) ready \<longrightarrow> gone_asked (cellRequest env q (cs_Index c)) tr)"

lemma stable_row_settled [intro]: "stable (drain_settled env q c)" "stable (failure_settled env ready q c)"
  using stable_gone_asked unfolding stable_def drain_settled_def failure_settled_def by metis+

lemma progressDrain_row:
  "trip P (progressDrain env q prov inner cell False since) (\<lambda>r tr. \<forall>c. r = Inr c \<longrightarrow>
     cs_Phase c = cs_Phase cell \<and> cs_Name c = cs_Name cell \<and> drain_settled env q c tr)"
proof -
  have wait: "dd_Reason (AdvanceDrain a known False force since now t) = ReasonWaitingForAllocations"
    if "\<not> dd_Proceed (AdvanceDrain a known False force since now t)" for a known force since now t
    using that by (auto simp: AdvanceDrain_def Let_def split: if_splits)
  have gone: "trip Q (attempt (deleteCell env q prov c True) (\<lambda>_. ret (Inr c)))
      (\<lambda>r tr. \<forall>c'. r = Inr c' \<longrightarrow> c' = c \<and> gone_asked (cellRequest env q (cs_Index c)) tr)" for Q c
    by (rule trip_attempt [OF deleteCell_done]) (auto intro!: trip_ret)
  show ?thesis
    unfolding progressDrain_def Let_def
  proof (rule trip_attempt [OF trip_any], rule trip_if, goal_cases)
    case (1 reading)
    then show ?case by (intro trip_ret) (simp add: wait drain_settled_def)
  next
    case (2 reading)
    show ?case by (rule trip_weaken [OF gone [of "\<lambda>_. True"]], simp, intro allI impI) (simp add: drain_settled_def)
  qed simp
qed

lemma drain_cells_rows_from:
  \<comment> \<open>each row of the outcome comes from one of the rows: unchanged, or drained a step\<close>
  "trip P (drain_cells env q prov inner cells) (\<lambda>r tr. \<forall>out. r = Inr out \<longrightarrow> (\<forall>c \<in> set out. \<exists>c0 \<in> set cells.
     cs_Name c = cs_Name c0 \<and> cs_Phase c = cs_Phase c0 \<and> drain_settled env q c tr \<and>
     (cs_Phase c0 \<noteq> CellPhaseDraining \<longrightarrow> c = c0)))"
proof -
  let ?V = "\<lambda>c0 c tr. cs_Name c = cs_Name c0 \<and> cs_Phase c = cs_Phase c0 \<and> drain_settled env q c tr \<and>
     (cs_Phase c0 \<noteq> CellPhaseDraining \<longrightarrow> c = c0)"
  have V: "stable (?V c0 c)" for c0 c using stable_row_settled(1) unfolding stable_def by auto
  have "trip P (drain_cells env q prov inner cells) (\<lambda>r tr. \<forall>out. r = Inr out \<longrightarrow> list_all2 (\<lambda>c0 c. ?V c0 c tr) cells out)"
    unfolding drain_cells_def
  proof (rule trip_each_results, goal_cases)
    case (1 c0 P)
    show ?case
    proof (cases "cs_Phase c0 = CellPhaseDraining")
      case True
      then show ?thesis by (simp only: simp_thms if_False) (rule trip_weaken [OF progressDrain_row [of "\<lambda>_. True"]], simp, metis)
    qed (simp add: trip_ret drain_settled_def)
  next
    case (2 c0 c z)
    show ?case by (intro keeps_rules keeps_stable V)
  qed
  moreover have "\<exists>c0 \<in> set cells. ?V c0 c tr" if "list_all2 (\<lambda>c0 c. ?V c0 c tr) cells out" "c \<in> set out" for out c tr
    using that by (induction rule: list_all2_induct) auto
  ultimately show ?thesis by (elim trip_weaken) blast+
qed

section \<open>The actions of a pass\<close>

definition acted :: "Env \<Rightarrow> bool \<Rightarrow> GPUCellPool \<Rightarrow> string \<Rightarrow> MembershipPlan \<Rightarrow> CellStatus list \<Rightarrow> event list \<Rightarrow> bool" where
  "acted env ready q prov plan cells tr \<longleftrightarrow> (\<forall>idx \<in> set (mp_Create plan). boot_asked env q prov idx tr) \<and>
     (\<forall>c \<in> set cells. (cs_Name c \<in> set (mp_Drain plan) \<longrightarrow> cs_Phase c = CellPhaseDraining) \<and>
        drain_settled env q c tr \<and> failure_settled env ready q c tr)"

lemma stable_acted [intro]: "stable (acted env ready q prov plan cells)"
  unfolding acted_def by (intro stable_conj stable_all stable_boot_asked stable_row_settled stable_const)

lemma marked_draining:
  "c \<in> set (foldl (\<lambda>cs n. markDraining cs n now) cells ns) \<Longrightarrow> cs_Name c \<in> set ns \<Longrightarrow> cs_Phase c = CellPhaseDraining"
  by (induction ns rule: rev_induct) (auto simp: markDraining_def mark_row_def split: if_splits)

lemma act_done:
  "trip P (act env q prov inner ready idle scale plan cells) (\<lambda>r tr. \<forall>x. r = Inr x \<longrightarrow> acted env ready q prov plan (fst x) tr)"
proof -
  let ?made = "\<lambda>tr. \<forall>idx \<in> set (mp_Create plan). boot_asked env q prov idx tr"
  let ?gone = "\<lambda>found tr. \<forall>c \<in> set found. failure_settled env ready q c tr"
  let ?done = "\<lambda>r tr. \<forall>x. r = Inr x \<longrightarrow> acted env ready q prov plan (fst x) tr"
  have made: "stable ?made" and both: "stable (\<lambda>tr. ?made tr \<and> ?gone found tr)" for found
    by (intro stable_conj stable_all stable_boot_asked stable_row_settled)+
  have drain: "trip (\<lambda>tr. ?made tr \<and> ?gone found tr) (do {
        emit_all evs;
        attempt (drain_cells env q prov inner (if b then markDraining found n (en_now env) else found))
          (\<lambda>cells. ret (Inr (cells, rollout))) }) ?done"
    if marks: "\<forall>c \<in> set found. cs_Name c \<in> set (mp_Drain plan) \<longrightarrow> cs_Phase c = CellPhaseDraining" for found evs b n rollout
  proof (rule trip_bind [OF keeps_stable_emits(2) [OF both, unfolded keeps_def]])
    let ?rows = "if b then markDraining found n (en_now env) else found"
    have rows: "(cs_Name c \<in> set (mp_Drain plan) \<longrightarrow> cs_Phase c = CellPhaseDraining) \<and> (cs_Phase c \<noteq> CellPhaseDraining \<longrightarrow> c \<in> set found)"
      if "c \<in> set ?rows" for c
      using that marks by (auto simp: markDraining_def mark_row_def split: if_splits)
    have keep: "keeps (\<lambda>tr. ?made tr \<and> ?gone found tr) (drain_cells env q prov inner ?rows)"
      unfolding drain_cells_def by (intro keeps_rules keeps_stable both)
    have "acted env ready q prov plan out tr" if "?made tr" "?gone found tr" and out: "\<forall>c \<in> set out. \<exists>c0 \<in> set ?rows.
        cs_Name c = cs_Name c0 \<and> cs_Phase c = cs_Phase c0 \<and> drain_settled env q c tr \<and> (cs_Phase c0 \<noteq> CellPhaseDraining \<longrightarrow> c = c0)"
      for out tr
      unfolding acted_def
    proof (rule conjI [OF that(1)], intro ballI conjI)
      fix c assume "c \<in> set out"
      then obtain c0 where c0: "c0 \<in> set ?rows" "cs_Name c = cs_Name c0" "cs_Phase c = cs_Phase c0" "drain_settled env q c tr"
        "cs_Phase c0 \<noteq> CellPhaseDraining \<longrightarrow> c = c0" using out by blast
      show "cs_Name c \<in> set (mp_Drain plan) \<longrightarrow> cs_Phase c = CellPhaseDraining" using rows [OF c0(1)] c0(2,3) by simp
      show "drain_settled env q c tr" by (rule c0)
      show "failure_settled env ready q c tr"
        using rows [OF c0(1)] c0(3,5) that(2) by (auto simp: failure_settled_def dest: ShouldReplace_Failed)
    qed
    then show "trip (\<lambda>tr. ?made tr \<and> ?gone found tr)
        (attempt (drain_cells env q prov inner ?rows) (\<lambda>cells. ret (Inr (cells, rollout)))) ?done" for u :: unit
      by (intro trip_attempt [OF trip_also [OF keep drain_cells_rows_from [of "\<lambda>_. True"], simplified]] trip_ret) simp_all
  qed
  have replace: "trip ?made (replace_failed env q prov ready found)
      (\<lambda>r tr. ?made tr \<and> ((\<exists>us. r = Inr us) \<longrightarrow> ?gone found tr))" for found
  proof -
    have "keeps ?made (replace_failed env q prov ready found)"
      unfolding replace_failed_def by (intro keeps_rules free_keeps made)
    from trip_also [OF this replace_failed_done [of "\<lambda>_. True"]] show ?thesis
      by (elim trip_weaken) (auto simp: failure_settled_def)
  qed
  have observe: "keeps ?made (if b then discoverCells env q prov inner else ret (Inr cells))" for b
    by (intro keeps_rules free_keeps made)
  note marks = ballI [OF impI [OF marked_draining]]
  show ?thesis
    unfolding act_def Let_def
    by (rule trip_attempt [OF create_cells_done], rule trip_weaken, rule trip_attempt [OF observe [unfolded keeps_def]],
        rule trip_bind [OF keeps_stable_emits(2) [OF made, unfolded keeps_def]], rule trip_attempt [OF replace],
        rule trip_weaken [OF drain [OF marks]]) simp_all
qed

section \<open>The decision of a pass\<close>

definition pass_start :: "Env \<Rightarrow> event list" where
  \<comment> \<open>the calls of a live pass before it turns to the workload cluster\<close>
  "pass_start env = (case en_GetPool env [] of
       Inl e \<Rightarrow> []
     | Inr pool \<Rightarrow> EvRead ''GetPool'' #
         (if FinalizerPool \<in> set (po_Finalizers pool) then []
          else let p = pool\<lparr>po_Finalizers := po_Finalizers pool @ [FinalizerPool]\<rparr>
               in [EvUpdatePool p (en_UpdatePool env [EvRead ''GetPool''] p)]))"

definition pass_decision :: "Env \<Rightarrow> string \<Rightarrow> GPUCellPool \<Rightarrow> ClientCache \<Rightarrow> PassDecision result \<times> World" where
  \<comment> \<open>what the pass reads and decides, and the calls made until then\<close>
  "pass_decision env prov q cache =
     run_state (do { c \<leftarrow> workloadClient env q; decide_pass env q prov (fst c) }) \<lparr>wo_trace = pass_start env, wo_cache = cache\<rparr>"

lemma Reconcile_start:
  "pass_pool env prov q \<Longrightarrow> run_state (Reconcile env) \<lparr>wo_trace = [], wo_cache = cache\<rparr> =
     run_state (reconcile_live env q prov) \<lparr>wo_trace = pass_start env, wo_cache = cache\<rparr>"
  by (auto simp: pass_pool_def Reconcile_def pass_start_def call_def attempt_def wrapping_def Let_def split: if_splits)

lemma decide_pass_pool: "yields (decide_pass env q prov inner) (\<lambda>pd. same_pool (pd_pool pd) q)"
  unfolding decide_pass_def Let_def
  by (rule yields_after, intro yields_bind yields_ret)
    (simp add: same_pool_trans [OF same_pool_steps(2) same_pool_steps(1)])

definition pass_done :: "Env \<Rightarrow> bool \<Rightarrow> GPUCellPool \<Rightarrow> string \<Rightarrow> MembershipPlan \<Rightarrow> (event list \<Rightarrow> bool) \<Rightarrow> event list \<Rightarrow> bool" where
  "pass_done env ready q prov plan X tr \<longleftrightarrow> (\<exists>p pre. tr = pre @ [EvUpdateStatus p (Inr ())] \<and> X pre \<and>
     acted env ready q prov plan (st_Cells (po_Status p)) tr)"

lemma status_written:
  assumes "st_Cells (po_Status p) = cells" and X: "stable X"
  shows "trip (\<lambda>tr. X tr \<and> acted env ready q prov plan cells tr) (do {
      emit ev;
      attempt (wrapping msg (call (\<lambda>tr. en_UpdateStatus env tr p) (EvUpdateStatus p))) (\<lambda>_. ret (Inr d)) })
    (\<lambda>r tr. (\<exists>d. r = Inr d) \<longrightarrow> pass_done env ready q prov plan X tr)"
proof (rule trip_bind)
  let ?S = "\<lambda>tr. X tr \<and> acted env ready q prov plan cells tr"
  have S: "stable ?S" by (intro stable_conj X stable_acted)
  show "trip ?S (emit ev) (\<lambda>_. ?S)" by (rule keeps_stable_emits [OF S, unfolded keeps_def])
  have "trip ?S (call (\<lambda>tr. en_UpdateStatus env tr p) (EvUpdateStatus p))
      (\<lambda>r tr. (\<exists>u. r = Inr u) \<longrightarrow> pass_done env ready q prov plan X tr)"
  proof (rule trip_call, intro impI, elim exE)
    fix tr u
    assume tr: "?S tr" and up: "en_UpdateStatus env tr p = Inr u"
    have "acted env ready q prov plan cells (tr @ [EvUpdateStatus p (Inr ())])"
      using tr stable_acted unfolding stable_def by blast
    with tr assms(1) up show "pass_done env ready q prov plan X (tr @ [EvUpdateStatus p (en_UpdateStatus env tr p)])"
      unfolding pass_done_def by auto
  qed
  then show "trip ?S (attempt (wrapping msg (call (\<lambda>tr. en_UpdateStatus env tr p) (EvUpdateStatus p))) (\<lambda>_. ret (Inr d)))
      (\<lambda>r tr. (\<exists>d. r = Inr d) \<longrightarrow> pass_done env ready q prov plan X tr)" for u :: unit
    by (intro trip_attempt_ok trip_wrapping_ok trip_ret) simp_all
qed

lemma acted_same_pool: "same_pool p q \<Longrightarrow> acted env ready p prov plan cells = acted env ready q prov plan cells"
  by (simp add: acted_def fun_eq_iff boot_asked_def drain_settled_def failure_settled_def same_pool_simps)

lemma finish_pass_done:
  assumes "same_pool (pd_pool pd) q" and "stable X"
  shows "trip X (finish_pass env prov c pd) (\<lambda>r tr. (\<exists>d. r = Inr d) \<longrightarrow> pass_done env (he_Ready (rg_health (pd_readings pd))) q prov (pd_plan pd) X tr)"
proof -
  have act: "trip X (act env (pd_pool pd) prov inner ready idle scale plan cells)
      (\<lambda>r tr. X tr \<and> (\<forall>x. r = Inr x \<longrightarrow> acted env ready q prov plan (fst x) tr))" for inner ready idle scale plan cells
    using trip_also [OF free_keeps(6) [OF assms(2)] act_done [of "\<lambda>_. True"], of env "pd_pool pd" prov inner ready idle scale plan cells]
    by (simp add: acted_same_pool [OF assms(1)])
  show ?thesis
    unfolding finish_pass_def Let_def
    by (rule trip_attempt [OF act], unfold case_prod_beta, rule trip_weaken [OF status_written [OF writeStatus_Cells assms(2)]])
      simp_all
qed

lemma pass_in_two:
  \<comment> \<open>a successful pass has decided, and then finished, with what is known of decisions\<close>
  assumes "pass_pool env prov q" and "run_state (Reconcile env) \<lparr>wo_trace = [], wo_cache = cache\<rparr> = (Inr d, w)"
    and known: "\<And>inner. trip (\<lambda>_. True) (decide_pass env q prov inner) (\<lambda>r tr. \<forall>pd. r = Inr pd \<longrightarrow> K pd tr)"
  shows "\<exists>c pd w0. pass_decision env prov q cache = (Inr pd, w0) \<and> run_state (finish_pass env prov c pd) w0 = (Inr d, w) \<and>
    same_pool (pd_pool pd) q \<and> K pd (wo_trace w0)"
proof -
  obtain c w1 where c: "run_state (workloadClient env q) \<lparr>wo_trace = pass_start env, wo_cache = cache\<rparr> = (c, w1)" by fastforce
  obtain r w0 where r: "run_state (decide_pass env q prov (fst c)) w1 = (r, w0)" by fastforce
  have run: "run_state (attempt (decide_pass env q prov (fst c)) (finish_pass env prov c)) w1 = (Inr d, w)"
    using assms(2) by (simp add: Reconcile_start [OF assms(1)] reconcile_live_def reconcile_with_def c)
  then obtain pd where pd: "r = Inr pd" "run_state (finish_pass env prov c pd) w0 = (Inr d, w)"
    by (cases r) (simp_all add: attempt_def r)
  have "same_pool (pd_pool pd) q" "K pd (wo_trace w0)"
    using trip_run [OF decide_pass_pool [unfolded yields_def] _ r] trip_run [OF known _ r] pd(1) by simp_all
  moreover have "pass_decision env prov q cache = (Inr pd, w0)" using r pd(1) by (simp add: pass_decision_def c)
  ultimately show ?thesis using pd(2) by blast
qed

lemma successful_pass_done:
  assumes "pass_pool env prov q" and "run_state (Reconcile env) \<lparr>wo_trace = [], wo_cache = cache\<rparr> = (Inr d, w)"
  shows "\<exists>pd w0. pass_decision env prov q cache = (Inr pd, w0) \<and>
    pass_done env (he_Ready (rg_health (pd_readings pd))) q prov (pd_plan pd) (\<lambda>tr. \<exists>post. tr = wo_trace w0 @ post) (wo_trace w)"
proof -
  obtain c pd w0 where pd: "pass_decision env prov q cache = (Inr pd, w0)" "run_state (finish_pass env prov c pd) w0 = (Inr d, w)"
    "same_pool (pd_pool pd) q"
    using pass_in_two [OF assms, where K = "\<lambda>_ _. True"] by (simp add: trip_any) blast
  have X: "stable (\<lambda>tr. \<exists>post. tr = wo_trace w0 @ post)" by (auto simp: stable_def)
  from trip_run [OF finish_pass_done [OF pd(3) X] _ pd(2)] pd(1) show ?thesis by simp
qed

end
