(* ===== verification/ApiServer.thy ===== *)
theory ApiServer
  imports Teardown
begin

text \<open>
  The operator against the API server of the infrastructure cluster, over any number of passes and
  with everybody else acting in between. The server is a store of objects by kind, namespace and
  name, with the documented meaning of finalizers: deleting an object marks it, and a marked object
  goes when its last finalizer does. The steps of other clients stand anywhere between the calls of
  a pass; all that is asked of them is that they do not take the operator's drain finalizer off.
\<close>

type_synonym object_key = "GroupVersionKind \<times> string \<times> string"

type_synonym store = "object_key \<rightharpoonup> Unstructured"

definition key_of :: "Unstructured \<Rightarrow> object_key" where
  "key_of obj = (un_GVK obj, un_Namespace obj, un_Name obj)"

definition guards :: "Unstructured \<Rightarrow> bool" where
  "guards obj \<longleftrightarrow> FinalizerCellDrain \<in> set (un_Finalizers obj)"

definition settled :: "Unstructured \<Rightarrow> Unstructured option" where
  "settled obj = (if un_DeletionTimestamp obj \<noteq> None \<and> un_Finalizers obj = [] then None else Some obj)"

definition marked :: "gotime \<Rightarrow> Unstructured \<Rightarrow> Unstructured" where
  "marked t obj = (if un_DeletionTimestamp obj = None then obj\<lparr>un_DeletionTimestamp := Some t\<rparr> else obj)"

datatype action = Op event | ClientCreate Unstructured | ClientUpdate Unstructured | ClientDelete object_key

fun on_objects :: "event \<Rightarrow> bool" where
  "on_objects (EvGetObject gvk ns name r) = True"
| "on_objects (EvCreateObject obj r) = True"
| "on_objects (EvUpdateObject obj r) = True"
| "on_objects (EvDeleteObject gvk ns name r) = True"
| "on_objects _ = False"

text \<open>One call answered by the server, or one step of another client.\<close>

inductive serves :: "store \<Rightarrow> action \<Rightarrow> store \<Rightarrow> bool" where
  get: "s (gvk, ns, name) = Some g \<Longrightarrow> serves s (Op (EvGetObject gvk ns name (Inr g))) s"
| get_failed: "(IsNotFound e \<Longrightarrow> s (gvk, ns, name) = None) \<Longrightarrow> serves s (Op (EvGetObject gvk ns name (Inl e))) s"
| created: "s (key_of obj) = None \<Longrightarrow> key_of new = key_of obj \<Longrightarrow> un_Finalizers new = un_Finalizers obj \<Longrightarrow>
    serves s (Op (EvCreateObject obj (Inr new))) (s(key_of obj \<mapsto> new))"
| create_failed: "serves s (Op (EvCreateObject obj (Inl e))) s"
| updated: "s (key_of obj) = Some old \<Longrightarrow>
    serves s (Op (EvUpdateObject obj (Inr ())))
      (s(key_of obj := settled (obj\<lparr>un_DeletionTimestamp := un_DeletionTimestamp old\<rparr>)))"
| update_failed: "serves s (Op (EvUpdateObject obj (Inl e))) s"
| deleted: "s (gvk, ns, name) = Some old \<Longrightarrow>
    serves s (Op (EvDeleteObject gvk ns name (Inr ()))) (s((gvk, ns, name) := settled (marked t old)))"
| delete_failed: "serves s (Op (EvDeleteObject gvk ns name (Inl e))) s"
| elsewhere: "\<not> on_objects ev \<Longrightarrow> serves s (Op ev) s"
| client_create: "s (key_of obj) = None \<Longrightarrow> serves s (ClientCreate obj) (s(key_of obj \<mapsto> obj))"
| client_update: "s (key_of obj) = Some old \<Longrightarrow> (guards old \<Longrightarrow> guards obj) \<Longrightarrow>
    serves s (ClientUpdate obj) (s(key_of obj := settled (obj\<lparr>un_DeletionTimestamp := un_DeletionTimestamp old\<rparr>)))"
| client_delete: "s k = Some old \<Longrightarrow> serves s (ClientDelete k) (s(k := settled (marked t old)))"

inductive history :: "store \<Rightarrow> action list \<Rightarrow> store \<Rightarrow> bool" where
  empty: "history s [] s"
| step: "serves s a s' \<Longrightarrow> history s' h s'' \<Longrightarrow> history s (a # h) s''"

inductive_cases serves_get: "serves s (Op (EvGetObject gvk ns name (Inr g))) s'"
inductive_cases history_Nil: "history s [] s'"
inductive_cases history_Cons: "history s (a # h) s'"

fun ops :: "action list \<Rightarrow> event list" where
  "ops [] = []"
| "ops (Op ev # h) = ev # ops h"
| "ops (a # h) = ops h"

definition guarded :: "store \<Rightarrow> object_key \<Rightarrow> bool" where
  "guarded s k \<longleftrightarrow> (\<exists>obj. s k = Some obj \<and> guards obj)"

definition well_keyed :: "store \<Rightarrow> bool" where
  "well_keyed s \<longleftrightarrow> (\<forall>k obj. s k = Some obj \<longrightarrow> key_of obj = k)"

section \<open>One step\<close>

lemma key_of_simps [simp]: "key_of (obj\<lparr>un_DeletionTimestamp := d\<rparr>) = key_of obj" "key_of (marked t obj) = key_of obj"
  "key_of (obj\<lparr>un_Finalizers := fs\<rparr>) = key_of obj"
  by (simp_all add: key_of_def marked_def)

lemma guards_simps [simp]: "guards (obj\<lparr>un_DeletionTimestamp := d\<rparr>) = guards obj" "guards (marked t obj) = guards obj"
  by (simp_all add: guards_def marked_def)

lemma settled_guards [simp]: "(case settled obj of None \<Rightarrow> False | Some new \<Rightarrow> guards new) \<longleftrightarrow> guards obj"
  by (auto simp: settled_def guards_def)

lemma guarded_upd [simp]:
  "guarded (s(k := v)) k' \<longleftrightarrow> (if k' = k then (case v of None \<Rightarrow> False | Some obj \<Rightarrow> guards obj) else guarded s k')"
  by (simp add: guarded_def split: option.split)

lemma guarded_cases: "s k = Some obj \<Longrightarrow> guarded s k \<longleftrightarrow> guards obj" "s k = None \<Longrightarrow> \<not> guarded s k"
  by (simp_all add: guarded_def)

lemma settled_Some: "settled obj = Some new \<longleftrightarrow> new = obj \<and> \<not> (un_DeletionTimestamp obj \<noteq> None \<and> un_Finalizers obj = [])"
  by (auto simp: settled_def)

lemma serves_well_keyed: "serves s a s' \<Longrightarrow> well_keyed s \<Longrightarrow> well_keyed s'"
  by (induction rule: serves.induct) (auto simp: well_keyed_def settled_Some split: if_splits)

lemma serves_unguards:
  assumes "serves s a s'" and "guarded s k" and "\<not> guarded s' k"
  shows "\<exists>obj. a = Op (EvUpdateObject obj (Inr ())) \<and> key_of obj = k \<and> \<not> guards obj"
  using assms by cases (auto simp: guarded_cases split: if_splits)

section \<open>Histories\<close>

lemma history_append: "history s (h1 @ h2) s'' \<longleftrightarrow> (\<exists>s'. history s h1 s' \<and> history s' h2 s'')"
proof (induction h1 arbitrary: s)
  case (Cons a h1)
  show ?case
  proof
    assume "history s ((a # h1) @ h2) s''"
    then show "\<exists>s'. history s (a # h1) s' \<and> history s' h2 s''"
      using Cons.IH by (auto elim!: history_Cons intro: history.step) (meson history.step)
  next
    assume "\<exists>s'. history s (a # h1) s' \<and> history s' h2 s''"
    then show "history s ((a # h1) @ h2) s''"
      using Cons.IH by (auto elim!: history_Cons intro!: history.step)
  qed
qed (auto elim: history_Nil intro: history.empty)

lemma history_well_keyed: "history s h s' \<Longrightarrow> well_keyed s \<Longrightarrow> well_keyed s'"
  by (induction rule: history.induct) (auto dest: serves_well_keyed)

lemma history_unguards:
  assumes "history s h s'" and "guarded s k" and "\<not> guarded s' k"
  shows "\<exists>h1 obj h2. h = h1 @ Op (EvUpdateObject obj (Inr ())) # h2 \<and> key_of obj = k \<and> \<not> guards obj"
  using assms
proof (induction rule: history.induct)
  case (step s a s' h s'')
  show ?case
  proof (cases "guarded s' k")
    case True
    with step obtain h1 obj h2 where "h = h1 @ Op (EvUpdateObject obj (Inr ())) # h2" "key_of obj = k" "\<not> guards obj" by blast
    then show ?thesis by (intro exI [of _ "a # h1"]) auto
  next
    case False
    with serves_unguards step.hyps(1) step.prems(1) obtain obj
      where "a = Op (EvUpdateObject obj (Inr ()))" "key_of obj = k" "\<not> guards obj" by blast
    then show ?thesis by (intro exI [of _ "[]"]) auto
  qed
qed blast

lemma history_get:
  assumes "history s h s'" and "well_keyed s" and "Op (EvGetObject gvk ns name (Inr g)) \<in> set h"
  shows "key_of g = (gvk, ns, name)"
proof -
  obtain h1 h2 where h: "h = h1 @ Op (EvGetObject gvk ns name (Inr g)) # h2" using assms(3) split_list by metis
  obtain s1 where "history s h1 s1" "history s1 (Op (EvGetObject gvk ns name (Inr g)) # h2) s'"
    using assms(1) unfolding h history_append by blast
  moreover from this(2) obtain s2 where "serves s1 (Op (EvGetObject gvk ns name (Inr g))) s2" by (rule history_Cons)
  then have "s1 (gvk, ns, name) = Some g" by (rule serves_get) simp_all
  ultimately show ?thesis using history_well_keyed assms(2) unfolding well_keyed_def by blast
qed

lemma ops_append [simp]: "ops (h1 @ h2) = ops h1 @ ops h2"
  by (induction h1 rule: ops.induct) auto

lemma in_ops: "ev \<in> set (ops h) \<longleftrightarrow> Op ev \<in> set h"
  by (induction h rule: ops.induct) auto

lemma ops_map: "ops (map Op evs) = evs"
  by (induction evs) simp_all

section \<open>Passes\<close>

definition trace_of :: "Env \<times> ClientCache \<Rightarrow> event list" where
  "trace_of pass = pass_trace (fst pass) (snd pass)"

lemma concat_split:
  "concat xss = a @ x # b \<Longrightarrow> \<exists>xss1 p q xss2. xss = xss1 @ (p @ x # q) # xss2 \<and> a = concat xss1 @ p"
proof (induction xss arbitrary: a)
  case (Cons xs xss)
  then consider (here) us where "xs = a @ us" "us @ concat xss = x # b" | (later) us where "xs @ us = a" "concat xss = us @ x # b"
    by (auto simp: append_eq_append_conv2)
  then show ?case
  proof cases
    case here
    show ?thesis
    proof (cases us)
      case Nil
      then obtain xss1 p q xss2 where "xss = xss1 @ (p @ x # q) # xss2" "[] = concat xss1 @ p"
        using Cons.IH [of "[]"] here(2) by auto
      with here Nil show ?thesis by (intro exI [of _ "xs # xss1"] exI [of _ p] exI [of _ q] exI [of _ xss2]) auto
    next
      case (Cons u us')
      with here show ?thesis by (intro exI [of _ "[]"] exI [of _ a] exI [of _ us'] exI [of _ xss]) auto
    qed
  next
    case later
    then obtain xss1 p q xss2 where "xss = xss1 @ (p @ x # q) # xss2" "us = concat xss1 @ p"
      using Cons.IH by blast
    with later(1) show ?thesis by (intro exI [of _ "xs # xss1"] exI [of _ p] exI [of _ q] exI [of _ xss2]) auto
  qed
qed simp

lemma updating_pass:
  \<comment> \<open>a pass that updates an object has a pool, live or going\<close>
  assumes "EvUpdateObject obj r \<in> set (pass_trace env cache)"
  shows "\<exists>prov q. pass_pool env prov q \<or> deletion_pass env prov q"
proof (cases "en_GetPool env []")
  case (Inl e)
  with assms show ?thesis by (simp add: pass_trace_def Reconcile_def call_def)
next
  case (Inr pool)
  show ?thesis
  proof (cases "provisioner pool")
    case (Inl e)
    with assms Inr show ?thesis by (simp add: pass_trace_def Reconcile_def call_def emit_def)
  next
    case (Inr prov)
    let ?p = "pool\<lparr>po_Finalizers := po_Finalizers pool @ [FinalizerPool]\<rparr>"
    show ?thesis
    proof (cases "IsZero (po_DeletionTimestamp pool)")
      case True
      have "FinalizerPool \<in> set (po_Finalizers pool) \<or> (\<exists>q. en_UpdatePool env [EvRead ''GetPool''] ?p = Inr q)"
        using assms \<open>en_GetPool env [] = Inr pool\<close> Inr True
        by (cases "en_UpdatePool env [EvRead ''GetPool''] ?p")
          (auto simp: pass_trace_def Reconcile_def call_def attempt_def wrapping_def Let_def split: if_splits)
      then show ?thesis using \<open>en_GetPool env [] = Inr pool\<close> Inr True by (auto simp: pass_pool_def)
    next
      case False
      then show ?thesis using \<open>en_GetPool env [] = Inr pool\<close> Inr by (auto simp: deletion_pass_def)
    qed
  qed
qed

text \<open>
  The evidence on which a cell's object is released: the pass works on a live pool, observed the cell,
  and it is to be replaced or its Node was cordoned and then nothing held a share of its GPU; or the
  pool is being deleted, the cell's guest was listed, and it is drained in the same sense, forced or
  out of time.
\<close>

definition unheld :: "Env \<Rightarrow> GPUCellPool \<Rightarrow> event list \<Rightarrow> string \<Rightarrow> bool" where
  "unheld env q pre name \<longleftrightarrow>
     (\<exists>pre1 ev cs a pre2. pre = (pre1 @ [ev]) @ EvAllocations cs name (Inr a) # pre2 \<and>
        cordon_done cs name ev \<and> \<not> provider_holder (provider env q cs (pre1 @ [ev])) name)"

definition cell_key :: "string \<Rightarrow> GPUCellPool \<Rightarrow> i32 \<Rightarrow> object_key" where
  "cell_key prov q idx = (by_name prov SwiftGuestGVK MachineGVK, po_Namespace q, Name (po_Name q) idx)"

definition released :: "Env \<Rightarrow> event list \<Rightarrow> object_key \<Rightarrow> bool" where
  "released env pre k \<longleftrightarrow>
     (\<exists>prov q c. pass_pool env prov q \<and> observed env q prov pre c \<and> k = cell_key prov q (cs_Index c) \<and>
        (ShouldReplace c (en_now env) True \<or> unheld env q pre (cs_Name c))) \<or>
     (\<exists>prov q name idx. deletion_pass env prov q \<and> listed_guest q pre name idx \<and>
        k = cell_key prov q (cs_Index (drain_row q (en_now env) name idx)) \<and>
        (hurried env q \<or> unheld env q pre name))"

lemma update_released:
  assumes tr: "pass_trace env cache = pre @ EvUpdateObject obj r # post"
    and keys: "\<And>gvk ns name g. EvGetObject gvk ns name (Inr g) \<in> set pre \<Longrightarrow> key_of g = (gvk, ns, name)"
  shows "released env pre (key_of obj)"
proof -
  have "EvUpdateObject obj r \<in> set (pass_trace env cache)" by (simp add: tr)
  then obtain prov q where "pass_pool env prov q \<or> deletion_pass env prov q" using updating_pass by blast
  then show ?thesis
  proof
    assume pass: "pass_pool env prov q"
    note law = pass_lawful [OF pass, of cache, unfolded tr]
    obtain req g where req: "removable env q prov pre req" "obj = unguarded g"
        "EvGetObject (holder_of prov) (cr_Namespace req) (cr_CellName req) (Inr g) \<in> set pre"
      using obeysD [OF law] by auto
    obtain c where "observed env q prov pre c" "req = cellRequest env q (cs_Index c)"
      "ShouldReplace c (en_now env) True \<or> unheld env q pre (cs_Name c)"
      unfolding unheld_def by (rule removable_evidence [OF law req(1)])
    moreover from this have "key_of obj = cell_key prov q (cs_Index c)"
      using keys [OF req(3)] req(2) by (simp add: cell_key_def unguarded_def)
    ultimately show ?thesis using pass unfolding released_def by blast
  next
    assume pass: "deletion_pass env prov q"
    note law = pass_parting [OF pass, of cache, unfolded tr]
    obtain req g where req: "may_leave env q pre req" "obj = unguarded g"
        "EvGetObject (holder_of prov) (cr_Namespace req) (cr_CellName req) (Inr g) \<in> set pre"
      using obeysD [OF law] by auto
    obtain name idx where cell: "listed_guest q pre name idx" "req = cellRequest env q (cs_Index (drain_row q (en_now env) name idx))"
      "drained pre name \<or> hurried env q"
      using req(1) unfolding may_leave_def by blast
    have "hurried env q \<or> unheld env q pre name"
      using cell(3) drained_unheld [OF law, of name env q] unfolding unheld_def by auto
    moreover have "key_of obj = cell_key prov q (cs_Index (drain_row q (en_now env) name idx))"
      using keys [OF req(3)] req(2) cell(2) by (simp add: cell_key_def unguarded_def)
    ultimately show ?thesis using pass cell(1) unfolding released_def by blast
  qed
qed

lemma guard_lost:
  assumes "history s0 h1 s1" and "history s1 h2 s2" and "well_keyed s0"
    and "ops (h1 @ h2) = concat (map trace_of passes)"
    and "guarded s1 k" and "\<not> guarded s2 k"
  shows "\<exists>passes1 env cache passes2 pre obj post. passes = passes1 @ (env, cache) # passes2 \<and>
    pass_trace env cache = pre @ EvUpdateObject obj (Inr ()) # post \<and> key_of obj = k \<and>
    length (ops h1) \<le> length (concat (map trace_of passes1) @ pre) \<and> released env pre k"
proof -
  obtain h3 obj h4 where h2: "h2 = h3 @ Op (EvUpdateObject obj (Inr ())) # h4" and obj: "key_of obj = k"
    using history_unguards [OF assms(2,5,6)] by blast
  have "concat (map trace_of passes) = ops (h1 @ h3) @ EvUpdateObject obj (Inr ()) # ops h4"
    using assms(4) by (simp add: h2)
  from concat_split [OF this] obtain xss1 pre post xss2 where xss: "map trace_of passes = xss1 @ (pre @ EvUpdateObject obj (Inr ()) # post) # xss2"
    and pos: "ops (h1 @ h3) = concat xss1 @ pre"
    by blast
  then obtain passes1 pass passes2 where passes: "passes = passes1 @ pass # passes2" "map trace_of passes1 = xss1"
      "trace_of pass = pre @ EvUpdateObject obj (Inr ()) # post"
    by (auto simp: map_eq_append_conv map_eq_Cons_conv)
  have all: "history s0 (h1 @ h2) s2" using assms(1,2) unfolding history_append by blast
  have keys: "key_of g = (gvk, ns, name)" if "EvGetObject gvk ns name (Inr g) \<in> set pre" for gvk ns name g
  proof (rule history_get [OF all assms(3)])
    have "EvGetObject gvk ns name (Inr g) \<in> set (ops (h1 @ h2))"
      unfolding assms(4) using that by (auto simp: passes(1,3))
    then show "Op (EvGetObject gvk ns name (Inr g)) \<in> set (h1 @ h2)" by (simp add: in_ops)
  qed
  have "released (fst pass) pre k"
    using update_released [of "fst pass" "snd pass" pre obj "Inr ()" post] passes(3) keys obj by (simp add: trace_of_def)
  moreover have "length (ops h1) \<le> length (concat (map trace_of passes1) @ pre)"
    using pos passes(2) by (metis length_append le_add1 ops_append)
  ultimately show ?thesis
    using passes(1,3) obj
    by (intro exI [of _ passes1] exI [of _ "fst pass"] exI [of _ "snd pass"] exI [of _ passes2] exI [of _ pre] exI [of _ obj]
        exI [of _ post]) (simp add: trace_of_def)
qed

section \<open>Properties\<close>

text \<open>
  C2. A cell outlives its work, end to end: take any history of the API server, over any number of
  passes, with other clients creating, changing and deleting objects anywhere in between, as long as
  they leave the operator's drain finalizer on. If an object that carries the finalizer at one point
  is gone or without it at a later one, then the operator took the finalizer off in between, in a pass
  that had the evidence: that pass observed the cell this object stands for, and replaces it as Failed
  or has cordoned its Node and then read that nothing held a share of its GPU; or it deletes the pool
  and listed the cell, and the cell is drained, the pool says Force, or its drain window is over.
\<close>

theorem cell_outlives_its_work:
  assumes "history s0 h1 s1" and "history s1 h2 s2" and "well_keyed s0"
    and "ops (h1 @ h2) = concat (map trace_of passes)"
    and "guarded s1 k" and "\<not> guarded s2 k"
  shows "\<exists>passes1 env cache passes2 pre obj post. passes = passes1 @ (env, cache) # passes2 \<and>
    pass_trace env cache = pre @ EvUpdateObject obj (Inr ()) # post \<and> key_of obj = k \<and>
    length (ops h1) \<le> length (concat (map trace_of passes1) @ pre) \<and> released env pre k"
  using assms by (rule guard_lost)

text \<open>And an object that stands for a cell carries the finalizer from the moment the server has it.\<close>

theorem created_cell_guarded:
  assumes "serves s (Op (EvCreateObject obj (Inr new))) s'"
    and "by_name prov sg_cell_object capi_cell_object req obj"
  shows "guarded s' (key_of obj)"
  using assms(1) pv.cell_object [OF assms(2)] by cases (auto simp: guards_def)

section \<open>A concrete history\<close>

text \<open>
  The deletion of \<open>Teardown\<close> against a server that keeps the guest: it is served with its finalizer
  until the operator takes that off, and without it afterwards.
\<close>

definition served_env :: Env where
  "served_env = sample_dying_env\<lparr>en_GetObject := (\<lambda>tr gvk ns n.
     if (gvk, ns, n) \<noteq> key_of sample_guest then Inl not_found
     else if EvUpdateObject (unguarded sample_guest) (Inr ()) \<in> set tr then Inr (unguarded sample_guest) else Inr sample_guest)\<rparr>"

definition sample_store :: "Unstructured \<Rightarrow> store" where
  "sample_store obj = [key_of sample_guest \<mapsto> obj]"

lemma serves_elsewhere: "\<not> on_objects ev \<Longrightarrow> serves s (Op ev) s' \<longleftrightarrow> s' = s"
  by (auto elim: serves.cases intro: serves.elsewhere)

inductive_simps serves_simps:
  "serves s (Op (EvGetObject gvk ns name (Inr g))) s'"
  "serves s (Op (EvUpdateObject obj (Inr ()))) s'"
  "serves s (Op (EvDeleteObject gvk ns name (Inl e))) s'"

lemma history_simps: "history s [] s' \<longleftrightarrow> s' = s" "history s (a # h) s'' \<longleftrightarrow> (\<exists>s'. serves s a s' \<and> history s' h s'')"
  by (auto elim: history_Nil history_Cons intro: history.intros)

lemma history_elsewhere: "\<forall>ev \<in> set evs. \<not> on_objects ev \<Longrightarrow> history s (map Op evs) s' \<longleftrightarrow> s' = s"
  by (induction evs) (auto simp: history_simps serves_elsewhere)

lemma served_server:
  "en_GetPool served_env [] = Inr sample_dying" "en_GetSecret served_env = en_GetSecret sample_env"
  "en_ListObjects served_env tr gvk ns p = Inr [sample_guest]"
  "en_UpdateObject served_env tr obj = Inr ()" "en_DeleteObject served_env tr gvk ns n = Inl refused"
  "en_now served_env = 3600 * Second"
  "en_GetObject served_env tr SwiftGuestGVK ''ns'' ''p-0'' =
     Inr (if EvUpdateObject (unguarded sample_guest) (Inr ()) \<in> set tr then unguarded sample_guest else sample_guest)"
  by (simp_all add: served_env_def sample_dying_env_def sample_env_def key_of_def sample_guest_def newUnstructured_def)

lemma served_client:
  "\<exists>reason msg evs. run_state (workloadClient served_env sample_dying) (wd tr c) = ((None, reason, msg), wd (tr @ evs) c) \<and>
     (\<forall>ev \<in> set evs. \<not> on_objects ev)"
  by (simp add: workloadClient_def get_secret_def io_eval served_server sample_env_def sample_dying_def sample_live_pool_def sample_pool_def Let_def)

lemma sample_store_simps [simp]:
  "sample_store obj (SwiftGuestGVK, ''ns'', ''p-0'') = Some obj"
  "sample_store obj (key_of sample_guest) = Some obj" "(sample_store obj)(key_of sample_guest \<mapsto> new) = sample_store new"
  by (simp_all add: sample_store_def key_of_def sample_guest_def newUnstructured_def)

lemma sample_guest_settles:
  "key_of (unguarded sample_guest) = key_of sample_guest"
  "settled ((unguarded sample_guest)\<lparr>un_DeletionTimestamp := un_DeletionTimestamp sample_guest\<rparr>) = Some (unguarded sample_guest)"
  by (simp_all add: unguarded_def settled_def key_of_def sample_guest_def newUnstructured_def withoutDrainFinalizer_def)

lemma unguarded_sample:
  "sample_guest\<lparr>un_Finalizers := [''other'']\<rparr> = unguarded sample_guest" "un_Finalizers (unguarded sample_guest) = [''other'']"
  "un_Namespace (unguarded sample_guest) = ''ns''" "un_Name (unguarded sample_guest) = ''p-0''"
  "IsZero (un_DeletionTimestamp (unguarded sample_guest))"
  by (simp_all add: unguarded_def withoutDrainFinalizer_def sample_dying_names)

lemma served_delete:
  assumes "cs_Index cell = 0" and "EvUpdateObject (unguarded sample_guest) (Inr ()) \<notin> set tr"
  shows "\<exists>e evs. run_state (deleteCell served_env sample_dying ProvisionerSwiftGuest cell True) (wd tr c) = (Inl e, wd (tr @ evs) c) \<and>
    history (sample_store sample_guest) (map Op evs) (sample_store (unguarded sample_guest))"
proof -
  obtain reason msg e1 where "run_state (workloadClient served_env sample_dying) (wd tr c) = ((None, reason, msg), wd (tr @ e1) c)"
    and quiet: "\<forall>ev \<in> set e1. \<not> on_objects ev"
    using served_client by blast
  moreover have "EvUpdateObject (unguarded sample_guest) (Inr ()) \<notin> set e1" using quiet by auto
  ultimately show ?thesis
    using assms
    by (simp add: deleteCell_def prov_ClearDrainFinalizer_def prov_Delete_def bracket_def by_name_def sg_ClearDrainFinalizer_def
        clear_finalizer_def sg_Delete_def remove_object_def delete_object_def update_object_def get_object_def
        withoutDrainFinalizer_def io_eval Let_def served_server(4-7) sample_dying_names unguarded_sample
        history_append history_elsewhere [OF quiet] history_simps serves_elsewhere serves_simps sample_guest_settles)
qed

lemma served_drain:
  assumes "cs_Index cell = 0" and "EvUpdateObject (unguarded sample_guest) (Inr ()) \<notin> set tr"
  shows "\<exists>e evs. run_state (progressDrain served_env sample_dying ProvisionerSwiftGuest None cell True s) (wd tr c) =
      (Inl e, wd (tr @ evs) c) \<and> history (sample_store sample_guest) (map Op evs) (sample_store (unguarded sample_guest))"
proof -
  let ?dec = "AdvanceDrain zero_Allocations False True True s (3600 * Second) (drainTimeout sample_dying)"
  let ?cell = "cell\<lparr>cs_Reason := dd_Reason ?dec, cs_Message := dd_Message ?dec\<rparr>"
  have "dd_Proceed ?dec" by (simp add: AdvanceDrain_def Let_def)
  moreover obtain e evs where
      "run_state (deleteCell served_env sample_dying ProvisionerSwiftGuest ?cell True) (wd tr c) = (Inl e, wd (tr @ evs) c)"
      "history (sample_store sample_guest) (map Op evs) (sample_store (unguarded sample_guest))"
    using served_delete [of ?cell tr c] assms by auto
  ultimately show ?thesis
    by (simp add: progressDrain_def attempt_def Let_def sample_dying_names(3) served_server(6))
qed

lemma served_history:
  "history (sample_store sample_guest) (map Op (pass_trace served_env [])) (sample_store (unguarded sample_guest))"
proof -
  obtain reason msg e1 where e1: "run_state (workloadClient served_env sample_dying) (wd [EvRead ''GetPool''] []) =
      ((None, reason, msg), wd ([EvRead ''GetPool''] @ e1) [])" and quiet: "\<forall>ev \<in> set e1. \<not> on_objects ev"
    using served_client by blast
  let ?tr = "([EvRead ''GetPool''] @ e1) @ [EvListObjects SwiftGuestGVK ''ns'' (po_Name sample_dying) (Inr [sample_guest]),
    EvList (po_Name sample_dying) (Inr [''p-0''])]"
  have "EvUpdateObject (unguarded sample_guest) (Inr ()) \<notin> set ?tr" using quiet by auto
  then obtain e evs where "run_state (progressDrain served_env sample_dying ProvisionerSwiftGuest None
        (drain_row sample_dying (3600 * Second) ''p-0'' 0) True (transitionOr (po_DeletionTimestamp sample_dying) (3600 * Second))) (wd ?tr []) =
      (Inl e, wd (?tr @ evs) [])"
      "history (sample_store sample_guest) (map Op evs) (sample_store (unguarded sample_guest))"
    using served_drain [OF sample_dying_names(2)] by blast
  then show ?thesis
    by (simp add: sample_dying_run [OF served_server(1)] reconcileDeletion_def e1 prov_List_def by_name_def sg_List_def
        listCellNames_def io_eval Let_def served_server(3,6) sample_dying_names
        history_append history_elsewhere [OF quiet] history_simps serves_elsewhere)
qed

theorem cell_outlives_its_work_witness:
  "\<exists>pre obj post. pass_trace served_env [] = pre @ EvUpdateObject obj (Inr ()) # post \<and>
     key_of obj = (SwiftGuestGVK, ''ns'', ''p-0'') \<and> released served_env pre (SwiftGuestGVK, ''ns'', ''p-0'')"
proof -
  let ?k = "(SwiftGuestGVK, ''ns'', ''p-0'')" and ?s = "sample_store sample_guest"
  have k: "key_of sample_guest = ?k" by (simp add: key_of_def sample_guest_def newUnstructured_def)
  have keyed: "well_keyed ?s" by (simp add: well_keyed_def sample_store_def)
  have one: "ops ([] @ map Op (pass_trace served_env [])) = concat (map trace_of [(served_env, [])])"
    by (simp add: ops_map trace_of_def)
  have before: "guarded ?s ?k" and after: "\<not> guarded (sample_store (unguarded sample_guest)) ?k"
    by (simp_all add: guarded_def guards_def unguarded_sample sample_dying_names)
  obtain passes1 env cache passes2 pre obj post where
    "[(served_env, [])] = passes1 @ (env, cache) # passes2" "pass_trace env cache = pre @ EvUpdateObject obj (Inr ()) # post"
    "key_of obj = ?k" "released env pre ?k"
    using cell_outlives_its_work [OF history.empty served_history keyed one before after] by metis
  then show ?thesis by (auto simp: Cons_eq_append_conv)
qed

end
