(* ===== verification/CreationPass.thy ===== *)
theory CreationPass
  imports PassProgress ApiServer
begin

text \<open>
  A concrete pass that creates a cell: the workload cluster answers, the pool wants one cell and has
  none, and the API server is empty and remembers what is created. The pass plans cell 0, creates its
  seed profile and its guest, observes the pool again and writes its status.
\<close>

section \<open>A server that remembers\<close>

definition build :: "object_key \<Rightarrow> Unstructured option \<Rightarrow> event \<Rightarrow> Unstructured option" where
  "build k m ev = (case ev of EvCreateObject obj (Inr new) \<Rightarrow> if key_of obj = k then Some new else m | _ \<Rightarrow> m)"

definition built :: "event list \<Rightarrow> store" where
  "built tr k = foldl (build k) None tr"

lemma built_append: "built (tr @ evs) k = foldl (build k) (built tr k) evs"
  by (simp add: built_def)

fun fits :: "event list \<Rightarrow> event \<Rightarrow> bool" where
  \<comment> \<open>the answer this server gives\<close>
  "fits pre (EvGetObject gvk ns name r) \<longleftrightarrow> (case built pre (gvk, ns, name) of None \<Rightarrow> r = Inl not_found | Some g \<Rightarrow> r = Inr g)"
| "fits pre (EvCreateObject obj r) \<longleftrightarrow>
     (\<exists>new. r = Inr new \<and> built pre (key_of obj) = None \<and> key_of new = key_of obj \<and> un_Finalizers new = un_Finalizers obj)"
| "fits pre (EvUpdateObject obj r) \<longleftrightarrow> False"
| "fits pre (EvDeleteObject gvk ns name r) \<longleftrightarrow> False"
| "fits pre _ \<longleftrightarrow> True"

lemma build_elsewhere: "\<not> on_objects ev \<Longrightarrow> build k m ev = m" "\<not> on_objects ev \<Longrightarrow> fits pre ev"
  by (cases ev; simp add: build_def)+

lemma fits_serves: "fits pre ev \<Longrightarrow> serves (built pre) (Op ev) (built (pre @ [ev]))"
proof (cases "on_objects ev")
  case False
  then have "built (pre @ [ev]) = built pre" by (simp add: fun_eq_iff built_append build_elsewhere)
  with False show ?thesis by (simp add: serves.elsewhere)
next
  case True
  assume fit: "fits pre ev"
  from True fit show ?thesis
  proof (cases ev)
    case (EvGetObject gvk ns name r)
    moreover have "built (pre @ [ev]) = built pre" by (simp add: fun_eq_iff built_append EvGetObject build_def)
    ultimately show ?thesis using fit by (auto intro: serves.get serves.get_failed split: option.splits)
  next
    case (EvCreateObject obj r)
    then obtain new where new: "r = Inr new" "built pre (key_of obj) = None" "key_of new = key_of obj" "un_Finalizers new = un_Finalizers obj"
      using fit by auto
    have "built (pre @ [ev]) = (built pre)(key_of obj \<mapsto> new)"
      by (auto simp: fun_eq_iff built_append EvCreateObject new(1) build_def)
    then show ?thesis using new by (simp add: EvCreateObject serves.created)
  qed simp_all
qed

lemma fits_history: "obeys fits tr \<Longrightarrow> history Map.empty (map Op tr) (built tr)"
proof (induction tr rule: rev_induct)
  case Nil
  show ?case by (simp add: built_def history.empty)
next
  case (snoc ev tr)
  then show ?case by (auto simp: history_append intro!: history.step [OF fits_serves history.empty])
qed

lemma built_stays:
  "obeys fits (pre @ post) \<Longrightarrow> built pre k = Some g \<Longrightarrow> built (pre @ post) k = Some g"
proof (induction post rule: rev_induct)
  case (snoc ev post)
  then have "built (pre @ post) k = Some g" "fits (pre @ post) ev"
    using obeys_snoc [of fits "pre @ post" ev] by simp_all
  then show ?case
    using built_append [of "pre @ post" "[ev]" k] by (cases ev) (auto simp: build_def split: sum.splits)
qed simp

text \<open>Stretches of calls, the calls before them and their answers.\<close>

primrec follows :: "event list \<Rightarrow> event list \<Rightarrow> bool" where
  "follows tr [] \<longleftrightarrow> True"
| "follows tr (ev # evs) \<longleftrightarrow> fits tr ev \<and> follows (tr @ [ev]) evs"

lemma obeys_follows: "obeys fits (tr @ evs) \<longleftrightarrow> obeys fits tr \<and> follows tr evs"
proof (induction evs arbitrary: tr)
  case (Cons ev evs)
  then show ?case using Cons.IH [of "tr @ [ev]"] by simp
qed simp

lemma follows_append: "follows tr (a @ b) \<longleftrightarrow> follows tr a \<and> follows (tr @ a) b"
  by (induction a arbitrary: tr) auto

definition silent :: "event list \<Rightarrow> bool" where
  "silent evs \<longleftrightarrow> (\<forall>ev \<in> set evs. \<not> on_objects ev)"

lemma silent_simps [simp]: "silent []" "silent (ev # evs) \<longleftrightarrow> \<not> on_objects ev \<and> silent evs" "silent (a @ b) \<longleftrightarrow> silent a \<and> silent b"
  by (auto simp: silent_def)

lemma silent_follows: "silent evs \<Longrightarrow> follows tr evs"
  by (induction evs arbitrary: tr) (auto simp: silent_def build_elsewhere)

lemma built_silent: "silent evs \<Longrightarrow> built (tr @ evs) = built tr"
  by (induction evs arbitrary: tr rule: rev_induct) (auto simp: fun_eq_iff built_append build_elsewhere)

lemma built_silent_last: "\<not> on_objects ev \<Longrightarrow> built (a @ b @ c @ [ev]) = built (a @ b @ c)"
  using built_silent [of "[ev]" "a @ b @ c"] by simp

section \<open>The pool and its clusters\<close>

definition birth_pool :: GPUCellPool where
  "birth_pool = sample_new_pool\<lparr>po_Spec := (po_Spec sample_new_pool)\<lparr>sp_Cell := (sp_Cell (po_Spec sample_new_pool))\<lparr>
     ce_GuestTemplate := cr_GuestTemplate sample_request,
     ce_GPU := \<lparr>gs_Count = 1, gs_Backend = GPUBackendNative, gs_DRA = None, gs_Native = Some \<lparr>gn_GPUProfileRef = ''gpu''\<rparr>\<rparr>\<rparr>\<rparr>\<rparr>"

definition born_guest :: Unstructured where
  "born_guest = sample_guest\<lparr>un_Finalizers := [FinalizerCellDrain]\<rparr>"

definition birth_env :: Env where
  "birth_env = sample_env\<lparr>en_GetPool := (\<lambda>_. Inr birth_pool), en_GetSecret := (\<lambda>_ _ _. Inr sample_secret),
     en_GetObject := (\<lambda>tr gvk ns n. case built tr (gvk, ns, n) of None \<Rightarrow> Inl not_found | Some g \<Rightarrow> Inr g),
     en_CreateObject := (\<lambda>_ obj. Inr (if un_GVK obj = SwiftGuestGVK then born_guest else obj)),
     en_ListObjects := (\<lambda>tr gvk ns p. Inr (case built tr (gvk, ns, ''p-0'') of None \<Rightarrow> [] | Some g \<Rightarrow> [g]))\<rparr>"

lemma birth_server:
  "en_GetPool birth_env tr = Inr birth_pool" "en_GetSecret birth_env tr ns n = Inr sample_secret"
  "en_GetObject birth_env tr gvk ns n = (case built tr (gvk, ns, n) of None \<Rightarrow> Inl not_found | Some g \<Rightarrow> Inr g)"
  "en_CreateObject birth_env tr obj = Inr (if un_GVK obj = SwiftGuestGVK then born_guest else obj)"
  "en_ListObjects birth_env tr gvk ns p = Inr (case built tr (gvk, ns, ''p-0'') of None \<Rightarrow> [] | Some g \<Rightarrow> [g])"
  "en_now birth_env = 3600 * Second" "en_Probe birth_env tr cs = Inr ()" "en_ListNodes birth_env tr cs = (\<lambda>_. Inr [])"
  "en_UpdateSecret birth_env tr s = Inr ()" "en_UpdateStatus birth_env tr pool = Inr ()" "en_GetNode birth_env tr cs n = Inl not_found"
  "en_restConfig birth_env = Inr" "en_newClient birth_env = Inr"
  by (simp_all add: birth_env_def sample_env_def)

lemma birth_names:
  "po_Name birth_pool = ''p''" "po_Namespace birth_pool = ''ns''" "provisioner birth_pool = Inr ProvisionerSwiftGuest"
  "IsZero (po_DeletionTimestamp birth_pool)" "FinalizerPool \<in> set (po_Finalizers birth_pool)"
  "st_Cells (po_Status birth_pool) = []" "\<not> capiOwnsBootstrap birth_pool" "ParseIndex ''p'' ''p-0'' = Inr 0"
  "Name ''p'' 0 = ''p-0''" "\<not> needsIdleness birth_pool" "\<not> autoscalingEnabled birth_pool"
  by code_simp+

section \<open>The pass, step by step\<close>

lemma birth_client:
  "\<exists>evs cache. run_state (workloadClient birth_env birth_pool) (wd tr []) = ((Some ''k'', ReasonConnected, []), wd (tr @ evs) cache) \<and> silent evs"
proof -
  have "For Inr Inr (clientKey birth_pool) sample_secret (wc_Key (sp_WorkloadCluster (po_Spec birth_pool))) [] =
      (Inr ''k'', [(clientKey birth_pool, \<lparr>ce_resourceVersion = ''1'', ce_client = ''k''\<rparr>)])" by code_simp
  then show ?thesis
    by (simp add: workloadClient_def get_secret_def client_for_def io_eval Let_def birth_server)
qed

lemma birth_seed:
  "\<exists>evs. run_state (ensureBootstrapSecret birth_env birth_pool 0) (wd tr c) = (Inr (), wd (tr @ evs) c) \<and> silent evs"
proof -
  have "Render ''x'' (bootstrap_values birth_pool 0) = Inr ''x''" "bs_JoinSecretRef (sp_Bootstrap (po_Spec birth_pool)) = Some ''join''"
    "map_of (se_Data sample_secret) (if bs_JoinSecretKey (sp_Bootstrap (po_Spec birth_pool)) = [] then SecretKey
       else bs_JoinSecretKey (sp_Bootstrap (po_Spec birth_pool))) = Some ''x''"
    by code_simp+
  then show ?thesis
    by (simp add: ensureBootstrapSecret_def store_bootstrap_def get_secret_def io_eval birth_server birth_names Let_def)
qed

abbreviation birth_req :: CellRequest where
  "birth_req \<equiv> cellRequest birth_env birth_pool 0"

definition birth_store :: store where
  "birth_store = [(SwiftSeedProfileGVK, ''ns'', ''p-0-seed'') \<mapsto> seed_object birth_req, (SwiftGuestGVK, ''ns'', ''p-0'') \<mapsto> born_guest]"

lemma birth_req:
  "cr_Namespace birth_req = ''ns''" "cr_CellName birth_req = ''p-0''" "cr_NodeIPFrom birth_req = []" "SeedName ''p-0'' = ''p-0-seed''"
  "\<exists>spec. renderGuestSpec birth_req = Inr spec"
proof -
  have "ValidateTemplate (cr_GuestTemplate birth_req) = Inr ()" "ValidateGPU (cr_GPU birth_req) = Inr ()" by code_simp+
  then show "\<exists>spec. renderGuestSpec birth_req = Inr spec" by (simp add: renderGuestSpec_succeeds)
qed code_simp+

lemma birth_objects:
  "un_GVK (seed_object birth_req) = SwiftSeedProfileGVK" "un_GVK (guest_object birth_req spec) = SwiftGuestGVK"
  "key_of (seed_object birth_req) = (SwiftSeedProfileGVK, ''ns'', ''p-0-seed'')"
  "key_of (guest_object birth_req spec) = (SwiftGuestGVK, ''ns'', ''p-0'')" "key_of born_guest = (SwiftGuestGVK, ''ns'', ''p-0'')"
  "un_Finalizers born_guest = [FinalizerCellDrain]" "un_Finalizers (guest_object birth_req spec) = [FinalizerCellDrain]"
  by (simp_all add: key_of_def seed_object_def guest_object_def newUnstructured_def birth_req birth_names born_guest_def sample_guest_def)

lemma birth_Ensure_new:
  assumes "built tr = Map.empty"
  shows "\<exists>evs. run_state (prov_Ensure birth_env ProvisionerSwiftGuest birth_req) (wd tr c) = (Inr (observe born_guest []), wd (tr @ evs) c) \<and>
    follows tr evs \<and> built (tr @ evs) = birth_store"
proof -
  obtain spec where spec: "renderGuestSpec birth_req = Inr spec" using birth_req(5) by blast
  have none: "built tr k = None" for k by (simp add: assms)
  show ?thesis
    by (simp add: prov_Ensure_def bracket_def by_name_def sg_Ensure_def ensureSeedProfile_def ensureGuest_def get_object_def create_object_def
        io_eval Let_def birth_server birth_req birth_names spec birth_objects built_append none build_def birth_store_def fun_eq_iff)
qed

lemma birth_Ensure_again:
  assumes "built tr = birth_store"
  shows "\<exists>evs. run_state (prov_Ensure birth_env ProvisionerSwiftGuest birth_req) (wd tr c) = (Inr (observe born_guest []), wd (tr @ evs) c) \<and>
    follows tr evs \<and> built (tr @ evs) = birth_store"
proof -
  have some: "built tr (SwiftSeedProfileGVK, ''ns'', ''p-0-seed'') = Some (seed_object birth_req)" "built tr (SwiftGuestGVK, ''ns'', ''p-0'') = Some born_guest"
    by (simp_all add: assms birth_store_def)
  show ?thesis
    by (simp add: prov_Ensure_def bracket_def by_name_def sg_Ensure_def ensureSeedProfile_def ensureGuest_def get_object_def create_object_def
        io_eval Let_def birth_server birth_req birth_names birth_objects built_append some build_def fun_eq_iff) (simp add: assms)
qed

lemma birth_createCell:
  assumes "built tr = Map.empty" and "same_pool p birth_pool"
  shows "\<exists>evs. run_state (createCell birth_env p ProvisionerSwiftGuest 0) (wd tr c) = (Inr (), wd (tr @ evs) c) \<and>
    follows tr evs \<and> built (tr @ evs) = birth_store"
proof -
  have p: "ensureBootstrapSecret birth_env p 0 = ensureBootstrapSecret birth_env birth_pool 0" "cellRequest birth_env p = cellRequest birth_env birth_pool"
    "po_Name p = ''p''"
    by (simp_all only: ensureBootstrapSecret_def same_pool_simps [OF assms(2)] birth_names(1))
  have valid: "ValidatePool (en_dns1123 birth_env) ''p'' = None" by code_simp
  obtain e1 where e1: "run_state (ensureBootstrapSecret birth_env birth_pool 0) (wd tr c) = (Inr (), wd (tr @ e1) c)" "silent e1"
    using birth_seed by blast
  obtain e2 where "run_state (prov_Ensure birth_env ProvisionerSwiftGuest birth_req) (wd (tr @ e1) c) = (Inr (observe born_guest []), wd ((tr @ e1) @ e2) c)"
    "follows (tr @ e1) e2" "built ((tr @ e1) @ e2) = birth_store"
    using birth_Ensure_new [of "tr @ e1"] built_silent [OF e1(2)] assms(1) by metis
  then show ?thesis
    using silent_follows [OF e1(2)] by (simp add: createCell_def valid p attempt_def e1(1) follows_append)
qed

section \<open>Observing and deciding\<close>

definition birth_reading :: "InnerReading option" where
  "birth_reading = Some \<lparr>in_Node = zero_NodeState, in_Health = None, in_Devices = None\<rparr>"

definition birth_provider :: HAMiProvider where
  "birth_provider = provider birth_env birth_pool ''k'' []"

definition birth_capacity :: Capacity where
  "birth_capacity = (case provider_Capacity birth_provider [] of Inl e \<Rightarrow> zero_Capacity | Inr cap \<Rightarrow> cap)"

definition birth_readings :: Readings where
  "birth_readings = zero_Readings\<lparr>rg_health := (case provider_Health birth_provider [] of Inl e \<Rightarrow>
       \<lparr>he_Ready = False, he_Reason = ReasonHAMiNotDetected, he_Message = error_text e\<rparr> | Inr h \<Rightarrow> h),
     rg_cap0 := birth_capacity, rg_capacityKnown := True\<rparr>"

definition birth_free :: "goint option" where
  "birth_free = free_of (physicalInventory (en_Outer birth_env []) birth_pool)"

definition birth_scale :: ScaleDecision where
  "birth_scale = DecideScale (scale_input birth_pool [] [] zero_Demand False False birth_free (3600 * Second))"

definition birth_stamped :: GPUCellPool where
  "birth_stamped = birth_pool\<lparr>po_Status := stamp_scaling (3600 * Second) zero_Demand False birth_scale (po_Status birth_pool)\<rparr>"

definition birth_plan :: MembershipPlan where
  "birth_plan = PlanMembership (membership_input birth_stamped [] birth_scale birth_free True (he_Ready (rg_health birth_readings)) (3600 * Second))"

lemma birth_outer:
  "free_of (physicalInventory (en_Outer birth_env tr) birth_pool) = birth_free" "provider birth_env birth_pool ''k'' tr = birth_provider"
  by (simp_all add: birth_env_def sample_env_def provider_def birth_provider_def birth_free_def)

lemma birth_pure:
  "provider_Capacity birth_provider [] = Inr birth_capacity" "mp_Create birth_plan = [0]" "mp_Drain birth_plan = []"
  "remember_shape (3600 * Second) birth_capacity birth_pool = birth_pool" "scale_events birth_pool birth_scale = []" "readyNodeNames [] = []"
  "tombstones (sp_Replicas (po_Spec birth_pool)) (previous_rows []) [] = []"
  by code_simp+

lemma birth_same: "same_pool birth_stamped birth_pool"
  unfolding birth_stamped_def by (rule same_pool_steps)

lemma birth_nothing_yet:
  assumes "built tr = Map.empty"
  shows "\<exists>evs. run_state (discoverCells birth_env birth_pool ProvisionerSwiftGuest (Some ''k'')) (wd tr c) = (Inr [], wd (tr @ evs) c) \<and> silent evs"
  by (simp add: discoverCells_def prov_List_def by_name_def sg_List_def listCellNames_def reapOrphanNodes_def list_pool_nodes_def ListPoolNodes_def
      io_eval Let_def birth_server birth_names birth_pure assms)

lemma birth_readings:
  "\<exists>evs. run_state (read_capacity birth_env birth_pool (Some ''k'') []) (wd tr c) = (birth_readings, wd (tr @ evs) c) \<and> silent evs"
  by (simp add: read_capacity_def provider_health_def read_demand_def scrape_error_def io_eval Let_def birth_outer birth_pure birth_names
      birth_readings_def)

lemma birth_decision:
  assumes "built tr = Map.empty"
  shows "\<exists>pd evs. run_state (decide_pass birth_env birth_pool ProvisionerSwiftGuest (Some ''k'')) (wd tr c) = (Inr pd, wd (tr @ evs) c) \<and>
    silent evs \<and> pd = \<lparr>pd_pool = birth_stamped, pd_cells = [], pd_freeGPUs = birth_free, pd_readings = birth_readings, pd_idle = [],
      pd_scale = birth_scale, pd_plan = birth_plan\<rparr>"
proof -
  obtain e1 where e1: "run_state (discoverCells birth_env birth_pool ProvisionerSwiftGuest (Some ''k'')) (wd tr c) = (Inr [], wd (tr @ e1) c)" "silent e1"
    using birth_nothing_yet [OF assms] by blast
  obtain e2 where e2: "run_state (read_capacity birth_env birth_pool (Some ''k'') []) (wd ((tr @ e1) @ [EvRead ''Inventory'']) c) =
      (birth_readings, wd (((tr @ e1) @ [EvRead ''Inventory'']) @ e2) c)" "silent e2"
    using birth_readings by blast
  have rg: "rg_cap0 birth_readings = birth_capacity" "rg_demand birth_readings = zero_Demand" "\<not> rg_demandKnown birth_readings" "rg_shape birth_readings = None"
    by (simp_all add: birth_readings_def zero_Readings_def)
  show ?thesis
    using e1(2) e2(2)
    by (simp add: decide_pass_def read_idle_def io_eval Let_def e1(1) e2(1) [simplified] rg birth_outer birth_server birth_names birth_pure
        birth_scale_def [symmetric] birth_stamped_def [symmetric] birth_plan_def [symmetric])
qed

section \<open>Acting\<close>

definition born_row :: CellStatus where
  "born_row = next_row birth_stamped ''p-0'' 0 zero_CellStatus (observe born_guest []) birth_reading (3600 * Second)"

lemma birth_stamped_names:
  "po_Name birth_stamped = ''p''" "po_Namespace birth_stamped = ''ns''" "st_Cells (po_Status birth_stamped) = []"
  by code_simp+

lemma birth_stamped_same:
  "cellRequest birth_env birth_stamped = cellRequest birth_env birth_pool"
  "ensureBootstrapSecret birth_env birth_stamped 0 = ensureBootstrapSecret birth_env birth_pool 0"
  "prov_List birth_env ProvisionerSwiftGuest birth_stamped = prov_List birth_env ProvisionerSwiftGuest birth_pool"
  by (simp_all only: ensureBootstrapSecret_def prov_List_def same_pool_simps [OF birth_same])

lemma born_pure:
  "previous_of (previous_rows []) ''p-0'' = zero_CellStatus"
  "tombstones (sp_Replicas (po_Spec birth_stamped)) (previous_rows []) [''p-0''] = []" "cs_Name born_row = ''p-0''"
  "\<not> de_ReapStaleNode (AdvanceCell (observation_of birth_stamped (previous_row zero_CellStatus (observe born_guest [])) (observe born_guest [])
     birth_reading (3600 * Second)))"
  "cs_Phase born_row \<noteq> CellPhaseFailed" "cs_Phase born_row \<noteq> CellPhaseDraining"
  "de_Phase (AdvanceCell (observation_of birth_stamped (previous_row zero_CellStatus (observe born_guest [])) (observe born_guest [])
     birth_reading (3600 * Second))) \<noteq> CellPhaseFailed"
  "rr_Drain (PlanRollout (rollout_input birth_env birth_stamped [born_row] [] True birth_scale birth_plan)) = []"
  "un_Name born_guest = ''p-0''" "sort [''p-0''] = [''p-0'']" "stale_node zero_NodeState (observe born_guest []) = False"
  by code_simp+

lemma born_list:
  assumes "built tr = birth_store"
  shows "\<exists>evs. run_state (prov_List birth_env ProvisionerSwiftGuest birth_pool) (wd tr c) = (Inr [''p-0''], wd (tr @ evs) c) \<and> silent evs"
  by (simp add: prov_List_def by_name_def sg_List_def listCellNames_def io_eval Let_def birth_server birth_names assms birth_store_def born_pure)

lemma born_discover:
  assumes "built tr = birth_store"
  shows "\<exists>evs. run_state (discover_cell birth_env birth_stamped ProvisionerSwiftGuest (Some ''k'') zero_CellStatus ''p-0'' 0) (wd tr c) =
      (Inr born_row, wd (tr @ evs) c) \<and> follows tr evs \<and> built (tr @ evs) = birth_store"
proof -
  let ?obs = "observation_of birth_stamped (previous_row zero_CellStatus (observe born_guest [])) (observe born_guest []) birth_reading (3600 * Second)"
  obtain e1 where e1: "run_state (ensureBootstrapSecret birth_env birth_pool 0) (wd tr c) = (Inr (), wd (tr @ e1) c)" "silent e1"
    using birth_seed by blast
  obtain e2 where e2: "run_state (prov_Ensure birth_env ProvisionerSwiftGuest birth_req) (wd (tr @ e1) c) = (Inr (observe born_guest []), wd ((tr @ e1) @ e2) c)"
    "follows (tr @ e1) e2" "built ((tr @ e1) @ e2) = birth_store"
    using birth_Ensure_again [of "tr @ e1"] built_silent [OF e1(2)] assms by metis
  have inner: "run_state (read_inner birth_env birth_stamped (Some ''k'') ''p-0'' 0 (observe born_guest [])) (wd t c) =
      (Inr birth_reading, wd (t @ [EvNodeState ''k'' ''p-0'' (Inr zero_NodeState)]) c)" for t
    by (simp add: read_inner_def get_node_state_def GetNodeState_def io_eval Let_def birth_server birth_reading_def)
      (simp add: zero_NodeState_def)
  have row: "cellStatus (previous_row zero_CellStatus (observe born_guest [])) ''p-0'' 0 (observe born_guest []) ?obs (AdvanceCell ?obs) (3600 * Second) = born_row"
    by (simp add: born_row_def next_row_def Let_def)
  have quiet: "row_metrics birth_stamped (previous_row zero_CellStatus (observe born_guest [])) (observe born_guest []) (AdvanceCell ?obs) (3600 * Second) = []"
    by code_simp
  show ?thesis
    using e2(2,3) silent_follows [OF e1(2)]
    by (simp add: discover_cell_def io_eval Let_def birth_stamped_same birth_server e1(1) e2(1) [simplified] inner born_pure row quiet
        follows_append built_silent_last)
qed

lemma born_discovery:
  assumes "built tr = birth_store"
  shows "\<exists>evs. run_state (discoverCells birth_env birth_stamped ProvisionerSwiftGuest (Some ''k'')) (wd tr c) = (Inr [born_row], wd (tr @ evs) c) \<and>
    follows tr evs \<and> built (tr @ evs) = birth_store"
proof -
  obtain e1 where e1: "run_state (prov_List birth_env ProvisionerSwiftGuest birth_pool) (wd tr c) = (Inr [''p-0''], wd (tr @ e1) c)" "silent e1"
    using born_list [OF assms] by blast
  obtain e2 where e2: "run_state (discover_cell birth_env birth_stamped ProvisionerSwiftGuest (Some ''k'') zero_CellStatus ''p-0'' 0) (wd (tr @ e1) c) =
      (Inr born_row, wd ((tr @ e1) @ e2) c)" "follows (tr @ e1) e2" "built ((tr @ e1) @ e2) = birth_store"
    using born_discover [of "tr @ e1"] built_silent [OF e1(2)] assms by metis
  show ?thesis
    using e2(2,3) silent_follows [OF e1(2)]
    by (simp add: discoverCells_def reapOrphanNodes_def list_pool_nodes_def ListPoolNodes_def io_eval Let_def birth_stamped_same birth_stamped_names
        birth_names birth_server e1(1) e2(1) [simplified] born_pure follows_append built_silent_last)
qed

lemma birth_act:
  assumes "built tr = Map.empty"
  shows "\<exists>rollout evs. run_state (act birth_env birth_stamped ProvisionerSwiftGuest (Some ''k'') ready [] birth_scale birth_plan []) (wd tr c) =
      (Inr ([born_row], rollout), wd (tr @ evs) c) \<and> follows tr evs \<and> built (tr @ evs) = birth_store"
proof -
  obtain e1 where e1: "run_state (createCell birth_env birth_stamped ProvisionerSwiftGuest 0) (wd tr c) = (Inr (), wd (tr @ e1) c)"
    "follows tr e1" "built (tr @ e1) = birth_store"
    using birth_createCell [OF assms birth_same] by blast
  let ?ev = "EvEvent EventTypeNormal ReasonCellCreating (''creating cell '' @ ''p-0'')"
  have again: "built ((tr @ e1) @ [?ev]) = birth_store" using e1(3) built_silent [of "[?ev]" "tr @ e1"] by simp
  obtain e2 where e2: "run_state (discoverCells birth_env birth_stamped ProvisionerSwiftGuest (Some ''k'')) (wd ((tr @ e1) @ [?ev]) c) =
      (Inr [born_row], wd (((tr @ e1) @ [?ev]) @ e2) c)" "follows ((tr @ e1) @ [?ev]) e2" "built (((tr @ e1) @ [?ev]) @ e2) = birth_store"
    using born_discovery [OF again] by blast
  have keep: "\<not> ShouldReplace born_row t ready" for t using born_pure(5) by (simp add: ShouldReplace_def)
  show ?thesis
    using e1(2) e2(2,3)
    by (simp add: act_def create_cells_def replace_failed_def drain_cells_def io_eval Let_def birth_pure birth_stamped_names birth_names
        birth_server e1(1) e2(1) [simplified] born_pure keep follows_append)
qed

lemma birth_pass:
  "pass_pool birth_env ProvisionerSwiftGuest birth_pool"
  "\<exists>d w pd w0. run_state (Reconcile birth_env) (wd [] []) = (Inr d, w) \<and> obeys fits (wo_trace w) \<and> built (wo_trace w) = birth_store \<and>
     pass_decision birth_env ProvisionerSwiftGuest birth_pool [] = (Inr pd, w0) \<and> pd_plan pd = birth_plan"
proof -
  show pass: "pass_pool birth_env ProvisionerSwiftGuest birth_pool"
    using birth_names birth_server(1) by (auto simp: pass_pool_def)
  let ?t0 = "[EvRead ''GetPool'']"
  have start: "pass_start birth_env = ?t0" using birth_names by (simp add: pass_start_def birth_server)
  obtain e1 cache where e1: "run_state (workloadClient birth_env birth_pool) (wd ?t0 []) = ((Some ''k'', ReasonConnected, []), wd (?t0 @ e1) cache)" "silent e1"
    using birth_client by blast
  have t0: "silent (?t0 @ e1)" using e1(2) by simp
  have empty: "built (?t0 @ e1) = Map.empty" using built_silent [OF t0, of "[]"] by (simp add: built_def fun_eq_iff)
  obtain pd e2 where e2: "run_state (decide_pass birth_env birth_pool ProvisionerSwiftGuest (Some ''k'')) (wd (?t0 @ e1) cache) =
      (Inr pd, wd ((?t0 @ e1) @ e2) cache)" "silent e2"
    and pd: "pd = \<lparr>pd_pool = birth_stamped, pd_cells = [], pd_freeGPUs = birth_free, pd_readings = birth_readings, pd_idle = [],
      pd_scale = birth_scale, pd_plan = birth_plan\<rparr>"
    using birth_decision [OF empty] by blast
  have t1: "silent ((?t0 @ e1) @ e2)" using t0 e2(2) by simp
  obtain rollout e3 where e3: "run_state (act birth_env birth_stamped ProvisionerSwiftGuest (Some ''k'') (he_Ready (rg_health birth_readings)) [] birth_scale
      birth_plan []) (wd ((?t0 @ e1) @ e2) cache) = (Inr ([born_row], rollout), wd (((?t0 @ e1) @ e2) @ e3) cache)"
    "follows ((?t0 @ e1) @ e2) e3" "built (((?t0 @ e1) @ e2) @ e3) = birth_store"
    using birth_act built_silent [OF e2(2)] empty by metis
  obtain d e4 where e4: "run_state (finish_pass birth_env ProvisionerSwiftGuest (Some ''k'', ReasonConnected, []) pd) (wd ((?t0 @ e1) @ e2) cache) =
      (Inr d, wd ((((?t0 @ e1) @ e2) @ e3) @ e4) cache)" "silent e4"
    using e3(1) by (simp add: finish_pass_def pd Let_def io_eval birth_server)
  have "run_state (Reconcile birth_env) (wd [] []) = (Inr d, wd ((((?t0 @ e1) @ e2) @ e3) @ e4) cache)"
    by (simp add: Reconcile_start [OF pass] start reconcile_live_def reconcile_with_def attempt_def e1(1) [simplified] e2(1) [simplified] e4(1) [simplified])
  moreover have "obeys fits ((((?t0 @ e1) @ e2) @ e3) @ e4)"
    using obeys_snoc [of fits "[]" "EvRead ''GetPool''", simplified] silent_follows [OF t1, of "[]"] silent_follows [OF e4(2)] e3(2)
    by (simp only: obeys_follows follows_append) simp
  moreover have "built ((((?t0 @ e1) @ e2) @ e3) @ e4) = birth_store" using built_silent [OF e4(2)] e3(3) by metis
  moreover have "pass_decision birth_env ProvisionerSwiftGuest birth_pool [] = (Inr pd, wd ((?t0 @ e1) @ e2) cache)"
    by (simp add: pass_decision_def start e1(1) [simplified] e2(1) [simplified])
  ultimately show "\<exists>d w pd w0. run_state (Reconcile birth_env) (wd [] []) = (Inr d, w) \<and> obeys fits (wo_trace w) \<and> built (wo_trace w) = birth_store \<and>
     pass_decision birth_env ProvisionerSwiftGuest birth_pool [] = (Inr pd, w0) \<and> pd_plan pd = birth_plan"
    using pd by fastforce
qed

end
