(* ===== verification/CellStore.thy ===== *)
theory CellStore
  imports CreationPass
begin

text \<open>
  What the plan of a pass means for the API server: the provisioner's success is the presence of the
  cell's object in the store. Composes the reconciler's plan, the provisioners and the finalizer.
\<close>

lemma history_splitE:
  assumes "history s0 h s1" and "Op ev \<in> set h"
  obtains h1 h2 s s' where "h = h1 @ Op ev # h2" and "history s0 h1 s" and "serves s (Op ev) s'" and "history s' h2 s1"
proof -
  obtain h1 h2 where h: "h = h1 @ Op ev # h2" using assms(2) split_list by metis
  then obtain s where "history s0 h1 s" "history s (Op ev # h2) s1" using assms(1) history_append by metis
  moreover from this(2) obtain s' where "serves s (Op ev) s'" "history s' h2 s1" by (rule history_Cons)
  ultimately show ?thesis using that h by blast
qed

definition let_go :: "Env \<Rightarrow> event list \<Rightarrow> object_key \<Rightarrow> bool" where
  \<comment> \<open>the pass took the finalizer off this object, and had the evidence\<close>
  "let_go env tr k \<longleftrightarrow> (\<exists>pre obj post. tr = pre @ EvUpdateObject obj (Inr ()) # post \<and> key_of obj = k \<and> released env pre k)"

lemma guarded_in_pass:
  assumes "history s0 h s1" and "well_keyed s0" and "ops h = pass_trace env cache"
    and "h = h1 @ h2" and "history s0 h1 s" and "history s h2 s1" and "guarded s k"
  shows "guarded s1 k \<or> let_go env (pass_trace env cache) k"
proof (rule disjCI)
  assume "\<not> let_go env (pass_trace env cache) k"
  moreover have "ops (h1 @ h2) = concat (map trace_of [(env, cache)])" using assms(3,4) by (simp add: trace_of_def)
  ultimately show "guarded s1 k"
    using guard_lost [OF assms(5,6,2) _ assms(7)] by (fastforce simp: let_go_def Cons_eq_append_conv)
qed

lemma seen_cell_stored:
  assumes hist: "history s0 h s1" "well_keyed s0" "ops h = pass_trace env cache"
    and seen: "cell_seen prov (cellRequest env q idx) (pass_trace env cache)"
  shows "guarded s1 (cell_key prov q idx) \<or> let_go env (pass_trace env cache) (cell_key prov q idx) \<or>
    (\<exists>g. EvGetObject (holder_of prov) (po_Namespace q) (Name (po_Name q) idx) (Inr g) \<in> set (pass_trace env cache) \<and> \<not> guards g)"
proof -
  let ?k = "cell_key prov q idx" and ?req = "cellRequest env q idx"
  have req: "cr_Namespace ?req = po_Namespace q" "cr_CellName ?req = Name (po_Name q) idx" by (simp_all add: cellRequest_def Let_def)
  consider (read) g where "EvGetObject (holder_of prov) (po_Namespace q) (Name (po_Name q) idx) (Inr g) \<in> set (pass_trace env cache)"
    | (made) obj stored where "EvCreateObject obj (Inr stored) \<in> set (pass_trace env cache)"
        "by_name prov sg_cell_object capi_cell_object ?req obj"
    using seen unfolding cell_seen_def req by blast
  then show ?thesis
  proof cases
    case read
    then have "Op (EvGetObject (holder_of prov) (po_Namespace q) (Name (po_Name q) idx) (Inr g)) \<in> set h"
      using hist(3) in_ops by metis
    then obtain h1 h2 s s' where h: "h = h1 @ Op (EvGetObject (holder_of prov) (po_Namespace q) (Name (po_Name q) idx) (Inr g)) # h2"
      "history s0 h1 s" "serves s (Op (EvGetObject (holder_of prov) (po_Namespace q) (Name (po_Name q) idx) (Inr g))) s'" "history s' h2 s1"
      by (rule history_splitE [OF hist(1)])
    have s: "s ?k = Some g" "s' = s" using h(3) by (auto elim: serves_get simp: cell_key_def)
    show ?thesis
    proof (cases "guards g")
      case True
      then have "guarded s ?k" using s by (simp add: guarded_def)
      with guarded_in_pass [OF hist h(1,2) history.step [OF h(3,4)]] show ?thesis by blast
    qed (use read in blast)
  next
    case made
    then have "Op (EvCreateObject obj (Inr stored)) \<in> set h" using hist(3) in_ops by metis
    then obtain h1 h2 s s' where h: "h = h1 @ Op (EvCreateObject obj (Inr stored)) # h2" "history s0 h1 s"
      "serves s (Op (EvCreateObject obj (Inr stored))) s'" "history s' h2 s1"
      by (rule history_splitE [OF hist(1)])
    have "key_of obj = ?k"
      using pv.cell_object [OF made(2)] pv.builds_parts [of prov ?req obj] by (simp add: key_of_def cell_key_def req)
    with created_cell_guarded [OF h(3) made(2)] have "guarded s' ?k" by simp
    moreover have "h = (h1 @ [Op (EvCreateObject obj (Inr stored))]) @ h2" "history s0 (h1 @ [Op (EvCreateObject obj (Inr stored))]) s'"
      using h(1,2) history.step [OF h(3) history.empty] by (auto simp: history_append)
    ultimately show ?thesis using guarded_in_pass [OF hist _ _ h(4)] by blast
  qed
qed

section \<open>Properties\<close>

text \<open>
  C14. A pass carries out its plan and leaves nothing undone silently. Take a live pass that ends without
  an error, and what it had read and decided before it began to act. It then ensured every cell its
  plan wants created. It ended by writing a status in which every cell the plan wants drained is
  Draining, every Draining cell either says that it waits for the work on its GPU or was released
  and deleted in this very pass, and every failed cell that is past its backoff, has replacements left
  and would be helped by a rebuild, given the health of the provider the pass had read, was released
  and deleted too.
\<close>

theorem pass_carries_out_plan:
  assumes "pass_pool env prov q" and "run_state (Reconcile env) \<lparr>wo_trace = [], wo_cache = cache\<rparr> = (Inr d, w)"
  shows "\<exists>pd w0 post p. pass_decision env prov q cache = (Inr pd, w0) \<and>
    wo_trace w = wo_trace w0 @ post @ [EvUpdateStatus p (Inr ())] \<and>
    (\<forall>idx \<in> set (mp_Create (pd_plan pd)). \<exists>outer. EvEnsure (cellRequest env q idx) (Inr outer) \<in> set (wo_trace w)) \<and>
    (\<forall>c \<in> set (st_Cells (po_Status p)).
       (cs_Name c \<in> set (mp_Drain (pd_plan pd)) \<longrightarrow> cs_Phase c = CellPhaseDraining) \<and>
       (cs_Phase c = CellPhaseDraining \<longrightarrow>
          cs_Reason c = ReasonWaitingForAllocations \<or> gone_asked (cellRequest env q (cs_Index c)) (wo_trace w)) \<and>
       (ShouldReplace c (en_now env) (he_Ready (rg_health (pd_readings pd))) \<longrightarrow> gone_asked (cellRequest env q (cs_Index c)) (wo_trace w)))"
proof -
  from successful_pass_done [OF assms] obtain pd w0 p post where "pass_decision env prov q cache = (Inr pd, w0)"
    "wo_trace w = wo_trace w0 @ post @ [EvUpdateStatus p (Inr ())]" "acted env (he_Ready (rg_health (pd_readings pd))) q prov (pd_plan pd) (st_Cells (po_Status p)) (wo_trace w)"
    unfolding pass_done_def by (metis append_assoc)
  then show ?thesis unfolding acted_def boot_asked_def drain_settled_def failure_settled_def by blast
qed

theorem pass_carries_out_plan_witness:
  "\<exists>d w pd w0 outer. run_state (Reconcile birth_env) (wd [] []) = (Inr d, w) \<and>
     pass_decision birth_env ProvisionerSwiftGuest birth_pool [] = (Inr pd, w0) \<and> mp_Create (pd_plan pd) = [0] \<and>
     EvEnsure (cellRequest birth_env birth_pool 0) (Inr outer) \<in> set (wo_trace w)"
proof -
  obtain d w pd w0 where run: "run_state (Reconcile birth_env) (wd [] []) = (Inr d, w)"
    and pd: "pass_decision birth_env ProvisionerSwiftGuest birth_pool [] = (Inr pd, w0)" "mp_Create (pd_plan pd) = [0]"
    using birth_pass(2) birth_pure(2) by auto
  from pass_carries_out_plan [OF birth_pass(1) run] pd obtain outer where
    "EvEnsure (cellRequest birth_env birth_pool 0) (Inr outer) \<in> set (wo_trace w)" by force
  with run pd show ?thesis by blast
qed

text \<open>
  C15. What a pass decides to create is there when the pass is over. Take any history of the API server in
  which a live pass runs and ends without an error, with other clients acting anywhere in between as
  long as they leave the drain finalizer on. Then for every cell the plan of the pass wants created,
  the object that stands for the cell is in the store at the end and carries the finalizer; unless
  the pass itself let it go on the evidence of \<open>released\<close>, or found the object there without the
  finalizer.
\<close>

theorem planned_cells_stored:
  assumes "pass_pool env prov q" and "run_state (Reconcile env) \<lparr>wo_trace = [], wo_cache = cache\<rparr> = (Inr d, w)"
    and "history s0 h s1" and "well_keyed s0" and "ops h = wo_trace w"
  shows "\<exists>pd w0. pass_decision env prov q cache = (Inr pd, w0) \<and>
    (\<forall>idx \<in> set (mp_Create (pd_plan pd)). guarded s1 (cell_key prov q idx) \<or> let_go env (wo_trace w) (cell_key prov q idx) \<or>
       (\<exists>g. EvGetObject (holder_of prov) (po_Namespace q) (Name (po_Name q) idx) (Inr g) \<in> set (wo_trace w) \<and> \<not> guards g))"
proof -
  have tr: "wo_trace w = pass_trace env cache" using assms(2) by (simp add: pass_trace_def)
  obtain pd w0 and p :: GPUCellPool where pd: "pass_decision env prov q cache = (Inr pd, w0)"
    "acted env (he_Ready (rg_health (pd_readings pd))) q prov (pd_plan pd) (st_Cells (po_Status p)) (wo_trace w)"
    using successful_pass_done [OF assms(1,2)] unfolding pass_done_def by blast
  have "cell_seen prov (cellRequest env q idx) (pass_trace env cache)" if "idx \<in> set (mp_Create (pd_plan pd))" for idx
    using pd(2) that by (simp add: acted_def boot_asked_def tr)
  with seen_cell_stored [OF assms(3,4)] assms(5) pd(1) show ?thesis unfolding tr by blast
qed

theorem planned_cells_stored_witness:
  "\<exists>pd w0. pass_decision birth_env ProvisionerSwiftGuest birth_pool [] = (Inr pd, w0) \<and> mp_Create (pd_plan pd) = [0] \<and>
     guarded birth_store (cell_key ProvisionerSwiftGuest birth_pool 0)"
proof -
  obtain d w pd w0 where run: "run_state (Reconcile birth_env) (wd [] []) = (Inr d, w)" and fit: "obeys fits (wo_trace w)"
    and end_store: "built (wo_trace w) = birth_store"
    and pd: "pass_decision birth_env ProvisionerSwiftGuest birth_pool [] = (Inr pd, w0)" "pd_plan pd = birth_plan"
    using birth_pass(2) by blast
  have hist: "history Map.empty (map Op (wo_trace w)) birth_store" using fits_history [OF fit] by (simp add: end_store)
  have keyed: "well_keyed Map.empty" by (simp add: well_keyed_def)
  have no_update: "\<not> let_go birth_env (wo_trace w) k" for k
    using obeysD [of fits] fit by (fastforce simp: let_go_def)
  have guards: "guards g" if get: "EvGetObject SwiftGuestGVK ''ns'' ''p-0'' (Inr g) \<in> set (wo_trace w)" for g
  proof -
    obtain pre post where tr: "wo_trace w = pre @ EvGetObject SwiftGuestGVK ''ns'' ''p-0'' (Inr g) # post" using get split_list by metis
    then have "built pre (SwiftGuestGVK, ''ns'', ''p-0'') = Some g"
      using obeysD [OF fit [unfolded tr]] by (simp split: option.splits)
    then have "birth_store (SwiftGuestGVK, ''ns'', ''p-0'') = Some g"
      using built_stays [of pre "EvGetObject SwiftGuestGVK ''ns'' ''p-0'' (Inr g) # post"] fit by (simp add: tr [symmetric] end_store)
    then show ?thesis by (simp add: birth_store_def guards_def birth_objects)
  qed
  have "holder_of ProvisionerSwiftGuest = SwiftGuestGVK" by code_simp
  with planned_cells_stored [OF birth_pass(1) run hist keyed ops_map] pd birth_pure(2) no_update guards show ?thesis
    by (fastforce simp: birth_names)
qed

end
