(* ===== verification/Transitions.thy ===== *)
theory Transitions
  imports PassProgress
begin

text \<open>
  The counter of phase changes over a pass: every change a published row shows has been counted, and
  a pass that creates cells, which observes the pool twice from the same last status, counts a change
  it finds both times twice.
\<close>

definition phase_before :: "GPUCellPool \<Rightarrow> CellStatus \<Rightarrow> CellPhase" where
  \<comment> \<open>the phase of the cell's row in the last status, none if that was another incarnation\<close>
  "phase_before q c =
     (let prev = previous_of (previous_rows (st_Cells (po_Status q))) (cs_Name c) in
      if cs_GuestUID prev \<noteq> [] \<and> cs_GuestUID c \<noteq> [] \<and> cs_GuestUID prev \<noteq> cs_GuestUID c then PhaseUnset else cs_Phase prev)"

definition moved :: "GPUCellPool \<Rightarrow> CellStatus \<Rightarrow> bool" where
  "moved q c \<longleftrightarrow> phase_before q c \<noteq> PhaseUnset \<and> phase_before q c \<noteq> cs_Phase c"

definition move_event :: "GPUCellPool \<Rightarrow> CellStatus \<Rightarrow> event" where
  "move_event q c = EvMetric CellTransitionsTotal
     [po_Name q, po_Namespace q, phase_label (phase_before q c), phase_label (cs_Phase c)] 1"

definition counted :: "nat \<Rightarrow> GPUCellPool \<Rightarrow> CellStatus \<Rightarrow> event list \<Rightarrow> bool" where
  \<comment> \<open>a change of this row is counted after the first \<open>k\<close> calls\<close>
  "counted k q c tr \<longleftrightarrow> (moved q c \<longrightarrow> move_event q c \<in> set (drop k tr))"

lemma stable_counted [intro]: "stable (counted k q c)"
  by (auto simp: stable_def counted_def)

lemma stable_length [intro]: "stable (\<lambda>tr. k \<le> length tr)"
  by (simp add: stable_def)

section \<open>One discovery\<close>

lemma phase_before_new:
  "phase_before p (cellStatus (previous_row (previous_of (previous_rows (st_Cells (po_Status p))) name) outer) name idx outer obs dec now) =
   cs_Phase (previous_row (previous_of (previous_rows (st_Cells (po_Status p))) name) outer)"
  by (auto simp: phase_before_def previous_row_def zero_CellStatus_def Let_def)

lemma row_metrics_counts:
  assumes "prev = previous_row (previous_of (previous_rows (st_Cells (po_Status p))) name) outer"
    and "moved p (cellStatus prev name idx outer obs dec now)"
  shows "move_event p (cellStatus prev name idx outer obs dec now) \<in> set (row_metrics p prev outer dec now)"
proof -
  show ?thesis
    using assms(2)
    unfolding assms(1) by (simp add: moved_def move_event_def phase_before_new row_metrics_def)
qed

lemma trip_emit_all_mem: "trip (\<lambda>tr. k \<le> length tr) (emit_all evs) (\<lambda>_ tr. set evs \<subseteq> set (drop k tr))"
proof (induction evs)
  case (Cons ev evs)
  have mem: "stable (\<lambda>tr. ev \<in> set (drop k tr))" by (auto simp: stable_def)
  have "trip (\<lambda>tr. k \<le> length tr \<and> ev \<in> set (drop k tr)) (emit_all evs) (\<lambda>_ tr. set (ev # evs) \<subseteq> set (drop k tr))"
    using trip_conj [OF Cons keeps_stable_emits(2) [OF mem, unfolded keeps_def]] by (rule trip_weaken) auto
  then show ?case by (simp, intro trip_bind [OF trip_emit]) auto
qed (auto intro: trip_ret)

lemma discover_cell_counts:
  "trip (\<lambda>tr. k \<le> length tr)
     (discover_cell env p prov inner (previous_of (previous_rows (st_Cells (po_Status p))) name) name idx)
     (\<lambda>r tr. \<forall>c. r = Inr c \<longrightarrow> counted k p c tr)"
proof -
  let ?L = "\<lambda>tr. k \<le> length tr" and ?row = "previous_of (previous_rows (st_Cells (po_Status p))) name"
  have L: "stable ?L" by (rule stable_length)
  note keep = free.keeps_ensureBootstrapSecret [OF L, unfolded inv_of_free] free.keeps_prov_Ensure [OF L, unfolded inv_of_free]
    free.keeps_read_inner [OF L, unfolded inv_of_free]
  have del: "keeps ?L (DeleteNode env cs n)" for cs n
    using free.keeps_DeleteNode [OF L] by simp
  have tail: "trip ?L (do { emit_all (row_metrics p prev outer dec now); emit_all evs; ret (Inr (cellStatus prev name idx outer obs dec now)) })
      (\<lambda>r tr. \<forall>c. r = Inr c \<longrightarrow> counted k p c tr)" if "prev = previous_row ?row outer" for prev outer dec now obs evs
  proof (rule trip_bind [OF trip_emit_all_mem])
    let ?c = "cellStatus prev name idx outer obs dec now"
    have "trip (\<lambda>tr. counted k p ?c tr) (do { emit_all evs; ret (Inr ?c) }) (\<lambda>r tr. \<forall>c. r = Inr c \<longrightarrow> counted k p c tr)"
      by (rule trip_bind [OF keeps_stable_emits(2) [OF stable_counted, unfolded keeps_def]]) (auto intro: trip_ret)
    then show "trip (\<lambda>tr. set (row_metrics p prev outer dec now) \<subseteq> set (drop k tr)) (do { emit_all evs; ret (Inr ?c) })
        (\<lambda>r tr. \<forall>c. r = Inr c \<longrightarrow> counted k p c tr)" for u :: unit
      by (rule trip_weaken) (use row_metrics_counts [OF that] in \<open>auto simp: counted_def\<close>)
  qed
  have reap: "keeps ?L (case inner of
               None \<Rightarrow> ret (Inr ())
             | Some cs \<Rightarrow>
                 if b
                 then attempt (wrapping msg (DeleteNode env cs name)) (\<lambda>_. do { emit ev; ret (Inr ()) })
                 else ret (Inr ()))" for b msg ev
    by (intro keeps_rules del keeps_stable_emits L)
  show ?thesis
    unfolding discover_cell_def Let_def
    by (rule trip_attempt [OF keep(1) [unfolded keeps_def]], rule trip_attempt [OF keeps_wrapping [OF keep(2), unfolded keeps_def]],
        rule trip_attempt [OF keep(3) [unfolded keeps_def]], rule trip_attempt [OF reap [unfolded keeps_def]], rule tail [OF refl]) simp_all
qed

lemma tombstone_not_moved:
  assumes "c \<in> set (tombstones n (previous_rows (st_Cells (po_Status p))) live)"
  shows "\<not> moved p c"
proof -
  let ?m = "previous_rows (st_Cells (po_Status p))"
  have dist: "distinct (map fst (previous_rows rows))" for rows
    unfolding previous_rows_def by (induction rows rule: rev_induct) (auto simp: distinct_update)
  obtain name prev where row: "(name, prev) \<in> set ?m" "cs_Phase prev = CellPhaseFailed"
    "c = prev\<lparr>cs_GuestUID := [], cs_NodeName := [], cs_Devices := [], cs_CapacityDevices := 0\<rparr>"
    using assms by (auto simp: tombstones_def)
  have "previous_of ?m (cs_Name c) = prev"
    using map_of_is_SomeI [OF dist row(1)] previous_rows_from [OF row(1)] row(3) by (simp add: previous_of_def)
  then show ?thesis using row(2,3) by (simp add: moved_def phase_before_def Let_def)
qed

lemma discoverCells_counts:
  "trip (\<lambda>tr. k \<le> length tr) (discoverCells env p prov inner) (\<lambda>r tr. \<forall>cells. r = Inr cells \<longrightarrow> (\<forall>c \<in> set cells. counted k p c tr))"
proof -
  let ?L = "\<lambda>tr. k \<le> length tr" and ?m = "previous_rows (st_Cells (po_Status p))"
  let ?found = "\<lambda>found tr. \<forall>c \<in> set (concat found). counted k p c tr"
  let ?round = "\<lambda>name. case ParseIndex (po_Name p) name of
          Inl e \<Rightarrow> ret (Inr [])
        | Inr idx \<Rightarrow> attempt (discover_cell env p prov inner (previous_of ?m name) name idx) (\<lambda>row. ret (Inr [row]))"
  have keep: "keeps X (discover_cell env p prov inner row name idx)" "keeps X (reapOrphanNodes env p cs ks)" if "stable X" for X row name idx cs ks
    using free.keeps_open_discover_cell [OF that] free.keeps_open_reap [OF that] by simp_all
  have list: "trip ?L (prov_List env prov p) (\<lambda>_. ?L)"
    using free.keeps_prov_List [OF stable_length] by (simp add: keeps_def)
  have loop: "trip ?L (each ?round guests) (\<lambda>r tr. \<forall>found. r = Inr found \<longrightarrow> ?found found tr)" for guests
  proof -
    let ?V = "\<lambda>(name :: string) rows tr. \<forall>c \<in> set rows. counted k p c tr"
    have V: "stable (?V name rows)" for name rows by (intro stable_all stable_counted)
    have "trip ?L (each ?round guests) (\<lambda>r tr. \<forall>found. r = Inr found \<longrightarrow> list_all2 (\<lambda>name rows. ?V name rows tr) guests found)"
    proof (rule trip_each_from, goal_cases)
      case (1 name)
      show ?case
      proof (cases "ParseIndex (po_Name p) name")
        case (Inr idx)
        then show ?thesis by (simp, intro trip_attempt [OF discover_cell_counts]) (auto intro!: trip_ret)
      qed (auto intro: trip_ret)
    next
      case (2 name)
      show ?case by (intro keeps_rules keep stable_length)
    next
      case (3 name rows other)
      show ?case by (intro keeps_rules keep V)
    qed
    moreover have "?found found tr" if "list_all2 (\<lambda>name rows. ?V name rows tr) guests found" for found tr
      using that by (induction rule: list_all2_induct) auto
    ultimately show ?thesis by (elim trip_weaken) blast+
  qed
  have stone: "counted k p c tr" if "c \<in> set (tombstones n ?m live)" for tr c n live
    using tombstone_not_moved [OF that] by (simp add: counted_def)
  have fin: "trip (?found found) (attempt (case inner of None \<Rightarrow> ret (Inr ()) | Some cs \<Rightarrow> reapOrphanNodes env p cs ks)
      (\<lambda>_. ret (Inr (sort_key cs_Index (concat found @ tombstones n ?m live)))))
      (\<lambda>r tr. \<forall>cells. r = Inr cells \<longrightarrow> (\<forall>c \<in> set cells. counted k p c tr))" for found ks n live
  proof (rule trip_attempt)
    show "trip (?found found) (case inner of None \<Rightarrow> ret (Inr ()) | Some cs \<Rightarrow> reapOrphanNodes env p cs ks) (\<lambda>_. ?found found)"
      by (fold keeps_def) (intro keeps_rules keep stable_all stable_counted)
  qed (auto intro!: trip_ret intro: stone)
  show ?thesis
    unfolding discoverCells_def Let_def
    by (rule trip_attempt [OF list], rule trip_attempt [OF loop], rule trip_weaken [OF fin]) simp_all
qed

section \<open>One pass\<close>

lemma act_counts:
  "trip (\<lambda>tr. k \<le> length tr \<and> (\<forall>c \<in> set cells. counted j q c tr)) (act env q prov inner ready idle scale plan cells)
     (\<lambda>r tr. \<forall>x. r = Inr x \<longrightarrow> (\<forall>c \<in> set (fst x). cs_Phase c \<noteq> CellPhaseDraining \<longrightarrow>
        (if mp_Create plan = [] then counted j q c tr else counted k q c tr)))"
proof -
  let ?i = "if mp_Create plan = [] then j else k"
  let ?pre = "\<lambda>tr. k \<le> length tr \<and> (\<forall>c \<in> set cells. counted j q c tr)"
  let ?F = "\<lambda>found tr. \<forall>c \<in> set found. counted ?i q c tr"
  let ?done = "\<lambda>r tr. \<forall>x. r = Inr x \<longrightarrow> (\<forall>c \<in> set (fst x). cs_Phase c \<noteq> CellPhaseDraining \<longrightarrow> counted ?i q c tr)"
  have pre: "stable ?pre" by (intro stable_conj stable_length stable_all stable_counted)
  have F: "stable (?F found)" for found by (intro stable_all stable_counted)
  have create: "trip ?pre (create_cells env q prov idxs) (\<lambda>_. ?pre)" for idxs
    unfolding create_cells_def by (fold keeps_def) (intro keeps_rules free_keeps keeps_stable_emits pre)
  have observe: "trip ?pre (if 0 < length (mp_Create plan) then discoverCells env q prov inner else ret (Inr cells))
      (\<lambda>r tr. \<forall>found. r = Inr found \<longrightarrow> ?F found tr)"
    by (cases "mp_Create plan = []") (auto intro!: trip_ret trip_weaken [OF discoverCells_counts])
  have replace: "trip (?F found) (replace_failed env q prov ready rows) (\<lambda>_. ?F found)" for found rows
    unfolding replace_failed_def by (fold keeps_def) (intro keeps_rules free_keeps F)
  have drain: "trip (?F found) (do { emit_all evs; attempt (drain_cells env q prov inner rows) (\<lambda>cells. ret (Inr (cells, rollout))) }) ?done"
    if from_found: "\<And>c. c \<in> set rows \<Longrightarrow> cs_Phase c \<noteq> CellPhaseDraining \<Longrightarrow> c \<in> set found" for found rows evs rollout
  proof (rule trip_bind [OF keeps_stable_emits(2) [OF F, unfolded keeps_def]])
    have keep: "keeps (?F found) (drain_cells env q prov inner rows)"
      unfolding drain_cells_def by (intro keeps_rules keeps_stable F)
    show "trip (?F found) (attempt (drain_cells env q prov inner rows) (\<lambda>cells. ret (Inr (cells, rollout)))) ?done" for u :: unit
      by (rule trip_attempt [OF trip_also [OF keep drain_cells_rows_from [of "\<lambda>_. True"], simplified]])
        (use from_found in \<open>auto intro!: trip_ret\<close>)
  qed
  have marked: "c \<in> set found" if "c \<in> set (foldl (\<lambda>cs n. markDraining cs n now) found ns)" "cs_Phase c \<noteq> CellPhaseDraining" for c found ns now
    using that by (induction ns rule: rev_induct) (auto simp: markDraining_def mark_row_def split: if_splits)
  have marked2: "c \<in> set found"
    if "c \<in> set (if b then markDraining (foldl (\<lambda>cs n. markDraining cs n now) found ns) m now else foldl (\<lambda>cs n. markDraining cs n now) found ns)"
      "cs_Phase c \<noteq> CellPhaseDraining" for c found ns now b m
    using that marked [of c now found "ns @ [m]"] marked [of c now found ns] by (auto split: if_splits)
  have "trip ?pre (act env q prov inner ready idle scale plan cells) ?done"
    unfolding act_def Let_def
    by (rule trip_attempt [OF create], rule trip_attempt [OF observe], rule trip_weaken,
        rule trip_bind [OF keeps_stable_emits(2) [OF F, unfolded keeps_def]], rule trip_attempt [OF replace],
        rule drain [OF marked2]) simp_all
  then show ?thesis by (rule trip_weaken) auto
qed

lemma counted_same_pool: "same_pool p q \<Longrightarrow> counted k p c = counted k q c"
  by (auto simp: same_pool_def fun_eq_iff counted_def moved_def move_event_def phase_before_def)

lemma decide_pass_counts:
  "trip (\<lambda>_. True) (decide_pass env q prov inner) (\<lambda>r tr. \<forall>pd. r = Inr pd \<longrightarrow> (\<forall>c \<in> set (pd_cells pd). counted 0 q c tr))"
proof -
  let ?C = "\<lambda>cells tr. \<forall>c \<in> set cells. counted 0 q c tr"
  have C: "stable (?C cells)" for cells by (intro stable_all stable_counted)
  have inventory: "trip (?C cells) (call (\<lambda>tr. free_of (physicalInventory (en_Outer env tr) q)) (\<lambda>_. EvRead ''Inventory'')) (\<lambda>_. ?C cells)" for cells
    using C [of cells] by (intro trip_call) (simp add: stable_def)
  note steps = inventory free_keeps(4) [OF C, unfolded keeps_def] keeps_stable_emits(1) [OF C, unfolded keeps_def]
    free_keeps(5) [OF C, unfolded keeps_def] keeps_stable_emits(2) [OF C, unfolded keeps_def]
  show ?thesis
    unfolding decide_pass_def Let_def
    by (rule trip_attempt [OF discoverCells_counts [of 0, simplified]], rule trip_weaken, rule trip_bind [OF steps(1)], rule trip_bind [OF steps(2)],
        rule trip_bind [OF steps(3)], rule trip_bind [OF steps(4)], rule trip_bind [OF steps(5)], rule trip_ret) simp_all
qed

lemma finish_pass_counts:
  assumes "same_pool (pd_pool pd) q"
  shows "trip (\<lambda>tr. k \<le> length tr \<and> (\<forall>c \<in> set (pd_cells pd). counted 0 q c tr)) (finish_pass env prov c pd)
    (\<lambda>r tr. (\<exists>d. r = Inr d) \<longrightarrow> (\<exists>p pre. tr = pre @ [EvUpdateStatus p (Inr ())] \<and> (\<forall>c \<in> set (st_Cells (po_Status p)).
       cs_Phase c \<noteq> CellPhaseDraining \<longrightarrow> (if mp_Create (pd_plan pd) = [] then counted 0 q c tr else counted k q c tr))))"
proof -
  define i where "i = (if mp_Create (pd_plan pd) = [] then 0 else k)"
  let ?S = "\<lambda>cells tr. \<forall>c \<in> set cells. cs_Phase c \<noteq> CellPhaseDraining \<longrightarrow> counted i q c tr"
  let ?D = "\<lambda>tr. \<exists>p pre. tr = pre @ [EvUpdateStatus p (Inr ())] \<and> ?S (st_Cells (po_Status p)) tr"
  have S: "stable (?S cells)" for cells by (intro stable_all stable_imp stable_counted)
  have write1: "trip (?S cells) (call (\<lambda>tr. en_UpdateStatus env tr p) (EvUpdateStatus p)) (\<lambda>r tr. (\<exists>u. r = Inr u) \<longrightarrow> ?D tr)"
    if "st_Cells (po_Status p) = cells" for p cells
    by (rule trip_call) (use that S [of cells] in \<open>auto simp: stable_def\<close>)
  have writes: "trip (?S cells) (do { emit ev; attempt (wrapping msg (call (\<lambda>tr. en_UpdateStatus env tr p) (EvUpdateStatus p))) (\<lambda>_. ret (Inr d)) })
      (\<lambda>r tr. (\<exists>d. r = Inr d) \<longrightarrow> ?D tr)" if "st_Cells (po_Status p) = cells" for ev msg p d cells
    by (rule trip_bind [OF keeps_stable_emits(1) [OF S, unfolded keeps_def]], rule trip_attempt_ok, rule trip_wrapping_ok, rule write1 [OF that])
      (auto intro: trip_ret)
  note acts = act_counts [where q = "pd_pool pd" and j = 0, unfolded counted_same_pool [OF assms]]
  have "trip (\<lambda>tr. k \<le> length tr \<and> (\<forall>c \<in> set (pd_cells pd). counted 0 q c tr)) (finish_pass env prov c pd) (\<lambda>r tr. (\<exists>d. r = Inr d) \<longrightarrow> ?D tr)"
    unfolding finish_pass_def Let_def
    by (rule trip_attempt [OF acts], unfold case_prod_beta, rule trip_weaken [OF writes [OF writeStatus_Cells]]) (auto simp: i_def split: if_splits)
  then show ?thesis by (rule trip_weaken) (auto simp: i_def split: if_splits)
qed

section \<open>Properties\<close>

text \<open>
  Every phase change is counted, and in a pass that creates cells twice. Take a live pass that ends
  without an error, and a row of the status it writes whose phase differs from the last status' and is
  not Draining. Then the counter of transitions was incremented for that change; and if the pass
  created cells and had found the same change before it did, it was incremented twice.
\<close>

theorem phase_changes_counted:
  assumes "pass_pool env prov q" and "run_state (Reconcile env) \<lparr>wo_trace = [], wo_cache = cache\<rparr> = (Inr d, w)"
    and "last (wo_trace w) = EvUpdateStatus p (Inr ())" and "c \<in> set (st_Cells (po_Status p))"
    and "moved q c" and "cs_Phase c \<noteq> CellPhaseDraining"
  shows "\<exists>pd w0. pass_decision env prov q cache = (Inr pd, w0) \<and> move_event q c \<in> set (wo_trace w) \<and>
    (mp_Create (pd_plan pd) \<noteq> [] \<and> (\<exists>c' \<in> set (pd_cells pd). moved q c' \<and> move_event q c' = move_event q c) \<longrightarrow>
       2 \<le> count_list (wo_trace w) (move_event q c))"
proof -
  obtain cl pd w0 where pd: "pass_decision env prov q cache = (Inr pd, w0)" "run_state (finish_pass env prov cl pd) w0 = (Inr d, w)"
    "same_pool (pd_pool pd) q" "\<forall>c \<in> set (pd_cells pd). counted 0 q c (wo_trace w0)"
    using pass_in_two [OF assms(1,2) decide_pass_counts] by blast
  let ?k = "length (wo_trace w0)"
  have post: "\<exists>post. wo_trace w = wo_trace w0 @ post"
    using successful_pass_done [OF assms(1,2)] pd(1) unfolding pass_done_def by auto
  from trip_run [OF finish_pass_counts [OF pd(3), of ?k] _ pd(2)] pd(4) assms(3,4,6)
  have c: "if mp_Create (pd_plan pd) = [] then counted 0 q c (wo_trace w) else counted ?k q c (wo_trace w)" by auto
  from post obtain post where w: "wo_trace w = wo_trace w0 @ post" by blast
  have once: "move_event q c \<in> set (wo_trace w)" using c assms(5) by (auto simp: counted_def w split: if_splits)
  have "2 \<le> count_list (wo_trace w) (move_event q c)"
    if "mp_Create (pd_plan pd) \<noteq> []" "c' \<in> set (pd_cells pd)" "moved q c'" "move_event q c' = move_event q c" for c'
  proof -
    have "move_event q c \<in> set (wo_trace w0)" using pd(4) that by (auto simp: counted_def)
    moreover have "move_event q c \<in> set post" using c that(1) assms(5) by (auto simp: counted_def w)
    ultimately have "0 < count_list (wo_trace w0) (move_event q c)" "0 < count_list post (move_event q c)"
      by (metis count_list_0_iff not_gr_zero)+
    then show ?thesis by (simp add: w)
  qed
  with pd(1) once show ?thesis by blast
qed

end
