(* ===== verification/Spec2Isabelle.thy ===== *)
theory Spec2Isabelle
  imports CellObjects Outage Metrics Convergence Manager FakeProvider CellStore Transitions
begin

text \<open>
  A verification of the gpucellpool operator (Go, under \<^verbatim>\<open>src/\<close>).

  \<^bold>\<open>The program.\<close> The operator runs in an infrastructure cluster and keeps pools of GPU cells. A cell
  is a VM of the infrastructure cluster that holds one physical GPU and joins a workload cluster as
  a Node; HAMi divides its GPU there. A pass over a pool (\<^verbatim>\<open>internal/controller/controller.go\<close>) reads
  both clusters, advances each cell's state machine (\<^verbatim>\<open>fsm.go\<close>), decides the desired size
  (\<^verbatim>\<open>scaling.go\<close>), plans creations and drains (\<^verbatim>\<open>membership.go\<close>) and template rollouts (\<^verbatim>\<open>rollout.go\<close>),
  acts through a provisioner (\<^verbatim>\<open>internal/provisioner\<close>) and on Nodes (\<^verbatim>\<open>internal/workload\<close>), and
  publishes status, conditions and metrics (\<^verbatim>\<open>status.go\<close>, \<^verbatim>\<open>metrics.go\<close>). What the GPUs hold is read by
  the HAMi provider (\<^verbatim>\<open>internal/capacity\<close>), what is physically free by \<^verbatim>\<open>internal/inventory\<close>; cloud-init
  is rendered by \<^verbatim>\<open>internal/bootstrap\<close>; pools are checked at admission by \<^verbatim>\<open>internal/webhook\<close>; the
  metrics endpoint is guarded by \<^verbatim>\<open>internal/metricsauth\<close>; \<^verbatim>\<open>internal/crdcheck\<close> compares schemas at start.

  \<^bold>\<open>Theories and sources.\<close>
  \<^item> \<open>Prelude\<close>: strings, Go's integers and their wrap-around, quoting, errors with their API reason,
    string maps, results and folds over them.
  \<^item> \<open>Api\<close>: the types and constants of \<^verbatim>\<open>api/v1alpha1\<close>. \<open>CellId\<close>: \<^verbatim>\<open>internal/cellid\<close>. \<open>Json\<close>: the parts of
    \<^verbatim>\<open>encoding/json\<close> the sources use (a full parser and the decoding into strings, booleans, integers and
    maps). \<open>Objects\<close>: unstructured objects.
  \<^item> \<open>Capacity\<close>, \<open>HamiProvider\<close>, \<open>HamiDra\<close>, \<open>CapacityContract\<close>, \<open>Resources\<close>: \<^verbatim>\<open>internal/capacity\<close>; the locale of
    \<open>CapacityContract\<close> is the provider interface and \<open>HamiDra\<close> interprets it. \<open>Inventory\<close>: \<^verbatim>\<open>internal/inventory\<close>.
  \<^item> \<open>Workload\<close>, \<open>NodeWrites\<close>, \<open>ClientCache\<close>: \<^verbatim>\<open>internal/workload\<close>. \<open>Bootstrap\<close>: \<^verbatim>\<open>internal/bootstrap\<close>.
  \<^item> \<open>Fsm\<close>, \<open>Membership\<close>, \<open>Scaling\<close>, \<open>Rollout\<close>, \<open>Helpers\<close>, \<open>Status\<close>: the files of \<^verbatim>\<open>internal/controller\<close> of the
    same names (\<open>Helpers\<close> with \<^verbatim>\<open>idle.go\<close>, \<open>Status\<close> with \<^verbatim>\<open>metrics.go\<close>). \<open>CellRow\<close>: one status row over the passes.
    \<open>ScalingPass\<close>: the scaling and membership part of a pass and its clocks.
  \<^item> \<open>Provisioner\<close>, \<open>Template\<close>, \<open>OuterCalls\<close>, \<open>SwiftGuest\<close>, \<open>ClusterApi\<close>: \<^verbatim>\<open>internal/provisioner\<close>. The interface
    is the locale \<open>provisioner_contract\<close> of \<open>ProvisionerContract\<close>, interpreted by both provisioners and
    by the choice between them.
  \<^item> \<open>Effects\<close>: how calls to the clusters are modelled. \<open>Reconciler\<close>: every method of \<^verbatim>\<open>controller.go\<close> that
    makes one, up to \<open>Reconcile\<close>; a pass over a live pool is \<open>decide_pass\<close>, which reads and decides, and
    then \<open>finish_pass\<close>, which acts and publishes.
  \<^item> \<open>TraceLogic\<close>, \<open>TraceRules\<close>, \<open>RemovalRules\<close>: the program logic of passes: locales for the rules a trace
    of calls can obey, with the operations of the reconciler shown to keep them.
  \<^item> \<open>ReconcilerSafety\<close>, \<open>Outage\<close>, \<open>Teardown\<close>, \<open>TeardownProgress\<close>, \<open>PassProgress\<close>, \<open>RowInvariant\<close>,
    \<open>CellObjects\<close>, \<open>CellStore\<close>, \<open>Transitions\<close>: the properties of whole passes, each from interpretations of those locales. \<open>SamplePass\<close> and
    \<open>CreationPass\<close>: concrete passes for their witnesses.
  \<^item> \<open>Webhook\<close>, \<open>Admission\<close>: the webhook, and what it promises the reconciler. \<open>MetricsAuth\<close>, \<open>CrdCheck\<close>.
    \<open>Metrics\<close>: \<^verbatim>\<open>internal/metrics\<close>, the collectors and the series they hold after any number of passes.
    \<open>Manager\<close>: \<^verbatim>\<open>cmd/manager\<close>. \<open>FakeProvider\<close>: \<^verbatim>\<open>internal/capacity/fake.go\<close>.
  \<^item> \<open>ApiServer\<close>: the operator against the API server, with other clients acting between its calls.
    \<open>Convergence\<close>: where repeated planning leads.

  \<^bold>\<open>How a pass is modelled.\<close> A computation of HOL-Library's state monad over a \<open>World\<close>: the trace of the
  calls made so far and the client cache. Each call is answered by a function of the trace (the
  fields of \<open>Env\<close>), of which nothing is assumed, so the properties hold for any answers, any errors
  at any call, and clusters that change between calls. An early return of the Go code is \<open>attempt\<close>. A
  provisioner's requests stand in the trace between the event of its call and of its return.

  \<^bold>\<open>What is shown.\<close>
  \<^item> Whole passes: nothing is deleted, unguarded or created without evidence (\<open>ReconcilerSafety\<close>); an
    outage freezes the workload cluster, and what it does not freeze (\<open>Outage\<close>); a deleted pool gives
    up its cells only when drained, forced or timed out, and its finalizer last (\<open>Teardown\<close>), and a
    hurried deletion that meets no error removes every listed cell (\<open>TeardownProgress\<close>); a live
    pass that meets no error has carried out its plan: every planned cell ensured, the failed ones
    that are due deleted, every draining one deleted or explained (\<open>PassProgress\<close>, stated in \<open>CellStore\<close>); with a server that
    keeps what it accepted, the planned cells are in its store at the end, guarded (\<open>CellStore\<close>);
    every change of phase in a published row was counted, twice if the pass also created cells
    (\<open>Transitions\<close>); every
    published row satisfies the row invariant (\<open>RowInvariant\<close>); a cell's objects are created in
    order and found again (\<open>CellObjects\<close>); a scrape agrees with the status just written, no collector
    is called with the wrong labels, and a deleted pool leaves no series (\<open>Metrics\<close>).
  \<^item> Many passes: a cell's object outlives its work whoever asks for its deletion (\<open>ApiServer\<close>), and a
    pool reaches its size and stays there when what is asked for happens (\<open>Convergence\<close>).
  \<^item> Decisions: the state machine implements its ladder, never waits silently, never fails without a
    budget spent; the planner creates and drains exactly what its specification says, with fresh
    names; the autoscaler moves by one within its bounds and on evidence only; rollouts replace one
    idle stale cell at a time.
  \<^item> Readings: capacity, demand, allocations and inventory count exactly what the clusters published;
    an unreadable part is an error and not a zero; the two annotation formats are parsed exactly.
  \<^item> Edges: rendering replaces exactly the tokens; the overlay of a guest spec touches owned fields
    only; admission and rendering agree, and an admitted pool renders; a metrics request passes only
    on a fresh review, and the manager starts with that filter and the webhook in place (\<open>Manager\<close>); a cached client is built from the current credential; the preflight reports
    exactly the missing properties.

  \<^bold>\<open>Bounds and termination.\<close> Machine integers are \<open>int\<close> with Go's wrap-around written out; where a
  property needs that a count does not wrap, the bound (fewer than 2147483648 rows or passes) is a
  hypothesis. \<open>LowestFreeIndex\<close> searches with as much fuel as there are used indexes, shown to be enough.
  The JSON parser recurses on the length of the text, guarded by comparisons that always hold. All
  other loops are structural or have a termination proof.

  \<^bold>\<open>Abstractions.\<close> One pass reads the clock once. Go ranges over maps in no fixed order; the models take
  the order of the association list, and the sources sort where it would show. The readers of
  unstructured objects, \<^verbatim>\<open>metav1.NewControllerRef\<close> and the error predicates of apimachinery are
  modelled as documented. \<^verbatim>\<open>meta.SetStatusCondition\<close>, SHA-256, the DNS-1123 check, kubeconfig
  parsing and client construction are parameters. Numbers in JSON are kept as their literals.

  \<^bold>\<open>Not modelled.\<close> \<^verbatim>\<open>SetupWithManager\<close> and \<^verbatim>\<open>SetupWebhookWithManager\<close> wire libraries together and decide
  nothing, and \<^verbatim>\<open>flag.Parse\<close> is the library's; \<^verbatim>\<open>zz_generated.deepcopy.go\<close> and
  \<^verbatim>\<open>groupversion_info.go\<close> are generated or declarative;
  the embedded file system and the YAML decoder are parameters of the preflight. Concurrency between reconcilers of different pools meets
  only in the client cache, whose mutex makes each operation one step.
\<close>

end
